(* ===== verification/Prelude.thy ===== *)
theory Prelude
  imports Main
begin

text \<open>
  The parts of Rust's standard library that the modelled crates call, and the generic lemmas the
  component theories share.

  Strings are \<^typ>\<open>string\<close>, read as the UTF-8 bytes of the Rust \<^verbatim>\<open>String\<close>.  Unsigned integers are
  \<^typ>\<open>nat\<close> and signed ones \<^typ>\<open>int\<close>; every saturating, wrapping or checked operation of the source
  is one of the functions below, with the width written out.  A \<^verbatim>\<open>HashMap\<close> or \<^verbatim>\<open>BTreeMap\<close> is an
  association list looked up with \<^const>\<open>map_of\<close>.
\<close>

named_theorems rust_std "equations of the standard-library functions, for evaluating the model"

type_synonym labels = "(string \<times> string) list"

section \<open>Options\<close>

text \<open>\<^verbatim>\<open>Option::is_some_and\<close>, \<^verbatim>\<open>is_none_or\<close>, \<^verbatim>\<open>filter\<close> and \<^verbatim>\<open>unwrap_or\<close>.\<close>

definition is_some_and :: "('a \<Rightarrow> bool) \<Rightarrow> 'a option \<Rightarrow> bool" where
  "is_some_and P x = (case x of None \<Rightarrow> False | Some y \<Rightarrow> P y)"

definition is_none_or :: "('a \<Rightarrow> bool) \<Rightarrow> 'a option \<Rightarrow> bool" where
  "is_none_or P x = (case x of None \<Rightarrow> True | Some y \<Rightarrow> P y)"

definition filter_opt :: "('a \<Rightarrow> bool) \<Rightarrow> 'a option \<Rightarrow> 'a option" where
  "filter_opt P x = (case x of None \<Rightarrow> None | Some y \<Rightarrow> if P y then Some y else None)"

definition unwrap_or :: "'a \<Rightarrow> 'a option \<Rightarrow> 'a" where
  "unwrap_or d x = (case x of None \<Rightarrow> d | Some y \<Rightarrow> y)"

lemma is_some_and_simps [simp, rust_std]:
  "is_some_and P None = False" "is_some_and P (Some y) = P y"
  by (simp_all add: is_some_and_def)

lemma is_none_or_simps [simp, rust_std]:
  "is_none_or P None = True" "is_none_or P (Some y) = P y"
  by (simp_all add: is_none_or_def)

lemma filter_opt_simps [simp, rust_std]:
  "filter_opt P None = None" "filter_opt P (Some y) = (if P y then Some y else None)"
  by (simp_all add: filter_opt_def)

lemma unwrap_or_simps [simp, rust_std]:
  "unwrap_or d None = d" "unwrap_or d (Some y) = y"
  by (simp_all add: unwrap_or_def)

lemma is_some_and_iff: "is_some_and P x \<longleftrightarrow> (\<exists>y. x = Some y \<and> P y)"
  by (cases x) auto

lemma is_none_or_iff: "is_none_or P x \<longleftrightarrow> (\<forall>y. x = Some y \<longrightarrow> P y)"
  by (cases x) auto

lemma filter_opt_eq_Some: "filter_opt P x = Some y \<longleftrightarrow> x = Some y \<and> P y"
  by (cases x) auto

lemma filter_opt_eq_None: "filter_opt P x = None \<longleftrightarrow> (\<forall>y. x = Some y \<longrightarrow> \<not> P y)"
  by (cases x) auto

section \<open>Lists\<close>

text \<open>\<^verbatim>\<open>Iterator::filter_map\<close> and the search for the first element with a property.\<close>

definition filter_map :: "('a \<Rightarrow> 'b option) \<Rightarrow> 'a list \<Rightarrow> 'b list" where
  "filter_map f xs = map the (filter (\<lambda>x. x \<noteq> None) (map f xs))"

lemma filter_map_simps [simp, rust_std]:
  "filter_map f [] = []"
  "filter_map f (x # xs) = (case f x of None \<Rightarrow> filter_map f xs | Some y \<Rightarrow> y # filter_map f xs)"
  by (auto simp: filter_map_def split: option.splits)

lemma set_filter_map: "set (filter_map f xs) = {y. \<exists>x \<in> set xs. f x = Some y}"
  by (induction xs) (auto split: option.splits)

lemma find_eq_Some_in: "find P xs = Some x \<Longrightarrow> x \<in> set xs \<and> P x"
  by (auto simp: find_Some_iff)

lemma find_hd_filter: "filter P xs \<noteq> [] \<Longrightarrow> find P xs = Some (hd (filter P xs))"
  by (induction xs) auto

lemma find_eq_None: "find P xs = None \<longleftrightarrow> (\<forall>x \<in> set xs. \<not> P x)"
  by (auto simp: find_None_iff)

text \<open>The first element of a descending stable sort is the first maximum.\<close>

lemma hd_sort_key_neg:
  fixes f :: "'a \<Rightarrow> int"
  assumes "xs \<noteq> []"
  shows "hd (sort_key (\<lambda>x. - f x) xs) \<in> set xs"
    and "\<And>y. y \<in> set xs \<Longrightarrow> f y \<le> f (hd (sort_key (\<lambda>x. - f x) xs))"
proof -
  let ?ys = "sort_key (\<lambda>x. - f x) xs"
  have ne: "?ys \<noteq> []" using assms
    by (metis length_greater_0_conv length_sort)
  then show "hd ?ys \<in> set xs"
    by (metis list.set_sel(1) set_sort)
  fix y assume "y \<in> set xs"
  then have y: "y \<in> set ?ys" by simp
  obtain z zs where zs: "?ys = z # zs" using ne by (cases ?ys) auto
  have "sorted (map (\<lambda>x. - f x) (z # zs))"
    using sorted_sort_key [of "\<lambda>x. - f x" xs] by (simp only: zs)
  with y zs show "f y \<le> f (hd ?ys)" by auto
qed

lemma filter_insort_key_ties:
  "filter (\<lambda>y. k y = c) (insort_key k x xs) =
     (if k x = c then x # filter (\<lambda>y. k y = c) xs else filter (\<lambda>y. k y = c) xs)"
  if "sorted (map k xs)"
  using that by (induction xs) auto

lemma filter_sort_key_ties: "filter (\<lambda>y. k y = c) (sort_key k xs) = filter (\<lambda>y. k y = c) xs"
  by (induction xs) (auto simp: filter_insort_key_ties)

lemma hd_sort_key_first:
  fixes f :: "'a \<Rightarrow> int"
  assumes "xs \<noteq> []"
  shows "find (\<lambda>x. \<forall>y \<in> set xs. f y \<le> f x) xs = Some (hd (sort_key (\<lambda>x. - f x) xs))"
proof -
  let ?ys = "sort_key (\<lambda>x. - f x) xs" and ?h = "hd (sort_key (\<lambda>x. - f x) xs)"
  have hin: "?h \<in> set xs" and hmax: "\<And>y. y \<in> set xs \<Longrightarrow> f y \<le> f ?h"
    using hd_sort_key_neg [OF assms, where f = f] by auto
  have max_iff: "(\<forall>y \<in> set xs. f y \<le> f x) \<longleftrightarrow> - f x = - f ?h" if "x \<in> set xs" for x
    using that hin hmax by (auto intro: order_antisym)
  have "?ys \<noteq> []" using assms by (metis length_greater_0_conv length_sort)
  then have "hd (filter (\<lambda>x. - f x = - f ?h) ?ys) = ?h" by (cases ?ys) auto
  then have hdf: "hd (filter (\<lambda>x. - f x = - f ?h) xs) = ?h"
    by (simp only: filter_sort_key_ties)
  have eq: "filter (\<lambda>x. \<forall>y \<in> set xs. f y \<le> f x) xs = filter (\<lambda>x. - f x = - f ?h) xs"
    using max_iff by (intro filter_cong) auto
  moreover have "filter (\<lambda>x. - f x = - f ?h) xs \<noteq> []"
    using hin by (auto simp: filter_empty_conv)
  ultimately have "find (\<lambda>x. \<forall>y \<in> set xs. f y \<le> f x) xs =
      Some (hd (filter (\<lambda>x. \<forall>y \<in> set xs. f y \<le> f x) xs))"
    by (intro find_hd_filter) simp
  then show ?thesis by (simp only: eq hdf)
qed

section \<open>Strings\<close>

text \<open>\<^verbatim>\<open>str::strip_prefix\<close> and \<^verbatim>\<open>str::strip_suffix\<close>.\<close>

definition strip_prefix :: "string \<Rightarrow> string \<Rightarrow> string option" where
  "strip_prefix p s = (if take (length p) s = p then Some (drop (length p) s) else None)"

definition strip_suffix :: "string \<Rightarrow> string \<Rightarrow> string option" where
  "strip_suffix p s = map_option rev (strip_prefix (rev p) (rev s))"

lemma strip_prefix_eq_Some: "strip_prefix p s = Some t \<longleftrightarrow> s = p @ t"
proof
  assume "strip_prefix p s = Some t"
  then have "take (length p) s = p" and "drop (length p) s = t"
    by (simp_all add: strip_prefix_def split: if_splits)
  then show "s = p @ t" by (metis append_take_drop_id)
qed (simp add: strip_prefix_def)

lemma strip_prefix_append [simp]: "strip_prefix p (p @ t) = Some t"
  by (simp add: strip_prefix_eq_Some)

lemma strip_suffix_eq_Some: "strip_suffix p s = Some t \<longleftrightarrow> s = t @ p"
proof -
  have "strip_suffix p s = Some t \<longleftrightarrow> strip_prefix (rev p) (rev s) = Some (rev t)"
    by (auto simp: strip_suffix_def)
  also have "\<dots> \<longleftrightarrow> s = t @ p"
    by (simp add: strip_prefix_eq_Some flip: rev_append)
  finally show ?thesis .
qed

text \<open>
  \<^verbatim>\<open>str::trim\<close> removes the characters with the Unicode property White_Space from both ends.  They
  are listed by their UTF-8 encodings.
\<close>

definition whitespace :: "string list" where
  "whitespace =
     [[CHR 0x09], [CHR 0x0A], [CHR 0x0B], [CHR 0x0C], [CHR 0x0D], [CHR 0x20],
      [CHR 0xC2, CHR 0x85], [CHR 0xC2, CHR 0xA0], [CHR 0xE1, CHR 0x9A, CHR 0x80],
      [CHR 0xE2, CHR 0x80, CHR 0x80], [CHR 0xE2, CHR 0x80, CHR 0x81], [CHR 0xE2, CHR 0x80, CHR 0x82],
      [CHR 0xE2, CHR 0x80, CHR 0x83], [CHR 0xE2, CHR 0x80, CHR 0x84], [CHR 0xE2, CHR 0x80, CHR 0x85],
      [CHR 0xE2, CHR 0x80, CHR 0x86], [CHR 0xE2, CHR 0x80, CHR 0x87], [CHR 0xE2, CHR 0x80, CHR 0x88],
      [CHR 0xE2, CHR 0x80, CHR 0x89], [CHR 0xE2, CHR 0x80, CHR 0x8A], [CHR 0xE2, CHR 0x80, CHR 0xA8],
      [CHR 0xE2, CHR 0x80, CHR 0xA9], [CHR 0xE2, CHR 0x80, CHR 0xAF], [CHR 0xE2, CHR 0x81, CHR 0x9F],
      [CHR 0xE3, CHR 0x80, CHR 0x80]]"

definition strip_any :: "string list \<Rightarrow> string \<Rightarrow> string option" where
  "strip_any ws s = (case filter_map (\<lambda>w. if w = [] then None else strip_prefix w s) ws of
     [] \<Rightarrow> None | t # _ \<Rightarrow> Some t)"

lemma strip_any_shorter: "strip_any ws s = Some t \<Longrightarrow> length t < length s"
proof -
  assume "strip_any ws s = Some t"
  then have "t \<in> set (filter_map (\<lambda>w. if w = [] then None else strip_prefix w s) ws)"
    by (auto simp: strip_any_def split: list.splits)
  then show ?thesis
    by (auto simp: set_filter_map strip_prefix_eq_Some split: if_splits)
qed

function trim_with :: "string list \<Rightarrow> string \<Rightarrow> string" where
  "trim_with ws s = (case strip_any ws s of None \<Rightarrow> s | Some t \<Rightarrow> trim_with ws t)"
  by pat_completeness auto
termination
  by (relation "measure (\<lambda>(ws, s). length s)") (auto dest: strip_any_shorter)

declare trim_with.simps [simp del]

definition trim :: "string \<Rightarrow> string" where
  "trim s = rev (trim_with (map rev whitespace) (rev (trim_with whitespace s)))"

lemma trim_with_fixed: "strip_any ws (trim_with ws s) = None"
proof (induction ws s rule: trim_with.induct)
  case (1 ws s)
  then show ?case
    by (cases "strip_any ws s") (simp_all add: trim_with.simps [of ws s])
qed

lemma trim_with_idem: "trim_with ws (trim_with ws s) = trim_with ws s"
  by (subst trim_with.simps) (simp add: trim_with_fixed)

lemma trim_Nil [simp]: "trim [] = []"
proof -
  have "strip_any ws [] = None" for ws
    using strip_any_shorter [of ws "[]"] by (cases "strip_any ws []") auto
  then have "trim_with ws [] = []" for ws
    by (subst trim_with.simps) simp
  then show ?thesis by (simp add: trim_def)
qed

text \<open>A string whose first and last bytes begin no whitespace encoding is left as it is.\<close>

lemma strip_any_hd:
  assumes "\<forall>w \<in> set ws. w \<noteq> [] \<longrightarrow> hd w \<noteq> c"
  shows "strip_any ws (c # s) = None"
proof -
  have "filter_map (\<lambda>w. if w = [] then None else strip_prefix w (c # s)) ws = []"
    using assms by (induction ws) (auto simp: strip_prefix_def neq_Nil_conv)
  then show ?thesis by (simp add: strip_any_def)
qed

lemma trim_id:
  assumes "\<forall>w \<in> set whitespace. hd w \<noteq> hd s" and "\<forall>w \<in> set whitespace. last w \<noteq> last s" and "s \<noteq> []"
  shows "trim s = s"
proof -
  obtain c s' where s: "s = c # s'" using assms(3) by (cases s) auto
  obtain d s'' where r: "rev s = d # s''" using assms(3) by (cases "rev s") auto
  have d: "d = last s" using r by (metis assms(3) hd_rev list.sel(1))
  have 1: "strip_any whitespace s = None"
    using assms(1) s by (simp add: strip_any_hd)
  have 2: "strip_any (map rev whitespace) (rev s) = None"
    using assms(2) by (simp only: r d) (rule strip_any_hd, auto simp: hd_rev)
  show ?thesis
    by (simp add: trim_def trim_with.simps [of whitespace s] 1
        trim_with.simps [of "map rev whitespace" "rev s"] 2)
qed

text \<open>\<^verbatim>\<open>str::eq_ignore_ascii_case\<close>.\<close>

definition to_ascii_lowercase :: "char \<Rightarrow> char" where
  "to_ascii_lowercase c =
     (let n = of_char c :: nat in if 65 \<le> n \<and> n \<le> 90 then char_of (n + 32) else c)"

definition eq_ignore_ascii_case :: "string \<Rightarrow> string \<Rightarrow> bool" where
  "eq_ignore_ascii_case s t \<longleftrightarrow> map to_ascii_lowercase s = map to_ascii_lowercase t"

lemma eq_ignore_ascii_case_refl [simp]: "eq_ignore_ascii_case s s"
  by (simp add: eq_ignore_ascii_case_def)

text \<open>\<^verbatim>\<open>str::contains\<close>, and \<^verbatim>\<open>split_once\<close> at a separator character.\<close>

fun split_once :: "char \<Rightarrow> string \<Rightarrow> (string \<times> string) option" where
  "split_once c [] = None"
| "split_once c (x # xs) =
     (if x = c then Some ([], xs) else map_option (\<lambda>(a, b). (x # a, b)) (split_once c xs))"

lemma split_once_eq_Some: "split_once c s = Some (a, b) \<longleftrightarrow> s = a @ c # b \<and> c \<notin> set a"
proof (induction s arbitrary: a)
  case (Cons x s)
  then show ?case by (cases a) auto
qed simp

lemma split_once_eq_None: "split_once c s = None \<longleftrightarrow> c \<notin> set s"
  by (induction s) auto

section \<open>Integers\<close>

text \<open>
  The unsigned and signed 64-bit ranges; \<^verbatim>\<open>saturating_add\<close> and \<^verbatim>\<open>saturating_sub\<close> on \<^verbatim>\<open>u64\<close> (the
  subtraction of \<^typ>\<open>nat\<close> stops at zero as \<^verbatim>\<open>saturating_sub\<close> does), and the wrap-around of
  \<^verbatim>\<open>i64\<close> arithmetic in a release build.
\<close>

definition u64_max :: nat where
  "u64_max = 18446744073709551615"

definition i64_min :: int where
  "i64_min = - 9223372036854775808"

definition i64_max :: int where
  "i64_max = 9223372036854775807"

definition u64_sat_add :: "nat \<Rightarrow> nat \<Rightarrow> nat" where
  "u64_sat_add a b = min u64_max (a + b)"

definition u64_sat_sub :: "nat \<Rightarrow> nat \<Rightarrow> nat" where
  "u64_sat_sub a b = a - b"

definition i64_sat :: "int \<Rightarrow> int" where
  "i64_sat x = max i64_min (min i64_max x)"

definition wrap_i64 :: "int \<Rightarrow> int" where
  "wrap_i64 x = (x + 2 ^ 63) mod 2 ^ 64 - 2 ^ 63"

definition i64_add :: "int \<Rightarrow> int \<Rightarrow> int" where
  "i64_add a b = wrap_i64 (a + b)"

lemmas int_range_defs = u64_max_def i64_min_def i64_max_def

lemma u64_sat_add_le [simp]: "u64_sat_add a b \<le> u64_max"
  by (simp add: u64_sat_add_def)

lemma u64_sat_add_exact: "u64_sat_add a b < u64_max \<Longrightarrow> u64_sat_add a b = a + b"
  by (simp add: u64_sat_add_def min_def split: if_splits)

lemma wrap_i64_id: "i64_min \<le> x \<Longrightarrow> x \<le> i64_max \<Longrightarrow> wrap_i64 x = x"
  by (simp add: wrap_i64_def int_range_defs)

lemma wrap_i64_range: "i64_min \<le> wrap_i64 x \<and> wrap_i64 x \<le> i64_max"
proof -
  have "0 \<le> (x + 2 ^ 63) mod 2 ^ 64 \<and> (x + 2 ^ 63) mod 2 ^ 64 < (2::int) ^ 64"
    by simp
  then show ?thesis by (simp add: wrap_i64_def int_range_defs)
qed

lemma i64_add_id: "i64_min \<le> a + b \<Longrightarrow> a + b \<le> i64_max \<Longrightarrow> i64_add a b = a + b"
  by (simp add: i64_add_def wrap_i64_id)

text \<open>Decimal printing (\<^verbatim>\<open>to_string\<close>) and parsing (\<^verbatim>\<open>str::parse\<close>) of integers.\<close>

definition digit_char :: "nat \<Rightarrow> char" where
  "digit_char d = char_of (48 + d)"

definition digit_val :: "char \<Rightarrow> nat option" where
  "digit_val c = (let n = of_char c :: nat in if 48 \<le> n \<and> n \<le> 57 then Some (n - 48) else None)"

function nat_to_string :: "nat \<Rightarrow> string" where
  "nat_to_string n =
     (if n < 10 then [digit_char n] else nat_to_string (n div 10) @ [digit_char (n mod 10)])"
  by pat_completeness auto
termination
  by (relation "measure id") auto

declare nat_to_string.simps [simp del]

definition int_to_string :: "int \<Rightarrow> string" where
  "int_to_string i = (if i < 0 then CHR ''-'' # nat_to_string (nat (- i)) else nat_to_string (nat i))"

fun parse_digits :: "nat \<Rightarrow> string \<Rightarrow> nat option" where
  "parse_digits acc [] = Some acc"
| "parse_digits acc (c # cs) =
     (case digit_val c of None \<Rightarrow> None | Some d \<Rightarrow> parse_digits (10 * acc + d) cs)"

definition parse_nat :: "string \<Rightarrow> nat option" where
  "parse_nat s = (if s = [] then None else parse_digits 0 s)"

definition parse_u64 :: "string \<Rightarrow> nat option" where
  "parse_u64 s =
     filter_opt (\<lambda>n. n \<le> u64_max) (parse_nat (case s of c # cs \<Rightarrow> if c = CHR ''+'' then cs else s | [] \<Rightarrow> []))"

definition parse_i64 :: "string \<Rightarrow> int option" where
  "parse_i64 s = filter_opt (\<lambda>i. i64_min \<le> i \<and> i \<le> i64_max)
     (case s of
        [] \<Rightarrow> None
      | c # cs \<Rightarrow>
          if c = CHR ''-'' then map_option (\<lambda>n. - int n) (parse_nat cs)
          else if c = CHR ''+'' then map_option int (parse_nat cs)
          else map_option int (parse_nat s))"

lemma digit_val_digit_char [simp]: "d < 10 \<Longrightarrow> digit_val (digit_char d) = Some d"
  by (simp add: digit_val_def digit_char_def Let_def)

lemma parse_digits_append:
  "parse_digits acc (s @ t) = (case parse_digits acc s of None \<Rightarrow> None | Some a \<Rightarrow> parse_digits a t)"
  by (induction s arbitrary: acc) (auto split: option.splits)

lemma nat_to_string_nonempty [simp]: "nat_to_string n \<noteq> []"
  by (subst nat_to_string.simps) simp

lemma parse_digits_nat_to_string: "parse_digits 0 (nat_to_string n) = Some n"
proof (induction n rule: nat_to_string.induct)
  case (1 n)
  then show ?case
    by (cases "n < 10") (simp_all add: nat_to_string.simps [of n] parse_digits_append)
qed

lemma parse_nat_nat_to_string [simp]: "parse_nat (nat_to_string n) = Some n"
  by (simp add: parse_nat_def parse_digits_nat_to_string)

lemma hd_nat_to_string: "\<exists>d < 10. hd (nat_to_string n) = digit_char d"
proof (induction n rule: nat_to_string.induct)
  case (1 n)
  then show ?case
    by (cases "n < 10") (auto simp: nat_to_string.simps [of n])
qed

lemma digit_char_not_sign:
  assumes "d < 10"
  shows "digit_char d \<noteq> CHR ''-''" and "digit_char d \<noteq> CHR ''+''"
proof -
  have "digit_val CHR ''-'' = None" and "digit_val CHR ''+'' = None"
    by (simp_all add: digit_val_def Let_def)
  then show "digit_char d \<noteq> CHR ''-''" and "digit_char d \<noteq> CHR ''+''"
    using digit_val_digit_char [OF assms] by auto
qed

lemma parse_u64_nat_to_string: "n \<le> u64_max \<Longrightarrow> parse_u64 (nat_to_string n) = Some n"
proof -
  assume n: "n \<le> u64_max"
  obtain c cs where s: "nat_to_string n = c # cs" by (cases "nat_to_string n") auto
  obtain d where "d < 10" and "c = digit_char d" using hd_nat_to_string [of n] s by auto
  then have "c \<noteq> CHR ''+''" by (simp add: digit_char_not_sign)
  then show ?thesis
    using n parse_nat_nat_to_string [of n] by (simp add: parse_u64_def s)
qed

lemma parse_i64_int_to_string:
  assumes "i64_min \<le> i" and "i \<le> i64_max"
  shows "parse_i64 (int_to_string i) = Some i"
proof (cases "i < 0")
  case True
  then show ?thesis
    using assms by (simp add: parse_i64_def int_to_string_def)
next
  case False
  obtain c cs where s: "nat_to_string (nat i) = c # cs" by (cases "nat_to_string (nat i)") auto
  obtain d where "d < 10" and "c = digit_char d" using hd_nat_to_string [of "nat i"] s by auto
  then have "c \<noteq> CHR ''+''" and "c \<noteq> CHR ''-''" by (simp_all add: digit_char_not_sign)
  then show ?thesis
    using False assms parse_nat_nat_to_string [of "nat i"]
    by (simp add: parse_i64_def int_to_string_def s)
qed

lemma int_to_string_inj:
  assumes "i64_min \<le> i" "i \<le> i64_max" "i64_min \<le> j" "j \<le> i64_max"
  shows "int_to_string i = int_to_string j \<longleftrightarrow> i = j"
  using parse_i64_int_to_string [OF assms(1,2)] parse_i64_int_to_string [OF assms(3,4)]
  by (metis option.inject)

end
