(* ===== verification/Resources.thy ===== *)
theory Resources
  imports Prelude
begin

text \<open>
  The API types of \<^verbatim>\<open>tugboat-resources\<close>: the protobuf messages under \<^verbatim>\<open>proto/\<close> as records, one field
  per message field, with the field names prefixed by an abbreviation of the message.  A message
  field and a field marked \<^verbatim>\<open>optional\<close> is an \<^verbatim>\<open>Option\<close> in the generated Rust code and an \<open>option\<close>
  here; a repeated field is a list and a \<^verbatim>\<open>map<string, string>\<close> an association list.
  The \<^verbatim>\<open>type_meta\<close> of a resource is a constant of its kind and is left out of the resource records; a
  message with one field is that field.
\<close>

section \<open>meta/v1\<close>

record time =
  t_seconds :: int
  t_nanos :: int

record owner_reference =
  or_api_version :: string
  or_kind :: string
  or_name :: string
  or_uid :: string
  or_controller :: "bool option"

record object_meta =
  om_name :: "string option"
  om_generate_name :: "string option"
  om_namespace :: "string option"
  om_uid :: "string option"
  om_resource_version :: "string option"
  om_generation :: "int option"
  om_creation_timestamp :: "time option"
  om_deletion_timestamp :: "time option"
  om_labels :: labels
  om_annotations :: labels
  om_owner_references :: "owner_reference list"
  om_finalizers :: "string list"

definition object_meta_default :: object_meta where
  "object_meta_default = \<lparr>om_name = None, om_generate_name = None, om_namespace = None, om_uid = None,
     om_resource_version = None, om_generation = None, om_creation_timestamp = None,
     om_deletion_timestamp = None, om_labels = [], om_annotations = [], om_owner_references = [],
     om_finalizers = []\<rparr>"

record type_meta =
  tm_kind :: "string option"
  tm_api_version :: "string option"

text \<open>The requirement of a label selector and of a node selector have the same three fields.\<close>

record selector_requirement =
  sr_key :: string
  sr_operator :: string
  sr_values :: "string list"

record label_selector =
  ls_match_labels :: labels
  ls_match_expressions :: "selector_requirement list"

section \<open>core/v1\<close>

record node_selector_term =
  nst_match_expressions :: "selector_requirement list"
  nst_match_fields :: "selector_requirement list"

record node_selector =
  ns_terms :: "node_selector_term list"

record topology_selector_label_requirement =
  tsr_key :: string
  tsr_values :: "string list"

record topology_selector_term =
  tst_match_label_expressions :: "topology_selector_label_requirement list"

record preferred_scheduling_term =
  pst_weight :: int
  pst_preference :: "node_selector_term option"

record node_affinity =
  na_required :: "node_selector option"
  na_preferred :: "preferred_scheduling_term list"

record ship_affinity_term =
  sat_label_selector :: "label_selector option"
  sat_namespaces :: "string list"
  sat_topology_key :: string

record weighted_ship_affinity_term =
  wsat_weight :: int
  wsat_term :: "ship_affinity_term option"

text \<open>\<^verbatim>\<open>ShipAffinity\<close> and \<^verbatim>\<open>ShipAntiAffinity\<close> have the same fields.\<close>

record ship_affinity =
  sa_required :: "ship_affinity_term list"
  sa_preferred :: "weighted_ship_affinity_term list"

record affinity =
  af_node_affinity :: "node_affinity option"
  af_ship_affinity :: "ship_affinity option"
  af_ship_anti_affinity :: "ship_affinity option"

record topology_spread_constraint =
  tsc_max_skew :: int
  tsc_topology_key :: string
  tsc_when_unsatisfiable :: string
  tsc_label_selector :: "label_selector option"

record toleration =
  tol_key :: "string option"
  tol_operator :: string
  tol_value :: "string option"
  tol_effect :: string
  tol_seconds :: "int option"

record ship_network_class_reference =
  sncr_kind :: string
  sncr_name :: string
  sncr_api_group :: string

record key_to_path =
  ktp_key :: string
  ktp_path :: string

record config_map_volume_source =
  cmv_name :: string
  cmv_items :: "key_to_path list"
  cmv_default_mode :: "int option"
  cmv_optional :: "bool option"

record secret_volume_source =
  sev_secret_name :: string
  sev_items :: "key_to_path list"
  sev_default_mode :: "int option"
  sev_optional :: "bool option"

record service_account_token_projection =
  satp_audience :: "string option"
  satp_expiration_seconds :: "int option"
  satp_path :: string

record config_map_projection =
  cmp_name :: string
  cmp_items :: "key_to_path list"
  cmp_optional :: "bool option"

record secret_projection =
  sep_name :: string
  sep_items :: "key_to_path list"
  sep_optional :: "bool option"

record volume_projection =
  vp_service_account_token :: "service_account_token_projection option"
  vp_config_map :: "config_map_projection option"
  vp_secret :: "secret_projection option"

record projected_volume_source =
  pvs_sources :: "volume_projection list"
  pvs_default_mode :: "int option"

text \<open>A \<^verbatim>\<open>PersistentVolumeClaimVolumeSource\<close> is its only field, the name of the claim.\<close>

record ship_volume =
  sv_name :: string
  sv_persistent_volume_claim :: "string option"
  sv_config_map :: "config_map_volume_source option"
  sv_secret :: "secret_volume_source option"
  sv_projected :: "projected_volume_source option"

record ship_spec =
  ss_image :: string
  ss_ship_class :: string
  ss_node_name :: "string option"
  ss_network_class_ref :: "ship_network_class_reference list"
  ss_uefi :: "bool option"
  ss_tolerations :: "toleration list"
  ss_scheduler_name :: "string option"
  ss_volume_claim_ref :: "string list"
  ss_volumes :: "ship_volume list"
  ss_target_node_name :: "string option"
  ss_runtime_class :: "string option"
  ss_service_account_name :: "string option"
  ss_automount_service_account_token :: "bool option"
  ss_affinity :: "affinity option"
  ss_topology_spread_constraints :: "topology_spread_constraint list"
  ss_restore_from_snapshot :: "string option"

definition ship_spec_default :: ship_spec where
  "ship_spec_default = \<lparr>ss_image = [], ss_ship_class = [], ss_node_name = None, ss_network_class_ref = [],
     ss_uefi = None, ss_tolerations = [], ss_scheduler_name = None, ss_volume_claim_ref = [],
     ss_volumes = [], ss_target_node_name = None, ss_runtime_class = None,
     ss_service_account_name = None, ss_automount_service_account_token = None, ss_affinity = None,
     ss_topology_spread_constraints = [], ss_restore_from_snapshot = None\<rparr>"

record ship_condition =
  sc_status :: string
  sc_message :: string
  sc_timestamp :: "time option"

record ship_ip =
  si_nic :: string
  si_ipv4 :: "string option"
  si_ipv6 :: "string option"

record ship_migration_status =
  sms_phase :: string
  sms_source_node_name :: "string option"
  sms_target_node_name :: "string option"
  sms_target_address :: "string option"
  sms_target_port :: "nat option"
  sms_message :: string
  sms_timestamp :: "time option"
  sms_bytes_transferred :: "nat option"
  sms_bytes_remaining :: "nat option"

record ship_actual_allocation =
  saa_cpu_cores :: "nat option"
  saa_memory_size :: "string option"
  saa_nic_ids :: "string list"
  saa_volume_ids :: "string list"

record ship_status =
  st_conditions :: "ship_condition list"
  st_ips :: "ship_ip list"
  st_migration :: "ship_migration_status option"
  st_actual_allocation :: "ship_actual_allocation option"

definition ship_status_default :: ship_status where
  "ship_status_default =
     \<lparr>st_conditions = [], st_ips = [], st_migration = None, st_actual_allocation = None\<rparr>"

record ship =
  ship_meta :: "object_meta option"
  ship_spec :: "ship_spec option"
  ship_status :: "ship_status option"

record migration_spec =
  ms_max_bandwidth_bytes_per_sec :: "nat option"
  ms_downtime_limit_ms :: "nat option"
  ms_xbzrle_cache_size_bytes :: "nat option"
  ms_postcopy_enabled :: "bool option"

record cpu_spec =
  cpu_architecture :: string
  cpu_cores :: nat

record ship_class_spec =
  scs_cpu :: "cpu_spec option"
  scs_memory :: "string option"
  scs_migration :: "migration_spec option"

record ship_class =
  scl_meta :: "object_meta option"
  scl_spec :: "ship_class_spec option"

record taint =
  ta_key :: string
  ta_value :: string
  ta_effect :: string

record node_overcommit =
  no_cpu_ratio :: string
  no_memory_ratio :: string

record node_resource =
  nr_cpu :: nat
  nr_memory :: nat

record node_spec =
  nsp_overcommit :: "node_overcommit option"
  nsp_ips :: "string list"
  nsp_resource :: "node_resource option"
  nsp_taints :: "taint list"
  nsp_unschedulable :: "bool option"

record node_condition =
  nc_type :: string
  nc_status :: string
  nc_message :: string
  nc_timestamp :: "time option"

record node_cni_plugin_status =
  ncp_name :: string
  ncp_ready :: "bool option"
  ncp_message :: string

record node_image_status =
  nis_image :: string
  nis_size_bytes :: "int option"

record node_status =
  nst_conditions :: "node_condition list"
  nst_cni_plugins :: "node_cni_plugin_status list"
  nst_images :: "node_image_status list"

record node =
  node_meta :: "object_meta option"
  node_spec :: "node_spec option"
  node_status :: "node_status option"

record flannel_network_class =
  fl_subnet_file :: string
  fl_data_dir :: string
  fl_hairpin_mode :: "bool option"
  fl_default_gateway :: "bool option"
  fl_port_mappings :: "bool option"

record network_class_spec =
  ncs_subnet :: string
  ncs_routes :: "string list"
  ncs_internet_access :: "bool option"
  ncs_cluster_network :: "bool option"
  ncs_cni_plugin :: string
  ncs_flannel :: "flannel_network_class option"

record network_class_node_plugin_status =
  nnp_node_name :: string
  nnp_plugins :: "node_cni_plugin_status list"

record network_class_status =
  ncst_conditions :: "node_condition list"
  ncst_ready_nodes :: "string list"
  ncst_nodes_status :: "network_class_node_plugin_status list"

text \<open>\<^verbatim>\<open>NetworkClass\<close> and \<^verbatim>\<open>ClusterNetworkClass\<close> have the same fields.\<close>

record network_class =
  nwc_meta :: "object_meta option"
  nwc_spec :: "network_class_spec option"
  nwc_status :: "network_class_status option"

record hotplug_capabilities =
  hc_add :: bool
  hc_remove :: bool

record runtime_hotplug =
  rh_cpu :: "hotplug_capabilities option"
  rh_memory :: "hotplug_capabilities option"
  rh_nic :: "hotplug_capabilities option"
  rh_storage :: "hotplug_capabilities option"

record runtime_class_spec =
  rcs_live_migration :: bool
  rcs_hotplug :: "runtime_hotplug option"

record runtime_class =
  rc_meta :: "object_meta option"
  rc_spec :: "runtime_class_spec option"

record typed_local_object_reference =
  tlor_api_group :: string
  tlor_kind :: string
  tlor_name :: string

record pvc_spec =
  pvcs_access_modes :: "string list"
  pvcs_storage_class_name :: "string option"
  pvcs_volume_mode :: "string option"
  pvcs_volume_name :: "string option"
  pvcs_requested_capacity_bytes :: "int option"
  pvcs_data_source :: "typed_local_object_reference option"

text \<open>The conditions of claims and of volumes have the same three fields.\<close>

record volume_condition =
  vc_status :: string
  vc_message :: string
  vc_timestamp :: "time option"

record pvc_status =
  pvcst_conditions :: "volume_condition list"
  pvcst_phase :: "string option"
  pvcst_capacity_bytes :: "int option"
  pvcst_resize_pending :: "bool option"

record persistent_volume_claim =
  pvc_meta :: "object_meta option"
  pvc_spec :: "pvc_spec option"
  pvc_status :: "pvc_status option"

record secret_reference =
  sref_name :: string
  sref_namespace :: string

record csi_persistent_volume_source =
  csi_driver :: string
  csi_controller_expand_secret_ref :: "secret_reference option"
  csi_controller_publish_secret_ref :: "secret_reference option"
  csi_node_expand_secret_ref :: "secret_reference option"
  csi_node_publish_secret_ref :: "secret_reference option"
  csi_node_stage_secret_ref :: "secret_reference option"
  csi_read_only :: bool
  csi_volume_handle :: string
  csi_fs_type :: "string option"
  csi_volume_attributes :: labels
  csi_mount_options :: "string list"
  csi_controller_create_secret_ref :: "secret_reference option"

record pvc_reference =
  pvcr_name :: string
  pvcr_namespace :: string

record pv_spec =
  pvs_access_modes :: "string list"
  pvs_reclaim_policy :: "string option"
  pvs_storage_class_name :: "string option"
  pvs_volume_mode :: "string option"
  pvs_csi :: "csi_persistent_volume_source option"
  pvs_claim_ref :: "pvc_reference option"
  pvs_capacity_bytes :: "int option"
  pvs_node_affinity :: "node_selector option option"

record pv_status =
  pvst_conditions :: "volume_condition list"
  pvst_phase :: "string option"
  pvst_capacity_bytes :: "int option"
  pvst_node_expansion_required :: "bool option"
  pvst_attached_node :: "string option"

record persistent_volume =
  pv_meta :: "object_meta option"
  pv_spec :: "pv_spec option"
  pv_status :: "pv_status option"

record storage_class_spec =
  scs_provisioner :: string
  scs_parameters :: labels
  scs_reclaim_policy :: "string option"
  scs_fs_type :: "string option"
  scs_allow_volume_expansion :: "bool option"
  scs_controller_expand_secret_ref :: "secret_reference option"
  scs_controller_publish_secret_ref :: "secret_reference option"
  scs_node_expand_secret_ref :: "secret_reference option"
  scs_node_publish_secret_ref :: "secret_reference option"
  scs_node_stage_secret_ref :: "secret_reference option"
  scs_controller_create_secret_ref :: "secret_reference option"
  scs_mount_options :: "string list"
  scs_volume_binding_mode :: "string option"
  scs_allowed_topologies :: "topology_selector_term list"

record storage_class =
  stc_meta :: "object_meta option"
  stc_spec :: "storage_class_spec option"

section \<open>coordination/v1\<close>

record lease_spec =
  le_acquire_time :: "time option"
  le_holder_identity :: string
  le_lease_duration_seconds :: int
  le_lease_transitions :: int
  le_preferred_holder :: string
  le_renew_time :: "time option"
  le_strategy :: string

record lease =
  le_meta :: "object_meta option"
  le_spec :: "lease_spec option"

end
