(* ===== verification/Object_Meta.thy ===== *)
theory Object_Meta
  imports Resources "HOL-Library.List_Lexorder" "HOL-Library.Char_ord"
begin

text \<open>
  The default methods of the trait \<^verbatim>\<open>ObjectMetaResource\<close> (\<^verbatim>\<open>tugboat-resources/src/lib.rs\<close>), as
  functions of the resource's metadata, which is the only state they touch; the order on resource
  versions (\<^verbatim>\<open>resource_version.rs\<close>); and the test for an active migration.
\<close>

section \<open>Names, finalizers and the deletion mark\<close>

definition meta_name :: "object_meta option \<Rightarrow> string option" where
  "meta_name m = Option.bind m om_name"

definition meta_namespace :: "object_meta option \<Rightarrow> string option" where
  "meta_namespace m = Option.bind m om_namespace"

definition meta_labels :: "object_meta option \<Rightarrow> labels" where
  "meta_labels m = (case m of None \<Rightarrow> [] | Some x \<Rightarrow> om_labels x)"

definition finalizers :: "object_meta option \<Rightarrow> string list" where
  "finalizers m = (case m of None \<Rightarrow> [] | Some x \<Rightarrow> om_finalizers x)"

definition has_finalizers :: "object_meta option \<Rightarrow> bool" where
  "has_finalizers m \<longleftrightarrow> finalizers m \<noteq> []"

definition has_finalizer :: "string \<Rightarrow> object_meta option \<Rightarrow> bool" where
  "has_finalizer f m \<longleftrightarrow> f \<in> set (finalizers m)"

definition add_finalizer :: "string \<Rightarrow> object_meta option \<Rightarrow> bool \<times> object_meta option" where
  "add_finalizer f m =
     (let x = (case m of None \<Rightarrow> object_meta_default | Some x \<Rightarrow> x)
      in if f \<in> set (om_finalizers x) then (False, Some x)
         else (True, Some (x\<lparr>om_finalizers := om_finalizers x @ [f]\<rparr>)))"

definition remove_finalizer :: "string \<Rightarrow> object_meta option \<Rightarrow> bool \<times> object_meta option" where
  "remove_finalizer f m = (case m of
     None \<Rightarrow> (False, None)
   | Some x \<Rightarrow>
       let kept = filter (\<lambda>i. i \<noteq> f) (om_finalizers x)
       in (length (om_finalizers x) \<noteq> length kept, Some (x\<lparr>om_finalizers := kept\<rparr>)))"

definition deletion_timestamp :: "object_meta option \<Rightarrow> time option" where
  "deletion_timestamp m = Option.bind m om_deletion_timestamp"

definition mark_for_deletion :: "time \<Rightarrow> object_meta option \<Rightarrow> bool \<times> object_meta option" where
  "mark_for_deletion t m =
     (let x = (case m of None \<Rightarrow> object_meta_default | Some x \<Rightarrow> x)
      in if om_deletion_timestamp x \<noteq> None then (False, Some x)
         else (True, Some (x\<lparr>om_deletion_timestamp := Some t\<rparr>)))"

lemmas meta_access_defs = meta_name_def meta_namespace_def meta_labels_def

lemma meta_access_simps [simp]:
  "meta_name None = None" "meta_name (Some x) = om_name x"
  "meta_namespace None = None" "meta_namespace (Some x) = om_namespace x"
  "meta_labels None = []" "meta_labels (Some x) = om_labels x"
  by (simp_all add: meta_access_defs)

lemma finalizers_add:
  "finalizers (snd (add_finalizer f m)) =
     (if has_finalizer f m then finalizers m else finalizers m @ [f])"
  by (auto simp: add_finalizer_def has_finalizer_def finalizers_def object_meta_default_def Let_def
      split: option.splits)

lemma finalizers_remove: "finalizers (snd (remove_finalizer f m)) = filter (\<lambda>i. i \<noteq> f) (finalizers m)"
  by (cases m) (simp_all add: remove_finalizer_def finalizers_def Let_def)

lemma add_finalizer_changed: "fst (add_finalizer f m) \<longleftrightarrow> \<not> has_finalizer f m"
  by (auto simp: add_finalizer_def has_finalizer_def finalizers_def object_meta_default_def Let_def
      split: option.splits)

lemma remove_finalizer_changed: "fst (remove_finalizer f m) \<longleftrightarrow> has_finalizer f m"
proof -
  have "length xs \<noteq> length (filter (\<lambda>i. i \<noteq> f) xs) \<longleftrightarrow> f \<in> set xs" for xs
  proof (cases "f \<in> set xs")
    case True
    then have "length (filter (\<lambda>i. i \<noteq> f) xs) < length xs" by (rule length_filter_less) simp
    then show ?thesis using True by simp
  next
    case False
    then have "filter (\<lambda>i. i \<noteq> f) xs = xs" by (intro filter_True) auto
    then show ?thesis using False by simp
  qed
  then show ?thesis
    by (cases m) (simp_all add: remove_finalizer_def has_finalizer_def finalizers_def Let_def)
qed

text \<open>The deletion mark is set once and never moved.\<close>

lemma mark_for_deletion_timestamp:
  "deletion_timestamp (snd (mark_for_deletion t m)) =
     (case deletion_timestamp m of None \<Rightarrow> Some t | Some t' \<Rightarrow> Some t')"
  by (auto simp: mark_for_deletion_def deletion_timestamp_def object_meta_default_def Let_def
      split: option.splits)

lemma mark_for_deletion_again:
  "mark_for_deletion t' (snd (mark_for_deletion t m)) = (False, snd (mark_for_deletion t m))"
  by (auto simp: mark_for_deletion_def Let_def split: option.splits)

section \<open>Resource versions\<close>

text \<open>\<^verbatim>\<open>ResourceVersionRef\<close>: a shorter string is smaller; equal lengths compare bytewise.\<close>

datatype ordering = Less | Equal | Greater

datatype resource_version_ref = ResourceVersionRef string

fun rv_cmp :: "resource_version_ref \<Rightarrow> resource_version_ref \<Rightarrow> ordering" where
  "rv_cmp (ResourceVersionRef a) (ResourceVersionRef b) =
     (if length a = length b then if a < b then Less else if a = b then Equal else Greater
      else if length a < length b then Less else Greater)"

instantiation resource_version_ref :: linorder
begin

definition less_eq_resource_version_ref :: "resource_version_ref \<Rightarrow> resource_version_ref \<Rightarrow> bool" where
  "less_eq_resource_version_ref a b \<longleftrightarrow> rv_cmp a b \<noteq> Greater"

definition less_resource_version_ref :: "resource_version_ref \<Rightarrow> resource_version_ref \<Rightarrow> bool" where
  "less_resource_version_ref a b \<longleftrightarrow> rv_cmp a b = Less"

instance
proof
  fix x y z :: resource_version_ref
  show "x < y \<longleftrightarrow> x \<le> y \<and> \<not> y \<le> x"
    by (cases x; cases y) (auto simp: less_eq_resource_version_ref_def less_resource_version_ref_def)
  show "x \<le> x"
    by (cases x) (simp add: less_eq_resource_version_ref_def)
  show "x \<le> y \<Longrightarrow> y \<le> z \<Longrightarrow> x \<le> z"
    by (cases x; cases y; cases z)
      (auto simp: less_eq_resource_version_ref_def split: if_splits)
  show "x \<le> y \<Longrightarrow> y \<le> x \<Longrightarrow> x = y"
    by (cases x; cases y) (auto simp: less_eq_resource_version_ref_def split: if_splits)
  show "x \<le> y \<or> y \<le> x"
    by (cases x; cases y) (auto simp: less_eq_resource_version_ref_def)
qed

end

text \<open>On decimal numbers the order is the numeric one.\<close>

lemma length_nat_to_string_mono: "a \<le> b \<Longrightarrow> length (nat_to_string a) \<le> length (nat_to_string b)"
proof (induction b arbitrary: a rule: nat_to_string.induct)
  case (1 b)
  show ?case
  proof (cases "a < 10")
    case True
    have "1 \<le> length (nat_to_string b)" by (cases "nat_to_string b") auto
    then show ?thesis using True by (simp add: nat_to_string.simps [of a])
  next
    case False
    then have "length (nat_to_string (a div 10)) \<le> length (nat_to_string (b div 10))"
      using 1 by (intro "1.IH") (simp_all add: div_le_mono)
    then show ?thesis
      using False 1(2) by (simp add: nat_to_string.simps [of a] nat_to_string.simps [of b])
  qed
qed

lemma digit_char_less: "d < e \<Longrightarrow> e < 10 \<Longrightarrow> digit_char d < digit_char e"
  by (simp add: digit_char_def less_char_def)

lemma lexord_snoc:
  fixes s t :: string
  assumes "length s = length t" and "s < t \<or> (s = t \<and> c < d)"
  shows "s @ [c] < t @ [d]"
  using assms by (induction s t rule: list_induct2) auto

lemma nat_to_string_less:
  "a < b \<Longrightarrow> length (nat_to_string a) = length (nat_to_string b) \<Longrightarrow> nat_to_string a < nat_to_string b"
proof (induction b arbitrary: a rule: nat_to_string.induct)
  case (1 b)
  show ?case
  proof (cases "b < 10")
    case True
    then show ?thesis
      using 1(2) by (simp add: nat_to_string.simps [of a] nat_to_string.simps [of b] digit_char_less)
  next
    case b: False
    have a: "\<not> a < 10"
    proof
      assume "a < 10"
      then have "length (nat_to_string b) = 1" using 1(3) by (simp add: nat_to_string.simps [of a])
      then show False using b by (simp add: nat_to_string.simps [of b])
    qed
    have len: "length (nat_to_string (a div 10)) = length (nat_to_string (b div 10))"
      using 1(3) a b by (simp add: nat_to_string.simps [of a] nat_to_string.simps [of b])
    have "a div 10 \<le> b div 10" using 1(2) by (simp add: div_le_mono)
    then consider "a div 10 < b div 10" | "a div 10 = b div 10" "a mod 10 < b mod 10"
      using 1(2) by (metis div_mult_mod_eq le_neq_implies_less nat_add_left_cancel_less)
    then show ?thesis
    proof cases
      case 1
      then have "nat_to_string (a div 10) < nat_to_string (b div 10)"
        using "1.IH" b len by blast
      then show ?thesis
        using a b len by (simp add: nat_to_string.simps [of a] nat_to_string.simps [of b] lexord_snoc)
    next
      case 2
      then show ?thesis
        using a b by (simp add: nat_to_string.simps [of a] nat_to_string.simps [of b] lexord_snoc digit_char_less)
    qed
  qed
qed

lemma nat_to_string_order: "ResourceVersionRef (nat_to_string a) < ResourceVersionRef (nat_to_string b) \<longleftrightarrow> a < b"
proof -
  have less: "ResourceVersionRef (nat_to_string a) < ResourceVersionRef (nat_to_string b)" if "a < b" for a b
    using that length_nat_to_string_mono [of a b] nat_to_string_less [of a b]
    by (auto simp: less_resource_version_ref_def)
  show ?thesis using less [of a b] less [of b a] by (metis less_asym linorder_cases)
qed

text \<open>
  Resource versions are decimal revisions compared as strings; the comparison is the numeric one,
  so an object's newer revision is the greater version.
\<close>

theorem resource_version_order:
  "ResourceVersionRef (nat_to_string a) < ResourceVersionRef (nat_to_string b) \<longleftrightarrow> a < b"
  by (rule nat_to_string_order)

section \<open>Migrations\<close>

definition has_active_migration :: "ship \<Rightarrow> bool" where
  "has_active_migration s \<longleftrightarrow>
     map_option sms_phase (Option.bind (ship_status s) st_migration) \<in> {Some ''Pending'', Some ''Ready'', Some ''Migrating''}"

end
