(* ===== verification/Selectors.thy ===== *)
theory Selectors
  imports Object_Meta
begin

text \<open>
  Label and node selectors as the scheduler evaluates them
  (\<^verbatim>\<open>tugboat-scheduler/src/plugins/selectors.rs\<close>).
\<close>

definition compare_i64 :: "string option \<Rightarrow> string option \<Rightarrow> (int \<Rightarrow> int \<Rightarrow> bool) \<Rightarrow> bool" where
  "compare_i64 v t f = (case (v, t) of
     (Some a, Some b) \<Rightarrow>
       (case (parse_i64 a, parse_i64 b) of (Some x, Some y) \<Rightarrow> f x y | _ \<Rightarrow> False)
   | _ \<Rightarrow> False)"

definition list_first :: "'a list \<Rightarrow> 'a option" where
  "list_first xs = (case xs of [] \<Rightarrow> None | x # _ \<Rightarrow> Some x)"

definition node_selector_requirement_matches :: "selector_requirement \<Rightarrow> labels \<Rightarrow> bool" where
  "node_selector_requirement_matches r ls =
     (let v = map_of ls (sr_key r) in
      if sr_operator r = ''In'' then is_some_and (\<lambda>x. x \<in> set (sr_values r)) v
      else if sr_operator r = ''NotIn'' then is_none_or (\<lambda>x. x \<notin> set (sr_values r)) v
      else if sr_operator r = ''Exists'' then v \<noteq> None
      else if sr_operator r = ''DoesNotExist'' then v = None
      else if sr_operator r = ''Gt'' then compare_i64 v (list_first (sr_values r)) (\<lambda>a b. a > b)
      else if sr_operator r = ''Lt'' then compare_i64 v (list_first (sr_values r)) (\<lambda>a b. a < b)
      else False)"

definition node_selector_term_matches :: "node_selector_term \<Rightarrow> labels \<Rightarrow> bool" where
  "node_selector_term_matches t ls \<longleftrightarrow>
     (\<forall>r \<in> set (nst_match_expressions t @ nst_match_fields t). node_selector_requirement_matches r ls)"

definition node_selector_matches :: "node_selector \<Rightarrow> labels \<Rightarrow> bool" where
  "node_selector_matches s ls \<longleftrightarrow>
     ns_terms s \<noteq> [] \<and> (\<exists>t \<in> set (ns_terms s). node_selector_term_matches t ls)"

definition first_unsatisfied_node_selector_key :: "node_selector \<Rightarrow> labels \<Rightarrow> string option" where
  "first_unsatisfied_node_selector_key s ls =
     (if node_selector_matches s ls then None
      else map_option sr_key
        (find (\<lambda>r. \<not> node_selector_requirement_matches r ls)
           (concat (map (\<lambda>t. nst_match_expressions t @ nst_match_fields t) (ns_terms s)))))"

definition label_selector_requirement_matches :: "selector_requirement \<Rightarrow> labels \<Rightarrow> bool" where
  "label_selector_requirement_matches r ls =
     (let v = map_of ls (sr_key r) in
      if sr_operator r = ''In'' then is_some_and (\<lambda>x. x \<in> set (sr_values r)) v
      else if sr_operator r = ''NotIn'' then is_none_or (\<lambda>x. x \<notin> set (sr_values r)) v
      else if sr_operator r = ''Exists'' then v \<noteq> None
      else if sr_operator r = ''DoesNotExist'' then v = None
      else False)"

definition label_selector_matches :: "label_selector option \<Rightarrow> labels \<Rightarrow> bool" where
  "label_selector_matches s ls = (case s of
     None \<Rightarrow> True
   | Some x \<Rightarrow>
       (\<forall>(k, v) \<in> set (ls_match_labels x). map_of ls k = Some v) \<and>
       (\<forall>r \<in> set (ls_match_expressions x). label_selector_requirement_matches r ls))"

definition topology_selector_term_matches :: "topology_selector_term \<Rightarrow> labels \<Rightarrow> bool" where
  "topology_selector_term_matches t ls \<longleftrightarrow>
     (\<forall>r \<in> set (tst_match_label_expressions t).
        is_some_and (\<lambda>v. v \<in> set (tsr_values r)) (map_of ls (tsr_key r)))"

definition topology_selector_terms_match :: "topology_selector_term list \<Rightarrow> labels \<Rightarrow> bool" where
  "topology_selector_terms_match ts ls \<longleftrightarrow>
     ts = [] \<or> (\<exists>t \<in> set ts. topology_selector_term_matches t ls)"

lemmas selector_defs = compare_i64_def list_first_def node_selector_requirement_matches_def
  node_selector_term_matches_def node_selector_matches_def label_selector_requirement_matches_def
  label_selector_matches_def topology_selector_term_matches_def topology_selector_terms_match_def

section \<open>Lemmas\<close>

text \<open>\<^verbatim>\<open>In\<close> and \<^verbatim>\<open>NotIn\<close>, \<^verbatim>\<open>Exists\<close> and \<^verbatim>\<open>DoesNotExist\<close> are complementary.\<close>

lemma node_selector_operator_complement:
  "node_selector_requirement_matches (r\<lparr>sr_operator := ''NotIn''\<rparr>) ls \<longleftrightarrow>
     \<not> node_selector_requirement_matches (r\<lparr>sr_operator := ''In''\<rparr>) ls"
  "node_selector_requirement_matches (r\<lparr>sr_operator := ''DoesNotExist''\<rparr>) ls \<longleftrightarrow>
     \<not> node_selector_requirement_matches (r\<lparr>sr_operator := ''Exists''\<rparr>) ls"
  by (auto simp: node_selector_requirement_matches_def is_some_and_iff is_none_or_iff)

text \<open>A selector that does not match and has a term names the key of an unsatisfied requirement.\<close>

lemma unsatisfied_key_of_some_term:
  assumes "first_unsatisfied_node_selector_key s ls = Some k"
  shows "\<exists>t \<in> set (ns_terms s). \<exists>r \<in> set (nst_match_expressions t @ nst_match_fields t).
           sr_key r = k \<and> \<not> node_selector_requirement_matches r ls"
  using assms
  by (fastforce simp: first_unsatisfied_node_selector_key_def split: if_splits
      dest!: find_eq_Some_in)

lemma unsatisfied_key_exists:
  assumes "\<not> node_selector_matches s ls" and "ns_terms s \<noteq> []"
  shows "first_unsatisfied_node_selector_key s ls \<noteq> None"
proof -
  obtain t where t: "t \<in> set (ns_terms s)" using assms(2) by (cases "ns_terms s") auto
  then have "\<not> node_selector_term_matches t ls"
    using assms by (auto simp: node_selector_matches_def)
  then obtain r where "r \<in> set (nst_match_expressions t @ nst_match_fields t)"
    and "\<not> node_selector_requirement_matches r ls"
    by (auto simp: node_selector_term_matches_def)
  with t have "find (\<lambda>r. \<not> node_selector_requirement_matches r ls)
      (concat (map (\<lambda>t. nst_match_expressions t @ nst_match_fields t) (ns_terms s))) \<noteq> None"
    by (auto simp: find_eq_None)
  then show ?thesis
    using assms(1) by (simp add: first_unsatisfied_node_selector_key_def)
qed

end
