(* ===== verification/F64.thy ===== *)
theory F64
  imports Prelude Complex_Main
begin

text \<open>
  Rust's \<^verbatim>\<open>f64\<close>: IEEE 754 binary64 with rounding to nearest, ties to even.  A finite value is the
  rational it denotes (the two zeros are one: no modelled code tells them apart), and every
  operation rounds its exact result.  The scheduler uses it to scale node capacity by the
  overcommit ratio, to score nodes and to parse memory sizes.
\<close>

datatype f64 = NaN | Inf bool | Fin rat

section \<open>Rounding\<close>

definition rne :: "rat \<Rightarrow> int" where
  "rne x = (let f = \<lfloor>x\<rfloor>; r = x - of_int f in
     if r < 1 / 2 then f else if 1 / 2 < r then f + 1 else if even f then f else f + 1)"

function bit_length :: "int \<Rightarrow> int" where
  "bit_length n = (if n \<le> 0 then 0 else 1 + bit_length (n div 2))"
  by pat_completeness auto
termination
  by (relation "measure nat") auto

declare bit_length.simps [simp del]

definition expo :: "rat \<Rightarrow> int" where
  "expo q = (let (a, b) = quotient_of q;
                 k = bit_length a - bit_length b
             in if 2 powi k \<le> q then k else k - 1)"

definition ulp_exp :: "rat \<Rightarrow> int" where
  "ulp_exp q = max (- 1074) (expo q - 52)"

definition rnd_pos :: "rat \<Rightarrow> rat" where
  "rnd_pos q = (if q \<le> 0 then 0 else of_int (rne (q / 2 powi ulp_exp q)) * 2 powi ulp_exp q)"

definition to_f64 :: "rat \<Rightarrow> f64" where
  "to_f64 q = (let m = rnd_pos \<bar>q\<bar> in
     if 2 powi 1024 \<le> m then Inf (q < 0) else Fin (if q < 0 then - m else m))"

lemma rne_floor: "\<lfloor>x\<rfloor> \<le> rne x" "rne x \<le> \<lfloor>x\<rfloor> + 1"
  by (simp_all add: rne_def Let_def)

lemma rne_of_int [simp]: "rne (of_int i) = i"
  by (simp add: rne_def)

lemma rne_mono: "x \<le> y \<Longrightarrow> rne x \<le> rne y"
proof -
  assume le: "x \<le> y"
  then have "\<lfloor>x\<rfloor> \<le> \<lfloor>y\<rfloor>" by (rule floor_mono)
  then consider "\<lfloor>x\<rfloor> = \<lfloor>y\<rfloor>" | "\<lfloor>x\<rfloor> + 1 \<le> \<lfloor>y\<rfloor>" by linarith
  then show ?thesis
  proof cases
    case 1
    then show ?thesis using le by (auto simp: rne_def Let_def)
  next
    case 2
    then show ?thesis using rne_floor [of x] rne_floor [of y] by linarith
  qed
qed

lemma powi_2_less: "(2::rat) powi m < 2 powi n \<Longrightarrow> m < n"
  by (rule ccontr) (use power_int_increasing [of n m "2::rat"] in simp)

lemma bit_length_nonneg: "0 \<le> bit_length n"
proof (induction n rule: bit_length.induct)
  case (1 n)
  then show ?case by (simp add: bit_length.simps [of n])
qed

lemma bit_length_bounds:
  assumes "0 < a"
  shows "(2::rat) powi (bit_length a - 1) \<le> of_int a \<and> of_int a < (2::rat) powi bit_length a"
  using assms
proof (induction a rule: bit_length.induct)
  case (1 a)
  show ?case
  proof (cases "a = 1")
    case True
    then show ?thesis by (simp add: bit_length.simps [of 1] bit_length.simps [of 0])
  next
    case False
    let ?l = "bit_length (a div 2)"
    have l: "bit_length a = ?l + 1" using 1 by (simp add: bit_length.simps [of a])
    have IH: "(2::rat) powi (?l - 1) \<le> of_int (a div 2)" "of_int (a div 2) < (2::rat) powi ?l"
      using 1 False by auto
    have l0: "0 \<le> ?l" by (rule bit_length_nonneg)
    have lo: "(2::rat) powi ?l \<le> of_int (2 * (a div 2))"
      using IH(1) by (simp add: power_int_diff)
    have pw: "rat_of_int (2 ^ nat ?l) = 2 powi ?l" using l0 by (simp add: power_int_def)
    then have "rat_of_int (a div 2) < of_int (2 ^ nat ?l)" using IH(2) by simp
    then have "a div 2 + 1 \<le> 2 ^ nat ?l" by (simp only: of_int_less_iff)
    then have "rat_of_int (a div 2 + 1) \<le> of_int (2 ^ nat ?l)" by (simp only: of_int_le_iff)
    then have "rat_of_int (a div 2 + 1) \<le> 2 powi ?l" by (simp only: pw)
    then have hi: "rat_of_int (2 * (a div 2) + 2) \<le> 2 powi (?l + 1)"
      by (simp add: power_int_add)
    have "rat_of_int (2 * (a div 2)) \<le> of_int a" and "rat_of_int a < of_int (2 * (a div 2) + 2)"
      by linarith+
    with lo hi show ?thesis unfolding l add_diff_cancel_right' by (intro conjI) linarith+
  qed
qed

lemma expo_bounds:
  assumes "0 < q"
  shows "2 powi expo q \<le> q" and "q < 2 powi (expo q + 1)"
proof -
  obtain a b where ab: "quotient_of q = (a, b)" by fastforce
  have b0: "0 < b" using ab by (rule quotient_of_denom_pos)
  have q: "q = of_int a / of_int b" using ab by (rule quotient_of_div)
  have a0: "0 < a" using assms b0 q by (simp add: zero_less_divide_iff)
  let ?la = "bit_length a" and ?lb = "bit_length b" and ?k = "bit_length a - bit_length b"
  have A: "(2::rat) powi (?la - 1) \<le> of_int a" "of_int a < (2::rat) powi ?la"
    and B: "(2::rat) powi (?lb - 1) \<le> of_int b" "of_int b < (2::rat) powi ?lb"
    using bit_length_bounds [OF a0] bit_length_bounds [OF b0] by auto
  have P: "0 < rat_of_int a" "0 < rat_of_int b" "0 < (2::rat) powi (?lb - 1)" using a0 b0 by simp_all
  have "(2::rat) powi (?k - 1) = 2 powi (?la - 1) / 2 powi ?lb"
    by (simp add: power_int_diff)
  also have "\<dots> \<le> q"
    unfolding q by (rule frac_le [OF less_imp_le [OF P(1)] A(1) P(2) less_imp_le [OF B(2)]])
  finally have lo: "(2::rat) powi (?k - 1) \<le> q" .
  have "q < 2 powi ?la / 2 powi (?lb - 1)"
    unfolding q by (rule frac_less [OF less_imp_le [OF P(1)] A(2) P(3) B(1)])
  also have "\<dots> = (2::rat) powi (?k + 1)"
    by (simp add: power_int_diff power_int_add)
  finally have hi: "q < (2::rat) powi (?k + 1)" .
  have e: "expo q = (if 2 powi ?k \<le> q then ?k else ?k - 1)"
    by (simp add: expo_def ab Let_def)
  show "2 powi expo q \<le> q" using lo by (simp add: e)
  show "q < 2 powi (expo q + 1)" using hi by (auto simp: e)
qed

lemma expo_mono: "0 < p \<Longrightarrow> p \<le> q \<Longrightarrow> expo p \<le> expo q"
proof -
  assume "0 < p" and "p \<le> q"
  then have "(2::rat) powi expo p < 2 powi (expo q + 1)"
    using expo_bounds(1) [of p] expo_bounds(2) [of q] by linarith
  then have "expo p < expo q + 1"
    by (rule powi_2_less)
  then show ?thesis by simp
qed

lemma scaled_less:
  assumes "0 < q"
  shows "q / 2 powi ulp_exp q < 2 ^ 53"
proof -
  have "q < 2 powi (expo q + 1)" using assms by (rule expo_bounds)
  also have "\<dots> \<le> 2 powi (53 + ulp_exp q)"
    by (rule power_int_increasing) (simp_all add: ulp_exp_def)
  also have "\<dots> = 2 ^ 53 * 2 powi ulp_exp q"
    by (simp add: power_int_add)
  finally show ?thesis by (simp add: field_simps)
qed

lemma rnd_pos_nonneg [simp]: "0 \<le> rnd_pos q"
proof (cases "q \<le> 0")
  case False
  then have "0 \<le> \<lfloor>q / 2 powi ulp_exp q\<rfloor>" by simp
  then have "0 \<le> rne (q / 2 powi ulp_exp q)" using rne_floor(1) order_trans by blast
  then show ?thesis by (simp add: rnd_pos_def)
qed (simp add: rnd_pos_def)

lemma rnd_pos_mono:
  assumes "p \<le> q"
  shows "rnd_pos p \<le> rnd_pos q"
proof (cases "p \<le> 0")
  case True
  then have "rnd_pos p = 0" by (simp add: rnd_pos_def)
  then show ?thesis by simp
next
  case False
  then have p: "0 < p" and q: "0 < q" using assms by simp_all
  let ?e = "ulp_exp p" and ?f = "ulp_exp q"
  have ef: "?e \<le> ?f" using expo_mono [OF p assms] by (simp add: ulp_exp_def)
  have P: "rnd_pos p = of_int (rne (p / 2 powi ?e)) * 2 powi ?e"
    and Q: "rnd_pos q = of_int (rne (q / 2 powi ?f)) * 2 powi ?f"
    using p q by (simp_all add: rnd_pos_def)
  show ?thesis
  proof (cases "?e = ?f")
    case True
    have "rne (p / 2 powi ?f) \<le> rne (q / 2 powi ?f)"
      by (rule rne_mono) (simp add: assms divide_right_mono)
    then show ?thesis by (simp add: P Q True mult_right_mono)
  next
    case False
    with ef have lt: "?e < ?f" by simp
    then have f: "?f = expo q - 52" unfolding ulp_exp_def by linarith
    have "rne (p / 2 powi ?e) \<le> rne (of_int (2 ^ 53))"
      by (rule rne_mono) (use scaled_less [OF p] in simp)
    then have "rne (p / 2 powi ?e) \<le> 2 ^ 53" by (simp only: rne_of_int)
    then have "of_int (rne (p / 2 powi ?e)) \<le> (2::rat) ^ 53"
      by (metis of_int_le_iff of_int_numeral of_int_power)
    then have "rnd_pos p \<le> 2 ^ 53 * 2 powi ?e" by (simp add: P mult_right_mono)
    also have "\<dots> = 2 powi (53 + ?e)" by (simp add: power_int_add)
    also have "\<dots> \<le> 2 powi (52 + ?f)" by (rule power_int_increasing) (use lt in simp_all)
    also have "\<dots> = 2 ^ 52 * 2 powi ?f" by (simp add: power_int_add)
    also have "\<dots> \<le> rnd_pos q"
    proof -
      have "2 powi (52 + ?f) \<le> q" using expo_bounds(1) [OF q] by (simp add: f)
      then have "of_int (2 ^ 52) \<le> q / 2 powi ?f" by (simp add: power_int_add field_simps)
      then have "rne (of_int (2 ^ 52)) \<le> rne (q / 2 powi ?f)" by (rule rne_mono)
      then have "2 ^ 52 \<le> rne (q / 2 powi ?f)" by (simp only: rne_of_int)
      then have "(2::rat) ^ 52 \<le> of_int (rne (q / 2 powi ?f))"
        by (metis of_int_le_iff of_int_numeral of_int_power)
      then show ?thesis by (simp add: Q mult_right_mono)
    qed
    finally show ?thesis .
  qed
qed

text \<open>Values with a significand of at most 53 bits are represented exactly.\<close>

lemma rnd_pos_exact:
  assumes q: "q = of_int m * 2 powi k" and "0 < m" and "m < 2 ^ 53" and "- 1074 \<le> k"
  shows "rnd_pos q = q"
proof -
  have q0: "0 < q" using assms by simp
  have "rat_of_int m < of_int (2 ^ 53)" using assms(3) by (simp only: of_int_less_iff)
  then have "q < 2 powi (53 + k)" by (simp add: q power_int_add)
  then have "(2::rat) powi expo q < 2 powi (53 + k)" using expo_bounds(1) [OF q0] by linarith
  then have "expo q < 53 + k" by (rule powi_2_less)
  then have e: "ulp_exp q \<le> k" using assms(4) by (simp add: ulp_exp_def)
  have "q / 2 powi ulp_exp q = of_int m * 2 powi (k - ulp_exp q)" by (simp add: q power_int_diff)
  also have "\<dots> = of_int (m * 2 ^ nat (k - ulp_exp q))" using e by (simp add: power_int_def)
  finally have i: "q / 2 powi ulp_exp q = of_int (m * 2 ^ nat (k - ulp_exp q))" .
  have "rnd_pos q = of_int (rne (q / 2 powi ulp_exp q)) * 2 powi ulp_exp q"
    using q0 by (simp add: rnd_pos_def)
  also have "\<dots> = q / 2 powi ulp_exp q * 2 powi ulp_exp q" by (simp only: i rne_of_int)
  finally show ?thesis by simp
qed

lemma rnd_pos_of_nat_scaled:
  assumes "n \<le> 2 ^ 53"
  shows "rnd_pos (of_nat n * 2 ^ k) = of_nat n * 2 ^ k"
proof -
  consider "n = 0" | "0 < n" "n < 2 ^ 53" | "n = 2 ^ 53" using assms by linarith
  then show ?thesis
  proof cases
    case 1
    then show ?thesis by (simp add: rnd_pos_def)
  next
    case 2
    have "int n < int (2 ^ 53)" using 2(2) by (simp only: of_nat_less_iff)
    then show ?thesis using 2(1) by (intro rnd_pos_exact [of _ "int n" "int k"]) simp_all
  next
    case 3
    then show ?thesis
      by (intro rnd_pos_exact [of _ 1 "int (53 + k)"]) (simp_all add: power_int_add)
  qed
qed

lemma rnd_pos_of_nat: "n \<le> 2 ^ 53 \<Longrightarrow> rnd_pos (of_nat n) = of_nat n"
  using rnd_pos_of_nat_scaled [of n 0] by simp

section \<open>Operations and casts\<close>

definition f64_of_nat :: "nat \<Rightarrow> f64" where
  "f64_of_nat n = to_f64 (of_nat n)"

fun f64_mul :: "f64 \<Rightarrow> f64 \<Rightarrow> f64" where
  "f64_mul NaN _ = NaN"
| "f64_mul _ NaN = NaN"
| "f64_mul (Inf s) (Inf t) = Inf (s \<noteq> t)"
| "f64_mul (Inf s) (Fin q) = (if q = 0 then NaN else Inf (s \<noteq> (q < 0)))"
| "f64_mul (Fin q) (Inf s) = (if q = 0 then NaN else Inf (s \<noteq> (q < 0)))"
| "f64_mul (Fin p) (Fin q) = to_f64 (p * q)"

text \<open>The divisor of every division in the source is a positive finite value.\<close>

fun f64_div :: "f64 \<Rightarrow> f64 \<Rightarrow> f64" where
  "f64_div NaN _ = NaN"
| "f64_div _ NaN = NaN"
| "f64_div (Inf s) (Inf t) = NaN"
| "f64_div (Inf s) (Fin q) = Inf (s \<noteq> (q < 0))"
| "f64_div (Fin q) (Inf s) = Fin 0"
| "f64_div (Fin p) (Fin q) =
     (if q = 0 then if p = 0 then NaN else Inf (p < 0) else to_f64 (p / q))"

fun f64_ge :: "f64 \<Rightarrow> f64 \<Rightarrow> bool" where
  "f64_ge NaN _ = False"
| "f64_ge _ NaN = False"
| "f64_ge (Inf s) (Inf t) = (\<not> s \<or> t)"
| "f64_ge (Inf s) (Fin q) = (\<not> s)"
| "f64_ge (Fin q) (Inf s) = s"
| "f64_ge (Fin p) (Fin q) = (q \<le> p)"

text \<open>\<^verbatim>\<open>as u64\<close> and \<^verbatim>\<open>as i64\<close>: truncation towards zero, saturating, and zero for NaN.\<close>

fun f64_as_u64 :: "f64 \<Rightarrow> nat" where
  "f64_as_u64 NaN = 0"
| "f64_as_u64 (Inf s) = (if s then 0 else u64_max)"
| "f64_as_u64 (Fin q) = min u64_max (nat \<lfloor>q\<rfloor>)"

fun f64_as_i64 :: "f64 \<Rightarrow> int" where
  "f64_as_i64 NaN = 0"
| "f64_as_i64 (Inf s) = (if s then i64_min else i64_max)"
| "f64_as_i64 (Fin q) = i64_sat (if q < 0 then \<lceil>q\<rceil> else \<lfloor>q\<rfloor>)"

lemma f64_as_u64_le [simp]: "f64_as_u64 x \<le> u64_max"
  by (cases x) auto

lemma to_f64_bounded:
  assumes "0 \<le> q" and "q \<le> of_nat n" and "n \<le> 2 ^ 53"
  shows "\<exists>m. to_f64 q = Fin m \<and> 0 \<le> m \<and> m \<le> of_nat n"
proof -
  have le: "rnd_pos q \<le> of_nat n"
    using rnd_pos_mono [OF assms(2)] rnd_pos_of_nat [OF assms(3)] by simp
  also have "\<dots> \<le> of_nat (2 ^ 53)" using assms(3) by (simp only: of_nat_le_iff)
  also have "\<dots> < (2::rat) powi 1024" by (simp add: power_int_def)
  finally have "\<not> (2::rat) powi 1024 \<le> rnd_pos q" by simp
  then have "to_f64 q = Fin (rnd_pos q)"
    using assms(1) by (simp add: to_f64_def Let_def)
  then show ?thesis using le by auto
qed

lemma to_f64_of_nat_exact: "n \<le> 2 ^ 53 \<Longrightarrow> to_f64 (of_nat n) = Fin (of_nat n)"
proof -
  assume n: "n \<le> 2 ^ 53"
  have "(of_nat n :: rat) \<le> of_nat (2 ^ 53)" using n by (simp only: of_nat_le_iff)
  also have "\<dots> < (2::rat) powi 1024" by (simp add: power_int_def)
  finally have "\<not> (2::rat) powi 1024 \<le> of_nat n" by simp
  then show ?thesis by (simp add: to_f64_def rnd_pos_of_nat [OF n])
qed

lemma f64_of_nat_u64:
  assumes "n \<le> u64_max"
  shows "f64_of_nat n = Fin (rnd_pos (of_nat n))"
proof -
  have "rnd_pos (of_nat n) \<le> rnd_pos (2 ^ 64)"
    using assms by (intro rnd_pos_mono) (simp add: u64_max_def)
  also have "rnd_pos (2 ^ 64) = 2 ^ 64" by code_simp
  also have "(2::rat) ^ 64 < 2 powi 1024" by (simp add: power_int_def)
  finally show ?thesis by (simp add: f64_of_nat_def to_f64_def)
qed

lemma f64_of_nat_exact: "n \<le> 2 ^ 53 \<Longrightarrow> f64_of_nat n = Fin (of_nat n)"
  by (simp add: f64_of_nat_def to_f64_of_nat_exact)

text \<open>A fraction of at most one, scaled to one hundred, stays within zero and one hundred.\<close>

lemma f64_percentage_bounds:
  assumes "a \<le> b" and "0 < b" and "b \<le> u64_max"
  shows "0 \<le> f64_as_i64 (f64_mul (f64_div (f64_of_nat a) (f64_of_nat b)) (Fin 100))"
    and "f64_as_i64 (f64_mul (f64_div (f64_of_nat a) (f64_of_nat b)) (Fin 100)) \<le> 100"
proof -
  let ?x = "rnd_pos (of_nat a)" and ?y = "rnd_pos (of_nat b)"
  have xy: "?x \<le> ?y" using assms(1) by (intro rnd_pos_mono) simp
  have "rnd_pos 1 \<le> ?y" using assms(2) by (intro rnd_pos_mono) simp
  then have y: "0 < ?y" using rnd_pos_of_nat [of 1] by simp
  obtain m where m: "to_f64 (?x / ?y) = Fin m" "0 \<le> m" "m \<le> 1"
    using to_f64_bounded [of "?x / ?y" 1] xy y by auto
  obtain k where k: "to_f64 (m * 100) = Fin k" "0 \<le> k" "k \<le> 100"
    using to_f64_bounded [of "m * 100" 100] m by auto
  have eq: "f64_mul (f64_div (f64_of_nat a) (f64_of_nat b)) (Fin 100) = Fin k"
    using assms y m(1) k(1) by (simp add: f64_of_nat_u64)
  have "0 \<le> \<lfloor>k\<rfloor>" and "\<lfloor>k\<rfloor> \<le> 100" using k by (simp_all add: floor_le_iff)
  then show "0 \<le> f64_as_i64 (f64_mul (f64_div (f64_of_nat a) (f64_of_nat b)) (Fin 100))"
    and "f64_as_i64 (f64_mul (f64_div (f64_of_nat a) (f64_of_nat b)) (Fin 100)) \<le> 100"
    using k(2) by (simp_all add: eq i64_sat_def int_range_defs)
qed

section \<open>Parsing\<close>

text \<open>
  \<^verbatim>\<open>str::parse::<f64>\<close>: an optional sign, then \<^verbatim>\<open>inf\<close>, \<^verbatim>\<open>infinity\<close> or \<^verbatim>\<open>nan\<close> in any case, or a decimal
  number with at least one digit, an optional point and an optional exponent.
\<close>

definition is_digit :: "char \<Rightarrow> bool" where
  "is_digit c \<longleftrightarrow> digit_val c \<noteq> None"

definition parse_exponent :: "string \<Rightarrow> int option" where
  "parse_exponent s = (case s of
     [] \<Rightarrow> Some 0
   | c # cs \<Rightarrow>
       if c = CHR ''e'' \<or> c = CHR ''E'' then
         (case cs of
            [] \<Rightarrow> None
          | d # ds \<Rightarrow>
              if d = CHR ''-'' then map_option (\<lambda>n. - int n) (parse_nat ds)
              else if d = CHR ''+'' then map_option int (parse_nat ds)
              else map_option int (parse_nat cs))
       else None)"

definition parse_decimal :: "string \<Rightarrow> rat option" where
  "parse_decimal s =
     (let ip = takeWhile is_digit s; r = dropWhile is_digit s;
          (fp, r') = (case r of c # cs \<Rightarrow> if c = CHR ''.'' then (takeWhile is_digit cs, dropWhile is_digit cs) else ([], r)
                      | [] \<Rightarrow> ([], []))
      in case (parse_nat (ip @ fp), parse_exponent r') of
           (Some n, Some e) \<Rightarrow> Some (of_nat n * 10 powi (e - int (length fp)))
         | _ \<Rightarrow> None)"

definition parse_f64 :: "string \<Rightarrow> f64 option" where
  "parse_f64 s =
     (let (neg, t) = (case s of c # cs \<Rightarrow> if c = CHR ''-'' then (True, cs) else if c = CHR ''+'' then (False, cs) else (False, s)
                      | [] \<Rightarrow> (False, []))
      in if eq_ignore_ascii_case t ''inf'' \<or> eq_ignore_ascii_case t ''infinity'' then Some (Inf neg)
         else if eq_ignore_ascii_case t ''nan'' then Some NaN
         else map_option (\<lambda>q. to_f64 (if neg then - q else q)) (parse_decimal t))"

lemma all_digits_nat_to_string: "\<forall>c \<in> set (nat_to_string n). is_digit c"
proof (induction n rule: nat_to_string.induct)
  case (1 n)
  then show ?case
    by (cases "n < 10") (auto simp: nat_to_string.simps [of n] is_digit_def)
qed

lemma parse_decimal_nat_to_string: "parse_decimal (nat_to_string n) = Some (of_nat n)"
proof -
  have "takeWhile is_digit (nat_to_string n) = nat_to_string n"
    and "dropWhile is_digit (nat_to_string n) = []"
    using all_digits_nat_to_string [of n] by (simp_all add: takeWhile_eq_all_conv)
  then show ?thesis
    unfolding parse_decimal_def parse_exponent_def Let_def by (simp only:) simp
qed

lemma eq_ignore_ascii_case_hd:
  "eq_ignore_ascii_case (c # cs) (d # ds) \<Longrightarrow> to_ascii_lowercase c = to_ascii_lowercase d"
  by (simp add: eq_ignore_ascii_case_def)

lemma parse_f64_nat_to_string: "parse_f64 (nat_to_string n) = Some (f64_of_nat n)"
proof -
  obtain c cs where s: "nat_to_string n = c # cs" by (cases "nat_to_string n") auto
  obtain d where d: "d < 10" "c = digit_char d" using hd_nat_to_string [of n] s by auto
  then have sign: "c \<noteq> CHR ''+''" "c \<noteq> CHR ''-''" by (simp_all add: digit_char_not_sign)
  have "to_ascii_lowercase c = c"
    using d by (simp add: to_ascii_lowercase_def digit_char_def Let_def)
  moreover have "c \<noteq> CHR ''i''" "c \<noteq> CHR ''n''"
  proof -
    have "digit_val CHR ''i'' = None" "digit_val CHR ''n'' = None"
      by (simp_all add: digit_val_def Let_def)
    then show "c \<noteq> CHR ''i''" "c \<noteq> CHR ''n''" using digit_val_digit_char [OF d(1)] d(2) by auto
  qed
  ultimately have word: "\<not> eq_ignore_ascii_case (c # cs) ''inf''" "\<not> eq_ignore_ascii_case (c # cs) ''infinity''"
    "\<not> eq_ignore_ascii_case (c # cs) ''nan''"
    by (auto dest!: eq_ignore_ascii_case_hd
        simp: to_ascii_lowercase_def [of "CHR ''i''"] to_ascii_lowercase_def [of "CHR ''n''"])
  show ?thesis
    using sign word parse_decimal_nat_to_string [of n]
    by (simp add: parse_f64_def s f64_of_nat_def Let_def)
qed

text \<open>Scaling by a power of two is exact while the result fits.\<close>

lemma f64_scale_pow2:
  assumes "n \<le> 2 ^ 53" and "k \<le> 53" and "n * 2 ^ k < 2 ^ 64"
  shows "f64_mul (f64_of_nat n) (f64_of_nat (2 ^ k)) = Fin (of_nat (n * 2 ^ k))"
proof -
  have k: "(2::nat) ^ k \<le> 2 ^ 53" using assms(2) by (rule power_increasing) simp
  have "rat_of_nat (n * 2 ^ k) < of_nat (2 ^ 64)" using assms(3) by (simp only: of_nat_less_iff)
  also have "\<dots> < (2::rat) powi 1024" by (simp add: power_int_def)
  finally have "\<not> (2::rat) powi 1024 \<le> of_nat (n * 2 ^ k)" by simp
  moreover have neg: "(rat_of_nat n * 2 ^ k < 0) = False" by (simp add: not_less)
  ultimately show ?thesis
    using assms(1) k rnd_pos_of_nat_scaled [OF assms(1), of k]
    by (simp add: f64_of_nat_exact to_f64_def Let_def neg)
qed

end
