(* ===== verification/Memory_Size.thy ===== *)
theory Memory_Size
  imports F64
begin

text \<open>
  The two parsers of memory sizes: \<^verbatim>\<open>parse_memory_size\<close> of the scheduler
  (\<^verbatim>\<open>tugboat-scheduler/src/framework/types.rs\<close>), through \<^verbatim>\<open>f64\<close>, and \<^verbatim>\<open>SizedString::as_byte_length\<close>
  (\<^verbatim>\<open>tugboat-resources/src/sized.rs\<close>), which the agent uses to create and to resize a VM.
\<close>

definition memory_suffixes :: "(string \<times> nat) list" where
  "memory_suffixes =
     [(''Gi'', 1024 ^ 3), (''Mi'', 1024 ^ 2), (''Ki'', 1024), (''Ti'', 1024 ^ 4),
      (''G'', 1000 ^ 3), (''M'', 1000 ^ 2), (''K'', 1000), (''T'', 1000 ^ 4)]"

text \<open>The first suffix that strips off decides, as the chain of \<^verbatim>\<open>strip_suffix\<close> calls does.\<close>

fun split_suffix :: "(string \<times> nat) list \<Rightarrow> string \<Rightarrow> (string \<times> nat) option" where
  "split_suffix [] s = None"
| "split_suffix ((suf, mult) # rest) s = (case strip_suffix suf s of
     Some n \<Rightarrow> Some (n, mult) | None \<Rightarrow> split_suffix rest s)"

definition parse_memory_size :: "string \<Rightarrow> nat" where
  "parse_memory_size s0 =
     (let s = trim s0 in
      if s = [] then 0
      else case parse_u64 s of
        Some b \<Rightarrow> b
      | None \<Rightarrow>
          (case split_suffix memory_suffixes s of
             None \<Rightarrow> 0
           | Some (n, multiplier) \<Rightarrow>
               (case parse_f64 n of
                  None \<Rightarrow> 0
                | Some num \<Rightarrow>
                    (let result = f64_mul num (f64_of_nat multiplier) in
                     if f64_ge result (f64_of_nat u64_max) then u64_max else f64_as_u64 result))))"

definition sized_suffixes :: "(string \<times> nat) list" where
  "sized_suffixes =
     [(''Ki'', 1024), (''Mi'', 1024 ^ 2), (''Gi'', 1024 ^ 3), (''Ti'', 1024 ^ 4), (''Pi'', 1024 ^ 5),
      (''K'', 1000), (''M'', 1000 ^ 2), (''G'', 1000 ^ 3), (''T'', 1000 ^ 4), (''P'', 1000 ^ 5)]"

text \<open>
  The regular expression splits the string into decimal digits and one of the suffixes; the
  multiplication of a release build wraps around at 64 bits.
\<close>

definition as_byte_length :: "string \<Rightarrow> nat option" where
  "as_byte_length s =
     (let digits = takeWhile is_digit s; suffix = dropWhile is_digit s in
      if digits = [] then None
      else case map_of sized_suffixes suffix of
        None \<Rightarrow> None
      | Some mult \<Rightarrow> map_option (\<lambda>n. (n * mult) mod 2 ^ 64) (parse_u64 digits))"

section \<open>Lemmas\<close>

lemma memory_suffix_not_digit:
  assumes "(suf, mult) \<in> set sized_suffixes"
  shows "suf \<noteq> []" and "\<not> is_digit (hd suf)" and "last suf \<in> set ''iKMGTP''"
  using assms by (auto simp: sized_suffixes_def is_digit_def digit_val_def)

lemma as_byte_length_suffix:
  assumes "map_of sized_suffixes suf = Some mult" and "n \<le> u64_max"
  shows "as_byte_length (nat_to_string n @ suf) = Some ((n * mult) mod 2 ^ 64)"
proof -
  have suf: "suf \<noteq> []" "\<not> is_digit (hd suf)"
    using memory_suffix_not_digit [OF map_of_SomeD [OF assms(1)]] by auto
  have "takeWhile is_digit (nat_to_string n @ suf) = nat_to_string n"
    and "dropWhile is_digit (nat_to_string n @ suf) = suf"
    using suf all_digits_nat_to_string [of n]
    by (auto simp: takeWhile_append dropWhile_append takeWhile_eq_all_conv neq_Nil_conv)
  then show ?thesis
    using assms by (simp add: as_byte_length_def parse_u64_nat_to_string)
qed

lemma f64_of_u64_max: "f64_of_nat u64_max = Fin 18446744073709551616"
proof -
  have "rnd_pos 18446744073709551615 = 18446744073709551616" by code_simp
  then show ?thesis using f64_of_nat_u64 [of u64_max] by (simp add: u64_max_def)
qed

lemma f64_scale_exact:
  assumes "n \<le> 2 ^ 53" and "n * mult < 2 ^ 64"
    and "(\<exists>k \<le> 53. mult = 2 ^ k) \<or> (n * mult \<le> 2 ^ 53 \<and> mult \<le> 2 ^ 53)"
  shows "f64_mul (f64_of_nat n) (f64_of_nat mult) = Fin (of_nat (n * mult))"
  using assms(3)
proof
  assume "\<exists>k \<le> 53. mult = 2 ^ k"
  then show ?thesis using assms(1,2) f64_scale_pow2 by blast
next
  assume "n * mult \<le> 2 ^ 53 \<and> mult \<le> 2 ^ 53"
  then show ?thesis
    using assms(1) to_f64_of_nat_exact [of "n * mult"] by (simp add: f64_of_nat_exact)
qed

lemma parse_u64_not_digit:
  assumes "\<not> is_digit (hd t)" and "t \<noteq> []"
  shows "parse_u64 (nat_to_string n @ t) = None"
proof -
  obtain c cs where s: "nat_to_string n = c # cs" by (cases "nat_to_string n") auto
  obtain d where "d < 10" and "c = digit_char d" using hd_nat_to_string [of n] s by auto
  then have "c \<noteq> CHR ''+''" by (simp add: digit_char_not_sign)
  moreover have "parse_digits a t = None" for a
    using assms by (cases t) (auto simp: is_digit_def)
  then have "parse_nat (nat_to_string n @ t) = None"
    by (simp add: parse_nat_def parse_digits_append split: option.splits)
  ultimately show ?thesis by (simp add: parse_u64_def s)
qed

lemma split_suffix_memory:
  assumes "map_of memory_suffixes suf = Some mult"
  shows "split_suffix memory_suffixes (s @ suf) = Some (s, mult)"
proof -
  have "(suf, mult) \<in> set memory_suffixes" using assms by (rule map_of_SomeD)
  then show ?thesis
    by (auto simp: memory_suffixes_def strip_suffix_def strip_prefix_def)
qed

lemma memory_suffix_chars:
  assumes "(suf, mult) \<in> set memory_suffixes"
  shows "suf \<noteq> []" and "\<not> is_digit (hd suf)" and "last suf \<in> set ''iKMGT''"
    and "map_of sized_suffixes suf = Some mult" and "mult \<le> 2 ^ 53"
    and "last suf = CHR ''i'' \<Longrightarrow> \<exists>k \<le> 53. mult = 2 ^ k"
proof -
  have i: "\<exists>k \<le> 53. (1024::nat) = 2 ^ k" "\<exists>k \<le> 53. (1048576::nat) = 2 ^ k"
    "\<exists>k \<le> 53. (1073741824::nat) = 2 ^ k" "\<exists>k \<le> 53. (1099511627776::nat) = 2 ^ k"
    by (rule exI [of _ 10] exI [of _ 20] exI [of _ 30] exI [of _ 40], simp)+
  show "suf \<noteq> []" "\<not> is_digit (hd suf)" "last suf \<in> set ''iKMGT''"
    "map_of sized_suffixes suf = Some mult" "mult \<le> 2 ^ 53"
    using assms by (auto simp: memory_suffixes_def sized_suffixes_def is_digit_def digit_val_def)
  show "last suf = CHR ''i'' \<Longrightarrow> \<exists>k \<le> 53. mult = 2 ^ k"
    using assms i by (auto simp: memory_suffixes_def)
qed

lemma trim_sized:
  assumes "last suf \<in> set ''iKMGT''" and "suf \<noteq> []"
  shows "trim (nat_to_string n @ suf) = nat_to_string n @ suf"
proof (rule trim_id)
  have "is_digit (hd (nat_to_string n @ suf))"
    using all_digits_nat_to_string [of n] by simp
  moreover have "\<forall>w \<in> set whitespace. \<not> is_digit (hd w)"
    by (simp add: whitespace_def is_digit_def digit_val_def)
  ultimately show "\<forall>w \<in> set whitespace. hd w \<noteq> hd (nat_to_string n @ suf)" by metis
  show "\<forall>w \<in> set whitespace. last w \<noteq> last (nat_to_string n @ suf)"
    using assms by (auto simp: whitespace_def)
qed (use assms in simp)

lemma trim_nat_to_string: "trim (nat_to_string n) = nat_to_string n"
proof (rule trim_id)
  have w: "\<forall>w \<in> set whitespace. \<not> is_digit (hd w)" "\<forall>w \<in> set whitespace. \<not> is_digit (last w)"
    by (simp_all add: whitespace_def is_digit_def digit_val_def)
  have d: "is_digit (hd (nat_to_string n))" "is_digit (last (nat_to_string n))"
    using all_digits_nat_to_string [of n] by simp_all
  show "\<forall>w \<in> set whitespace. hd w \<noteq> hd (nat_to_string n)"
    and "\<forall>w \<in> set whitespace. last w \<noteq> last (nat_to_string n)"
    using w d by metis+
qed simp

lemma parse_memory_size_bytes: "n \<le> u64_max \<Longrightarrow> parse_memory_size (nat_to_string n) = n"
  by (simp add: parse_memory_size_def trim_nat_to_string parse_u64_nat_to_string)

section \<open>Properties\<close>



text \<open>
  The two parsers disagree on the units \<^verbatim>\<open>Pi\<close> and \<^verbatim>\<open>P\<close>: the agent reads \<^verbatim>\<open>1Pi\<close> as \<open>2 ^ 50\<close> bytes,
  the scheduler as zero, so that such a Ship fits on every node and adds nothing to the usage of the
  node it runs on.
\<close>

theorem memory_size_peta_ignored:
  "as_byte_length ''1Pi'' = Some (2 ^ 50) \<and> parse_memory_size ''1Pi'' = 0"
proof -
  have one: "nat_to_string (Suc 0) = ''1''"
    by code_simp
  have "as_byte_length (nat_to_string 1 @ ''Pi'') = Some ((1 * 1024 ^ 5) mod 2 ^ 64)"
    by (rule as_byte_length_suffix) (simp_all add: sized_suffixes_def u64_max_def)
  then have a: "as_byte_length ''1Pi'' = Some (2 ^ 50)" by (simp add: one)
  have "trim (nat_to_string 1 @ ''Pi'') = nat_to_string 1 @ ''Pi''"
    by (rule trim_sized) simp_all
  then have t: "trim ''1Pi'' = ''1Pi''" by (simp add: one)
  have "parse_u64 (nat_to_string 1 @ ''Pi'') = None"
    by (rule parse_u64_not_digit) (simp_all add: is_digit_def digit_val_def)
  then have u: "parse_u64 ''1Pi'' = None" by (simp add: one)
  have "split_suffix memory_suffixes ''1Pi'' = None"
    by (simp add: memory_suffixes_def strip_suffix_def strip_prefix_def)
  with t u have "parse_memory_size ''1Pi'' = 0" by (simp add: parse_memory_size_def Let_def)
  with a show ?thesis by blast
qed

end
