(* ===== verification/Sched_Context.thy ===== *)
theory Sched_Context
  imports Selectors Memory_Size
begin

text \<open>
  \<^verbatim>\<open>SchedulingContext\<close> (\<^verbatim>\<open>tugboat-scheduler/src/framework/types.rs\<close>): what one scheduling decision sees
  of the cluster, and the look-ups and resource sums the plugins share.
\<close>

record scheduling_context =
  ctx_ship :: ship
  ctx_ship_class :: ship_class
  ctx_cluster_network_classes :: "network_class list"
  ctx_network_classes :: "network_class list"
  ctx_runtime_classes :: "runtime_class list"
  ctx_ships :: "ship list"
  ctx_nodes :: "node list"
  ctx_ship_classes :: "ship_class list"
  ctx_pvcs :: "persistent_volume_claim list"
  ctx_pvs :: "persistent_volume list"
  ctx_storage_classes :: "storage_class list"

datatype filter_result = Accept | Reject string

datatype score_result = Score int | Skip

definition find_named :: "('a \<Rightarrow> object_meta option) \<Rightarrow> string \<Rightarrow> 'a list \<Rightarrow> 'a option" where
  "find_named meta n xs = find (\<lambda>x. meta_name (meta x) = Some n) xs"

section \<open>Look-ups\<close>

definition find_ship_class :: "scheduling_context \<Rightarrow> string \<Rightarrow> ship_class option" where
  "find_ship_class ctx n = find_named scl_meta n (ctx_ship_classes ctx)"

definition ship_namespace :: "scheduling_context \<Rightarrow> string" where
  "ship_namespace ctx = unwrap_or ''default'' (meta_namespace (ship_meta (ctx_ship ctx)))"

definition find_claim :: "scheduling_context \<Rightarrow> string \<Rightarrow> persistent_volume_claim option" where
  "find_claim ctx claim =
     find (\<lambda>pvc. meta_name (pvc_meta pvc) = Some claim \<and>
                 meta_namespace (pvc_meta pvc) = Some (ship_namespace ctx)) (ctx_pvcs ctx)"

definition ship_persistent_volume_claims :: "scheduling_context \<Rightarrow> persistent_volume_claim list" where
  "ship_persistent_volume_claims ctx = (case ship_spec (ctx_ship ctx) of
     None \<Rightarrow> []
   | Some spec \<Rightarrow>
       filter_map (\<lambda>v. Option.bind (sv_persistent_volume_claim v) (find_claim ctx)) (ss_volumes spec))"

definition ship_bound_persistent_volumes :: "scheduling_context \<Rightarrow> persistent_volume list" where
  "ship_bound_persistent_volumes ctx =
     filter_map (\<lambda>pvc.
        let pv_name = unwrap_or [] (Option.bind (pvc_spec pvc) pvcs_volume_name)
        in if pv_name = [] then None else find_named pv_meta pv_name (ctx_pvs ctx))
       (ship_persistent_volume_claims ctx)"

definition find_cluster_network_class :: "scheduling_context \<Rightarrow> string \<Rightarrow> network_class option" where
  "find_cluster_network_class ctx n = find_named nwc_meta n (ctx_cluster_network_classes ctx)"

definition find_network_class :: "scheduling_context \<Rightarrow> string \<Rightarrow> string \<Rightarrow> network_class option" where
  "find_network_class ctx ns n =
     find (\<lambda>c. meta_name (nwc_meta c) = Some n \<and> meta_namespace (nwc_meta c) = Some ns)
       (ctx_network_classes ctx)"

definition find_runtime_class :: "scheduling_context \<Rightarrow> string \<Rightarrow> runtime_class option" where
  "find_runtime_class ctx n = find_named rc_meta n (ctx_runtime_classes ctx)"

definition find_storage_class :: "scheduling_context \<Rightarrow> string \<Rightarrow> storage_class option" where
  "find_storage_class ctx n = find_named stc_meta n (ctx_storage_classes ctx)"

definition is_unbound_wffc_claim :: "scheduling_context \<Rightarrow> persistent_volume_claim \<Rightarrow> bool" where
  "is_unbound_wffc_claim ctx pvc = (case pvc_spec pvc of
     None \<Rightarrow> False
   | Some spec \<Rightarrow>
       if is_some_and (\<lambda>v. v \<noteq> []) (pvcs_volume_name spec) then False
       else case filter_opt (\<lambda>v. v \<noteq> []) (pvcs_storage_class_name spec) of
         None \<Rightarrow> False
       | Some sc_name \<Rightarrow>
           Option.bind (Option.bind (find_storage_class ctx sc_name) stc_spec) scs_volume_binding_mode
             = Some ''WaitForFirstConsumer'')"

section \<open>Resources\<close>

definition requested_resources :: "scheduling_context \<Rightarrow> nat \<times> nat" where
  "requested_resources ctx =
     (let spec = scl_spec (ctx_ship_class ctx) in
      (unwrap_or 0 (map_option cpu_cores (Option.bind spec scs_cpu)),
       unwrap_or 0 (map_option parse_memory_size (Option.bind spec scs_memory))))"

definition assigned_node :: "ship \<Rightarrow> string option" where
  "assigned_node s = Option.bind (ship_spec s) ss_node_name"

definition ship_class_name :: "ship \<Rightarrow> string" where
  "ship_class_name s = unwrap_or [] (map_option ss_ship_class (ship_spec s))"

definition add_ship_usage :: "scheduling_context \<Rightarrow> string \<Rightarrow> ship \<Rightarrow> nat \<times> nat \<Rightarrow> nat \<times> nat" where
  "add_ship_usage ctx n s = (\<lambda>(cpu, mem).
     if assigned_node s \<noteq> Some n then (cpu, mem)
     else case Option.bind (find_ship_class ctx (ship_class_name s)) scl_spec of
       None \<Rightarrow> (cpu, mem)
     | Some spec \<Rightarrow>
         (case scs_cpu spec of None \<Rightarrow> cpu | Some c \<Rightarrow> u64_sat_add cpu (cpu_cores c),
          case scs_memory spec of None \<Rightarrow> mem | Some m \<Rightarrow> u64_sat_add mem (parse_memory_size m)))"

definition node_resource_usage :: "scheduling_context \<Rightarrow> string \<Rightarrow> nat \<times> nat" where
  "node_resource_usage ctx n = fold (add_ship_usage ctx n) (ctx_ships ctx) (0, 0)"

text \<open>
  The capacity of a node scaled by its overcommit ratios; \<^verbatim>\<open>ResourceFitFilter\<close> and
  \<^verbatim>\<open>LeastAllocatedScorer\<close> have the same function.
\<close>

definition overcommit_ratio :: "string option \<Rightarrow> f64" where
  "overcommit_ratio r = unwrap_or (Fin 1) (Option.bind r parse_f64)"

definition node_allocatable :: "node \<Rightarrow> nat \<times> nat" where
  "node_allocatable node =
     (let spec = node_spec node;
          resource = Option.bind spec nsp_resource;
          overcommit = Option.bind spec nsp_overcommit;
          base_cpu = unwrap_or 0 (map_option nr_cpu resource);
          base_memory = unwrap_or 0 (map_option nr_memory resource);
          cpu_ratio = overcommit_ratio (map_option no_cpu_ratio overcommit);
          memory_ratio = overcommit_ratio (map_option no_memory_ratio overcommit)
      in (f64_as_u64 (f64_mul (f64_of_nat base_cpu) cpu_ratio),
          f64_as_u64 (f64_mul (f64_of_nat base_memory) memory_ratio)))"

section \<open>Lemmas\<close>

text \<open>
  The demand of one Ship, and the exact sums over the Ships of a node that
  \<^const>\<open>node_resource_usage\<close> approximates by saturating additions.
\<close>

definition ship_demand :: "scheduling_context \<Rightarrow> ship \<Rightarrow> nat \<times> nat" where
  "ship_demand ctx s = (case Option.bind (find_ship_class ctx (ship_class_name s)) scl_spec of
     None \<Rightarrow> (0, 0)
   | Some spec \<Rightarrow>
       (case scs_cpu spec of None \<Rightarrow> 0 | Some c \<Rightarrow> cpu_cores c,
        case scs_memory spec of None \<Rightarrow> 0 | Some m \<Rightarrow> parse_memory_size m))"

definition ships_on :: "scheduling_context \<Rightarrow> string \<Rightarrow> ship list" where
  "ships_on ctx n = filter (\<lambda>s. assigned_node s = Some n) (ctx_ships ctx)"

lemma add_ship_usage_min:
  assumes "cpu = min u64_max c" and "mem = min u64_max m"
  shows "add_ship_usage ctx n s (cpu, mem) =
    (if assigned_node s = Some n
     then (min u64_max (c + fst (ship_demand ctx s)), min u64_max (m + snd (ship_demand ctx s)))
     else (min u64_max c, min u64_max m))"
  using assms by (auto simp: add_ship_usage_def ship_demand_def u64_sat_add_def split: option.splits)

lemma fold_add_ship_usage:
  "fold (add_ship_usage ctx n) ss (min u64_max c, min u64_max m) =
    (min u64_max (c + (\<Sum>s \<leftarrow> filter (\<lambda>s. assigned_node s = Some n) ss. fst (ship_demand ctx s))),
     min u64_max (m + (\<Sum>s \<leftarrow> filter (\<lambda>s. assigned_node s = Some n) ss. snd (ship_demand ctx s))))"
  by (induction ss arbitrary: c m) (simp_all add: add_ship_usage_min add.assoc)

lemma node_resource_usage_sum:
  "node_resource_usage ctx n =
    (min u64_max (\<Sum>s \<leftarrow> ships_on ctx n. fst (ship_demand ctx s)),
     min u64_max (\<Sum>s \<leftarrow> ships_on ctx n. snd (ship_demand ctx s)))"
  using fold_add_ship_usage [of ctx n "ctx_ships ctx" 0 0]
  by (simp add: node_resource_usage_def ships_on_def)

lemma node_allocatable_le: "fst (node_allocatable node) \<le> u64_max" "snd (node_allocatable node) \<le> u64_max"
  by (simp_all add: node_allocatable_def Let_def)

text \<open>Without an overcommit setting a capacity of up to \<open>2 ^ 53\<close> is taken as it is.\<close>

lemma f64_scale_one:
  assumes "n \<le> 2 ^ 53"
  shows "f64_as_u64 (f64_mul (f64_of_nat n) (Fin 1)) = n"
  using assms by (simp add: f64_of_nat_exact to_f64_of_nat_exact u64_max_def)

lemma node_allocatable_default:
  assumes "node_spec node = Some spec" and "nsp_overcommit spec = None" and "nsp_resource spec = Some r"
    and "nr_cpu r \<le> 2 ^ 53" and "nr_memory r \<le> 2 ^ 53"
  shows "node_allocatable node = (nr_cpu r, nr_memory r)"
  using assms f64_scale_one by (simp add: node_allocatable_def overcommit_ratio_def)

end
