(* ===== verification/Sched_Filters.thy ===== *)
theory Sched_Filters
  imports Sched_Context
begin

text \<open>
  The eleven filter plugins of the scheduler (\<^verbatim>\<open>tugboat-scheduler/src/plugins\<close>), one definition per
  plugin.  A filter takes the scheduling context and a candidate node and accepts the node or
  rejects it with the message the source formats.
\<close>

text \<open>A loop of the source that returns the first rejection.\<close>

fun first_reject :: "('a \<Rightarrow> filter_result) \<Rightarrow> 'a list \<Rightarrow> filter_result" where
  "first_reject f [] = Accept"
| "first_reject f (x # xs) = (case f x of Reject r \<Rightarrow> Reject r | Accept \<Rightarrow> first_reject f xs)"

lemma first_reject_Accept [simp]: "first_reject f xs = Accept \<longleftrightarrow> (\<forall>x \<in> set xs. f x = Accept)"
  by (induction xs) (auto split: filter_result.splits)

lemma then_filter_Accept [simp]:
  "(case r of Reject x \<Rightarrow> Reject x | Accept \<Rightarrow> k) = Accept \<longleftrightarrow> r = Accept \<and> k = Accept"
  by (cases r) auto

lemma if_Reject_Accept [simp]:
  "(if b then Accept else Reject x) = Accept \<longleftrightarrow> b"
  "(if b then Reject x else r) = Accept \<longleftrightarrow> \<not> b \<and> r = Accept"
  by auto

definition node_labels :: "node \<Rightarrow> labels" where
  "node_labels node = meta_labels (node_meta node)"

definition node_name_or :: "string \<Rightarrow> node \<Rightarrow> string" where
  "node_name_or d node = unwrap_or d (meta_name (node_meta node))"

text \<open>A string between single quotes, as the messages have it.\<close>

definition quoted :: "string \<Rightarrow> string" where
  "quoted s = [CHR 0x27] @ s @ [CHR 0x27]"

section \<open>Unschedulable, TaintToleration, ResourceFit\<close>

definition unschedulable_filter :: "scheduling_context \<Rightarrow> node \<Rightarrow> filter_result" where
  "unschedulable_filter ctx node =
     (if unwrap_or False (Option.bind (node_spec node) nsp_unschedulable)
      then Reject ''node is marked unschedulable'' else Accept)"

definition toleration_matches_taint :: "toleration \<Rightarrow> taint \<Rightarrow> bool" where
  "toleration_matches_taint tol taint = (case tol_key tol of
     None \<Rightarrow> tol_effect tol = [] \<or> tol_effect tol = ta_effect taint
   | Some key \<Rightarrow>
       if key \<noteq> ta_key taint then False
       else if tol_effect tol \<noteq> [] \<and> tol_effect tol \<noteq> ta_effect taint then False
       else if tol_operator tol = ''Exists'' then True
       else if tol_operator tol = ''Equal'' \<or> tol_operator tol = [] then
         unwrap_or [] (tol_value tol) = ta_value taint
       else False)"

definition ship_tolerates_taint :: "toleration list \<Rightarrow> taint \<Rightarrow> bool" where
  "ship_tolerates_taint tols taint \<longleftrightarrow> (\<exists>t \<in> set tols. toleration_matches_taint t taint)"

definition node_taints :: "node \<Rightarrow> taint list" where
  "node_taints node = (case node_spec node of None \<Rightarrow> [] | Some s \<Rightarrow> nsp_taints s)"

definition ship_tolerations :: "scheduling_context \<Rightarrow> toleration list" where
  "ship_tolerations ctx = (case ship_spec (ctx_ship ctx) of None \<Rightarrow> [] | Some s \<Rightarrow> ss_tolerations s)"

definition taint_toleration_filter :: "scheduling_context \<Rightarrow> node \<Rightarrow> filter_result" where
  "taint_toleration_filter ctx node =
     first_reject (\<lambda>taint.
        if ta_effect taint = ''NoSchedule'' \<and> \<not> ship_tolerates_taint (ship_tolerations ctx) taint
        then Reject (''node has NoSchedule taint '' @ ta_key taint @ ''='' @ ta_value taint @ '' not tolerated'')
        else Accept) (node_taints node)"

definition resource_fit_filter :: "scheduling_context \<Rightarrow> node \<Rightarrow> filter_result" where
  "resource_fit_filter ctx node =
     (let (alloc_cpu, alloc_memory) = node_allocatable node;
          (used_cpu, used_memory) = node_resource_usage ctx (node_name_or ''unknown'' node);
          (req_cpu, req_memory) = requested_resources ctx;
          avail_cpu = u64_sat_sub alloc_cpu used_cpu;
          avail_memory = u64_sat_sub alloc_memory used_memory
      in if avail_cpu < req_cpu then
           Reject (''insufficient CPU: requested='' @ nat_to_string req_cpu @ '', available='' @ nat_to_string avail_cpu)
         else if avail_memory < req_memory then
           Reject (''insufficient memory: requested='' @ nat_to_string req_memory @ '', available='' @ nat_to_string avail_memory)
         else Accept)"

section \<open>RuntimeClassFit\<close>

definition nonempty_trimmed :: "string option \<Rightarrow> string option" where
  "nonempty_trimmed s = filter_opt (\<lambda>v. v \<noteq> []) (map_option trim s)"

definition node_runtime_class_name :: "node \<Rightarrow> string option" where
  "node_runtime_class_name node =
     nonempty_trimmed (map_of (node_labels node) ''tugboat.cloud/runtime-class'')"

definition ship_requires_live_migration :: "scheduling_context \<Rightarrow> bool" where
  "ship_requires_live_migration ctx \<longleftrightarrow>
     is_some_and (\<lambda>v. v \<noteq> []) (map_option trim (Option.bind (ship_spec (ctx_ship ctx)) ss_target_node_name))"

definition requested_runtime_class :: "scheduling_context \<Rightarrow> string option" where
  "requested_runtime_class ctx = nonempty_trimmed (Option.bind (ship_spec (ctx_ship ctx)) ss_runtime_class)"

definition runtime_class_fit_filter :: "scheduling_context \<Rightarrow> node \<Rightarrow> filter_result" where
  "runtime_class_fit_filter ctx node =
     (let requested = requested_runtime_class ctx; migrates = ship_requires_live_migration ctx in
      if requested = None \<and> \<not> migrates then Accept
      else case node_runtime_class_name node of
        None \<Rightarrow> Reject (''node does not declare '' @ quoted ''tugboat.cloud/runtime-class'' @ '' label'')
      | Some name \<Rightarrow>
          if is_some_and (\<lambda>r. name \<noteq> r) requested then
            Reject (''node runtime class '' @ quoted name @
              '' does not match requested runtime class '' @ quoted (the requested))
          else case find_runtime_class ctx name of
            None \<Rightarrow> Reject (''runtime class '' @ quoted name @ '' referenced by node was not found'')
          | Some rc \<Rightarrow>
              if migrates \<and> \<not> unwrap_or False (map_option rcs_live_migration (rc_spec rc)) then
                Reject (''runtime class '' @ quoted name @ '' does not support live migration'')
              else Accept)"

section \<open>NodeAffinity and ShipAffinity\<close>

definition ship_affinity_of :: "scheduling_context \<Rightarrow> affinity option" where
  "ship_affinity_of ctx = Option.bind (ship_spec (ctx_ship ctx)) ss_affinity"

definition node_affinity_filter :: "scheduling_context \<Rightarrow> node \<Rightarrow> filter_result" where
  "node_affinity_filter ctx node =
     (case Option.bind (Option.bind (ship_affinity_of ctx) af_node_affinity) na_required of
        None \<Rightarrow> Accept
      | Some selector \<Rightarrow>
          if node_selector_matches selector (node_labels node) then Accept
          else Reject (''Ship node affinity is not satisfied for key '' @
            quoted (unwrap_or ''<unknown>'' (first_unsatisfied_node_selector_key selector (node_labels node)))))"

definition namespace_matches :: "ship \<Rightarrow> string \<Rightarrow> string list \<Rightarrow> bool" where
  "namespace_matches s current namespaces =
     (let ns = unwrap_or ''default'' (meta_namespace (ship_meta s)) in
      if namespaces = [] then ns = current else ns \<in> set namespaces)"

definition matching_scheduled_ships :: "scheduling_context \<Rightarrow> ship_affinity_term \<Rightarrow> ship list" where
  "matching_scheduled_ships ctx term =
     filter (\<lambda>s. is_some_and (\<lambda>n. n \<noteq> []) (assigned_node s)
               \<and> namespace_matches s (ship_namespace ctx) (sat_namespaces term)
               \<and> is_some_and (\<lambda>m. label_selector_matches (sat_label_selector term) (om_labels m)) (ship_meta s))
       (ctx_ships ctx)"

definition topology_value_of :: "scheduling_context \<Rightarrow> string \<Rightarrow> string \<Rightarrow> string option" where
  "topology_value_of ctx key node_name =
     Option.bind (find_named node_meta node_name (ctx_nodes ctx)) (\<lambda>n. map_of (node_labels n) key)"

definition matches_required_affinity_term :: "scheduling_context \<Rightarrow> ship_affinity_term \<Rightarrow> labels \<Rightarrow> bool" where
  "matches_required_affinity_term ctx term candidate_labels =
     (case map_of candidate_labels (sat_topology_key term) of
        None \<Rightarrow> False
      | Some v \<Rightarrow>
          (\<exists>peer \<in> set (matching_scheduled_ships ctx term).
             case assigned_node peer of
               None \<Rightarrow> False
             | Some n \<Rightarrow> topology_value_of ctx (sat_topology_key term) n = Some v))"

definition ship_affinity_filter :: "scheduling_context \<Rightarrow> node \<Rightarrow> filter_result" where
  "ship_affinity_filter ctx node = (case ship_affinity_of ctx of
     None \<Rightarrow> Accept
   | Some a \<Rightarrow>
       (let required = (case af_ship_affinity a of None \<Rightarrow> [] | Some x \<Rightarrow> sa_required x);
            forbidden = (case af_ship_anti_affinity a of None \<Rightarrow> [] | Some x \<Rightarrow> sa_required x)
        in case first_reject (\<lambda>t. if matches_required_affinity_term ctx t (node_labels node) then Accept
                  else Reject (''required Ship affinity is not satisfied for topology key '' @ quoted (sat_topology_key t))) required of
             Reject r \<Rightarrow> Reject r
           | Accept \<Rightarrow>
               first_reject (\<lambda>t. if matches_required_affinity_term ctx t (node_labels node)
                  then Reject (''required Ship anti-affinity is not satisfied for topology key '' @ quoted (sat_topology_key t))
                  else Accept) forbidden))"

section \<open>TopologySpread\<close>

text \<open>A \<^verbatim>\<open>HashMap<String, i64>\<close> of counts, with \<^verbatim>\<open>entry(..).or_insert(0)\<close> and its increment.\<close>

definition bucket_insert :: "string \<Rightarrow> (string \<times> int) list \<Rightarrow> (string \<times> int) list" where
  "bucket_insert v b = (if v \<in> fst ` set b then b else b @ [(v, 0)])"

definition bucket_incr :: "string \<Rightarrow> (string \<times> int) list \<Rightarrow> (string \<times> int) list" where
  "bucket_incr v b = map (\<lambda>(k, c). if k = v then (k, c + 1) else (k, c)) (bucket_insert v b)"

text \<open>Collecting into a \<^verbatim>\<open>HashMap\<close> keeps the last node of a name.\<close>

definition node_map :: "scheduling_context \<Rightarrow> string \<Rightarrow> node option" where
  "node_map ctx = map_of (rev (filter_map (\<lambda>n. map_option (\<lambda>name. (name, n)) (meta_name (node_meta n))) (ctx_nodes ctx)))"

definition spread_value :: "scheduling_context \<Rightarrow> topology_spread_constraint \<Rightarrow> ship \<Rightarrow> string option" where
  "spread_value ctx c s =
     (case filter_opt (\<lambda>n. n \<noteq> []) (assigned_node s) of
        None \<Rightarrow> None
      | Some n \<Rightarrow>
          if is_some_and (\<lambda>m. label_selector_matches (tsc_label_selector c) (om_labels m)) (ship_meta s)
          then Option.bind (node_map ctx n) (\<lambda>node. map_of (node_labels node) (tsc_topology_key c))
          else None)"

definition topology_buckets :: "scheduling_context \<Rightarrow> topology_spread_constraint \<Rightarrow> (string \<times> int) list" where
  "topology_buckets ctx c =
     (let b0 = fold (\<lambda>n b. case map_of (node_labels n) (tsc_topology_key c) of
                  None \<Rightarrow> b | Some v \<Rightarrow> bucket_insert v b) (ctx_nodes ctx) []
      in fold (\<lambda>s b. case spread_value ctx c s of None \<Rightarrow> b | Some v \<Rightarrow> bucket_incr v b) (ctx_ships ctx) b0)"

definition skew_if_scheduled :: "scheduling_context \<Rightarrow> node \<Rightarrow> topology_spread_constraint \<Rightarrow> int option" where
  "skew_if_scheduled ctx node c = (case map_of (node_labels node) (tsc_topology_key c) of
     None \<Rightarrow> None
   | Some v \<Rightarrow>
       (let b = topology_buckets ctx c in
        if b = [] then None
        else (let b' = bucket_incr v b in
              Some (unwrap_or 0 (map_of b' v) - Min (snd ` set b')))))"

definition topology_spread_filter :: "scheduling_context \<Rightarrow> node \<Rightarrow> filter_result" where
  "topology_spread_filter ctx node = (case ship_spec (ctx_ship ctx) of
     None \<Rightarrow> Accept
   | Some spec \<Rightarrow>
       first_reject (\<lambda>c.
          if tsc_when_unsatisfiable c \<noteq> ''DoNotSchedule'' then Accept
          else case skew_if_scheduled ctx node c of
            None \<Rightarrow> Reject (''topology spread key '' @ quoted (tsc_topology_key c) @ '' is missing on the candidate node'')
          | Some skew \<Rightarrow>
              if tsc_max_skew c < skew then
                Reject (''topology spread constraint '' @ quoted (tsc_topology_key c) @ '' would exceed maxSkew '' @ int_to_string (tsc_max_skew c))
              else Accept)
         (ss_topology_spread_constraints spec))"

section \<open>StorageFit, StorageBindingReady, VolumeTopology\<close>

definition name_or_unknown :: "object_meta option \<Rightarrow> string" where
  "name_or_unknown m = unwrap_or ''<unknown>'' (meta_name m)"

definition ship_requires_shared_storage :: "scheduling_context \<Rightarrow> bool" where
  "ship_requires_shared_storage ctx \<longleftrightarrow> Option.bind (scl_spec (ctx_ship_class ctx)) scs_migration \<noteq> None"

definition bound_pvc_pv_pairs :: "scheduling_context \<Rightarrow> (persistent_volume_claim \<times> persistent_volume) list" where
  "bound_pvc_pv_pairs ctx = (case ship_spec (ctx_ship ctx) of
     None \<Rightarrow> []
   | Some spec \<Rightarrow>
       filter_map (\<lambda>v.
          case Option.bind (sv_persistent_volume_claim v) (find_claim ctx) of
            None \<Rightarrow> None
          | Some pvc \<Rightarrow>
              (let pv_name = unwrap_or [] (Option.bind (pvc_spec pvc) pvcs_volume_name) in
               if pv_name = [] then None
               else map_option (\<lambda>pv. (pvc, pv)) (find_named pv_meta pv_name (ctx_pvs ctx))))
         (ss_volumes spec))"

definition storage_fit_filter :: "scheduling_context \<Rightarrow> node \<Rightarrow> filter_result" where
  "storage_fit_filter ctx node =
     (if \<not> ship_requires_shared_storage ctx then Accept
      else first_reject (\<lambda>(pvc, pv).
        if \<not> unwrap_or False (map_option (\<lambda>s. ''ReadWriteMany'' \<in> set (pvcs_access_modes s)) (pvc_spec pvc)) then
          Reject (''PersistentVolumeClaim '' @ quoted (name_or_unknown (pvc_meta pvc)) @ '' does not support '' @
            quoted ''ReadWriteMany'' @ ''; shared storage is required on all volumes because the ShipClass has migration enabled'')
        else case pv_spec pv of
          None \<Rightarrow> Accept
        | Some spec \<Rightarrow>
            if ''ReadWriteMany'' \<notin> set (pvs_access_modes spec) then
              Reject (''PersistentVolume '' @ quoted (name_or_unknown (pv_meta pv)) @ '' does not support '' @
                quoted ''ReadWriteMany'' @ ''; shared storage is required on all volumes because the ShipClass has migration enabled'')
            else Accept)
       (bound_pvc_pv_pairs ctx))"

definition selected_node :: "persistent_volume_claim \<Rightarrow> string option" where
  "selected_node pvc = filter_opt (\<lambda>v. v \<noteq> [])
     (Option.bind (pvc_meta pvc) (\<lambda>m. map_of (om_annotations m) ''volume.tugboat.cloud/selected-node''))"

definition storage_binding_ready_filter :: "scheduling_context \<Rightarrow> node \<Rightarrow> filter_result" where
  "storage_binding_ready_filter ctx node =
     first_reject (\<lambda>pvc. case pvc_spec pvc of
        None \<Rightarrow> Accept
      | Some spec \<Rightarrow>
          if is_some_and (\<lambda>v. v \<noteq> []) (pvcs_volume_name spec) then Accept
          else if is_some_and (\<lambda>n. n \<noteq> node_name_or [] node) (selected_node pvc) then
            Reject (''PersistentVolumeClaim '' @ quoted (name_or_unknown (pvc_meta pvc)) @
              '' is already selected for node '' @ quoted (the (selected_node pvc)))
          else case filter_opt (\<lambda>v. v \<noteq> []) (pvcs_storage_class_name spec) of
            None \<Rightarrow> Accept
          | Some sc_name \<Rightarrow>
              (case Option.bind (find_storage_class ctx sc_name) stc_spec of
                 None \<Rightarrow> Accept
               | Some sc \<Rightarrow>
                   if scs_volume_binding_mode sc \<noteq> Some ''WaitForFirstConsumer'' then Accept
                   else if \<not> topology_selector_terms_match (scs_allowed_topologies sc) (node_labels node) then
                     Reject (''PersistentVolumeClaim '' @ quoted (name_or_unknown (pvc_meta pvc)) @ '' StorageClass '' @
                       quoted sc_name @ '' allowedTopologies do not match the node'')
                   else Accept))
       (ship_persistent_volume_claims ctx)"

definition pv_topology_check :: "node \<Rightarrow> persistent_volume \<Rightarrow> filter_result" where
  "pv_topology_check node pv =
     (case Option.bind (Option.bind (pv_spec pv) pvs_node_affinity) id of
        None \<Rightarrow> Accept
      | Some selector \<Rightarrow>
          if node_selector_matches selector (node_labels node) then Accept
          else Reject (''PersistentVolume '' @ quoted (name_or_unknown (pv_meta pv)) @
            '' node affinity is not satisfied for key '' @
            quoted (unwrap_or ''<unknown>'' (first_unsatisfied_node_selector_key selector (node_labels node)))))"

definition pvc_topology_check :: "scheduling_context \<Rightarrow> node \<Rightarrow> persistent_volume_claim \<Rightarrow> filter_result" where
  "pvc_topology_check ctx node pvc =
     (if \<not> is_unbound_wffc_claim ctx pvc then Accept
      else case filter_opt (\<lambda>s. s \<noteq> []) (Option.bind (pvc_spec pvc) pvcs_storage_class_name) of
        None \<Rightarrow> Accept
      | Some sc_name \<Rightarrow>
          (case Option.bind (find_storage_class ctx sc_name) stc_spec of
             None \<Rightarrow> Accept
           | Some sc \<Rightarrow>
               if \<not> topology_selector_terms_match (scs_allowed_topologies sc) (node_labels node) then
                 Reject (''PersistentVolumeClaim '' @ quoted (name_or_unknown (pvc_meta pvc)) @ '' StorageClass '' @
                   quoted sc_name @ '' allowed topologies are not satisfied'')
               else Accept))"

definition volume_topology_filter :: "scheduling_context \<Rightarrow> node \<Rightarrow> filter_result" where
  "volume_topology_filter ctx node =
     (case first_reject (pv_topology_check node) (ship_bound_persistent_volumes ctx) of
        Reject r \<Rightarrow> Reject r
      | Accept \<Rightarrow> first_reject (pvc_topology_check ctx node) (ship_persistent_volume_claims ctx))"

section \<open>NetworkFit\<close>

record resolved_network_class =
  rn_spec :: network_class_spec
  rn_ready_nodes :: "string list option"

definition network_class_ref_name :: "scheduling_context \<Rightarrow> ship_network_class_reference \<Rightarrow> string" where
  "network_class_ref_name ctx r =
     (if sncr_kind r = ''NetworkClass'' then ship_namespace ctx @ ''/'' @ sncr_name r else sncr_name r)"

definition resolved_of :: "network_class \<Rightarrow> resolved_network_class option" where
  "resolved_of c = map_option (\<lambda>spec. \<lparr>rn_spec = spec,
     rn_ready_nodes = map_option ncst_ready_nodes (nwc_status c)\<rparr>) (nwc_spec c)"

definition resolve_network_class :: "scheduling_context \<Rightarrow> ship_network_class_reference \<Rightarrow> string + resolved_network_class" where
  "resolve_network_class ctx r =
     (if sncr_api_group r \<noteq> ''core'' \<and> sncr_api_group r \<noteq> [] then
        Inl (''network reference '' @ quoted (network_class_ref_name ctx r) @ '' uses unsupported apiGroup '' @ quoted (sncr_api_group r))
      else if sncr_kind r = ''ClusterNetworkClass'' then
        (case Option.bind (find_cluster_network_class ctx (sncr_name r)) resolved_of of
           Some x \<Rightarrow> Inr x
         | None \<Rightarrow> Inl (''cluster network class '' @ quoted (sncr_name r) @ '' was not found''))
      else if sncr_kind r = ''NetworkClass'' then
        (case Option.bind (find_network_class ctx (ship_namespace ctx) (sncr_name r)) resolved_of of
           Some x \<Rightarrow> Inr x
         | None \<Rightarrow> Inl (''network class '' @ quoted (ship_namespace ctx @ ''/'' @ sncr_name r) @ '' was not found''))
      else
        Inl (''network reference '' @ quoted (network_class_ref_name ctx r) @ '' uses unsupported kind '' @ quoted (sncr_kind r)))"

definition require_node_in_ready_nodes :: "node \<Rightarrow> resolved_network_class \<Rightarrow> ship_network_class_reference \<Rightarrow> string + unit" where
  "require_node_in_ready_nodes node nc r = (case rn_ready_nodes nc of
     None \<Rightarrow> Inr ()
   | Some ready \<Rightarrow>
       if ready = [] then Inl (''network reference '' @ quoted (sncr_name r) @ '' has no ready nodes'')
       else case meta_name (node_meta node) of
         None \<Rightarrow> Inl ''node has no metadata.name''
       | Some n \<Rightarrow>
           if n \<in> set ready then Inr ()
           else Inl (''network reference '' @ quoted (sncr_name r) @ '' is not ready on node '' @ quoted n))"

definition normalized_plugin :: "network_class_spec \<Rightarrow> string" where
  "normalized_plugin spec = (let p = trim (ncs_cni_plugin spec) in if p = [] then ''bridge'' else p)"

text \<open>A \<^verbatim>\<open>BTreeSet<String>\<close> is a sorted list without duplicates.\<close>

definition collect_required_plugins :: "string list \<Rightarrow> network_class_spec \<Rightarrow> ship_network_class_reference \<Rightarrow> string + string list" where
  "collect_required_plugins req spec r =
     (let plugin = normalized_plugin spec in
      if eq_ignore_ascii_case plugin ''bridge'' then Inr (insort_insert ''bridge'' req)
      else if eq_ignore_ascii_case plugin ''flannel'' then
        (let req' = insort_insert ''flannel'' (insort_insert ''bridge'' req) in
         if unwrap_or False (Option.bind (ncs_flannel spec) fl_port_mappings)
         then Inr (insort_insert ''portmap'' req') else Inr req')
      else Inl (''network reference '' @ quoted (sncr_name r) @ '' requests unsupported cniPlugin '' @ quoted plugin))"

definition require_plugin_ready :: "node_cni_plugin_status list \<Rightarrow> string \<Rightarrow> string + unit" where
  "require_plugin_ready statuses plugin = (case find (\<lambda>s. ncp_name s = plugin) statuses of
     None \<Rightarrow> Inl (''node does not advertise required CNI plugin '' @ quoted plugin)
   | Some s \<Rightarrow>
       if unwrap_or False (ncp_ready s) then Inr ()
       else if ncp_message s = [] then Inl (''required CNI plugin '' @ quoted plugin @ '' is not ready'')
       else Inl (''required CNI plugin '' @ quoted plugin @ '' is not ready: '' @ ncp_message s))"

fun collect_network_refs :: "scheduling_context \<Rightarrow> node \<Rightarrow> string list \<Rightarrow> ship_network_class_reference list \<Rightarrow> string + string list" where
  "collect_network_refs ctx node req [] = Inr req"
| "collect_network_refs ctx node req (r # rs) =
     (case resolve_network_class ctx r of
        Inl e \<Rightarrow> Inl e
      | Inr nc \<Rightarrow>
          (case collect_required_plugins req (rn_spec nc) r of
             Inl e \<Rightarrow> Inl e
           | Inr req' \<Rightarrow>
               (case require_node_in_ready_nodes node nc r of
                  Inl e \<Rightarrow> Inl e
                | Inr _ \<Rightarrow> collect_network_refs ctx node req' rs)))"

definition ship_network_refs :: "scheduling_context \<Rightarrow> ship_network_class_reference list" where
  "ship_network_refs ctx = (case ship_spec (ctx_ship ctx) of None \<Rightarrow> [] | Some s \<Rightarrow> ss_network_class_ref s)"

definition network_fit_filter :: "scheduling_context \<Rightarrow> node \<Rightarrow> filter_result" where
  "network_fit_filter ctx node = (case node_status node of
     None \<Rightarrow> Reject ''node has no published network status''
   | Some status \<Rightarrow>
       (case collect_network_refs ctx node [''loopback''] (ship_network_refs ctx) of
          Inl e \<Rightarrow> Reject e
        | Inr req \<Rightarrow>
            first_reject (\<lambda>p. case require_plugin_ready (nst_cni_plugins status) p of
               Inl e \<Rightarrow> Reject e | Inr _ \<Rightarrow> Accept) req))"

end
