(* ===== verification/Cluster_Examples.thy ===== *)
theory Cluster_Examples
  imports Sched_Context
begin

text \<open>
  Small cluster objects at which the properties of the scheduler are instantiated: nodes without
  taints and with a ready loopback plugin, Ships of a class, and a context over them.
\<close>

definition named_meta :: "string \<Rightarrow> object_meta" where
  "named_meta n = object_meta_default\<lparr>om_name := Some n\<rparr>"

definition namespaced_meta :: "string \<Rightarrow> string \<Rightarrow> object_meta" where
  "namespaced_meta ns n = object_meta_default\<lparr>om_name := Some n, om_namespace := Some ns\<rparr>"

definition example_node :: "string \<Rightarrow> labels \<Rightarrow> nat \<Rightarrow> nat \<Rightarrow> taint list \<Rightarrow> string list \<Rightarrow> node" where
  "example_node n ls cpu mem taints images =
     \<lparr>node_meta = Some ((named_meta n)\<lparr>om_labels := ls\<rparr>),
      node_spec = Some \<lparr>nsp_overcommit = None, nsp_ips = [], nsp_resource = Some \<lparr>nr_cpu = cpu, nr_memory = mem\<rparr>,
        nsp_taints = taints, nsp_unschedulable = None\<rparr>,
      node_status = Some \<lparr>nst_conditions = [],
        nst_cni_plugins = [\<lparr>ncp_name = ''loopback'', ncp_ready = Some True, ncp_message = []\<rparr>],
        nst_images = map (\<lambda>i. \<lparr>nis_image = i, nis_size_bytes = None\<rparr>) images\<rparr>\<rparr>"

definition example_class :: "string \<Rightarrow> nat \<Rightarrow> string \<Rightarrow> ship_class" where
  "example_class n cores mem =
     \<lparr>scl_meta = Some (named_meta n),
      scl_spec = Some \<lparr>scs_cpu = Some \<lparr>cpu_architecture = ''amd64'', cpu_cores = cores\<rparr>,
        scs_memory = Some mem, scs_migration = None\<rparr>\<rparr>"

definition example_ship :: "string \<Rightarrow> string \<Rightarrow> string option \<Rightarrow> ship" where
  "example_ship n cls on_node =
     \<lparr>ship_meta = Some (namespaced_meta ''default'' n),
      ship_spec = Some (ship_spec_default\<lparr>ss_image := ''img'', ss_ship_class := cls, ss_node_name := on_node\<rparr>),
      ship_status = None\<rparr>"

definition example_context :: "ship \<Rightarrow> ship_class \<Rightarrow> ship list \<Rightarrow> node list \<Rightarrow> scheduling_context" where
  "example_context s c ships nodes =
     \<lparr>ctx_ship = s, ctx_ship_class = c, ctx_cluster_network_classes = [], ctx_network_classes = [],
      ctx_runtime_classes = [], ctx_ships = ships, ctx_nodes = nodes, ctx_ship_classes = [c],
      ctx_pvcs = [], ctx_pvs = [], ctx_storage_classes = []\<rparr>"

lemmas example_defs = named_meta_def namespaced_meta_def example_node_def example_class_def
  example_ship_def example_context_def object_meta_default_def ship_spec_default_def

lemma example_context_simps [simp]:
  "ctx_ship (example_context s c ships nodes) = s"
  "ctx_ships (example_context s c ships nodes) = ships"
  "ctx_nodes (example_context s c ships nodes) = nodes"
  by (simp_all add: example_context_def)

lemma assigned_example [simp]: "assigned_node (example_ship n cls p) = p"
  by (simp add: assigned_node_def example_ship_def)

lemma example_ship_simps [simp]:
  "meta_name (ship_meta (example_ship n cls p)) = Some n"
  "meta_namespace (ship_meta (example_ship n cls p)) = Some ''default''"
  "Option.bind (ship_spec (example_ship n cls p)) ss_runtime_class = None"
  "Option.bind (ship_spec (example_ship n cls p)) ss_scheduler_name = None"
  by (simp_all add: example_defs)

lemma example_node_simps [simp]: "meta_name (node_meta (example_node n ls cpu mem taints images)) = Some n"
  by (simp add: example_defs)

end
