(* ===== verification/Filter_Specs.thy ===== *)
theory Filter_Specs
  imports Sched_Filters Cluster_Examples
begin

text \<open>
  What acceptance by each filter plugin means, in terms of the cluster and not of the plugin's
  loops.  The collection \<open>filter_specs\<close> holds one characterisation per plugin.
\<close>

named_theorems filter_specs "what acceptance by a filter plugin means"

section \<open>Resources and taints\<close>

lemma unschedulable_accept [filter_specs]:
  "unschedulable_filter ctx node = Accept \<longleftrightarrow>
     Option.bind (node_spec node) nsp_unschedulable \<noteq> Some True"
  by (cases "Option.bind (node_spec node) nsp_unschedulable") (auto simp: unschedulable_filter_def)

lemma taint_toleration_accept [filter_specs]:
  "taint_toleration_filter ctx node = Accept \<longleftrightarrow>
     (\<forall>t \<in> set (node_taints node).
        ta_effect t = ''NoSchedule'' \<longrightarrow> (\<exists>tol \<in> set (ship_tolerations ctx). toleration_matches_taint tol t))"
  by (auto simp: taint_toleration_filter_def ship_tolerates_taint_def)

lemma sat_fit_iff:
  fixes r a u :: nat
  assumes "a \<le> u64_max"
  shows "a - min u64_max u < r \<longleftrightarrow> r \<noteq> 0 \<and> \<not> u + r \<le> a"
  using assms by (auto simp: min_def)

lemma resource_fit_iff [filter_specs]:
  "resource_fit_filter ctx node = Accept \<longleftrightarrow>
     (let n = node_name_or ''unknown'' node;
          (alloc_cpu, alloc_memory) = node_allocatable node;
          (req_cpu, req_memory) = requested_resources ctx
      in (req_cpu = 0 \<or> (\<Sum>s \<leftarrow> ships_on ctx n. fst (ship_demand ctx s)) + req_cpu \<le> alloc_cpu) \<and>
         (req_memory = 0 \<or> (\<Sum>s \<leftarrow> ships_on ctx n. snd (ship_demand ctx s)) + req_memory \<le> alloc_memory))"
proof -
  obtain ac am rc rm where a: "node_allocatable node = (ac, am)" and r: "requested_resources ctx = (rc, rm)"
    by fastforce
  have b: "ac \<le> u64_max" "am \<le> u64_max" using node_allocatable_le [of node] by (simp_all add: a)
  show ?thesis
    by (simp add: resource_fit_filter_def a r node_resource_usage_sum u64_sat_sub_def Let_def
        sat_fit_iff [OF b(1)] sat_fit_iff [OF b(2)])
qed

text \<open>
  C24: The filter \<^verbatim>\<open>ResourceFit\<close> accepts a node exactly when, for CPU and for memory, the Ship
  requests nothing or the exact sum of what the Ships on the node demand plus the request is within
  the node's allocatable capacity.  Saturation of the 64-bit sums never lets a Ship through.
\<close>

theorem resource_fit_accept:
  "resource_fit_filter ctx node = Accept \<longleftrightarrow>
     (let n = node_name_or ''unknown'' node;
          (alloc_cpu, alloc_memory) = node_allocatable node;
          (req_cpu, req_memory) = requested_resources ctx
      in (req_cpu = 0 \<or> (\<Sum>s \<leftarrow> ships_on ctx n. fst (ship_demand ctx s)) + req_cpu \<le> alloc_cpu) \<and>
         (req_memory = 0 \<or> (\<Sum>s \<leftarrow> ships_on ctx n. snd (ship_demand ctx s)) + req_memory \<le> alloc_memory))"
  by (rule resource_fit_iff)

section \<open>Affinity\<close>

lemma node_affinity_accept [filter_specs]:
  "node_affinity_filter ctx node = Accept \<longleftrightarrow>
     (\<forall>sel. Option.bind (Option.bind (ship_affinity_of ctx) af_node_affinity) na_required = Some sel \<longrightarrow>
        node_selector_matches sel (node_labels node))"
  by (auto simp: node_affinity_filter_def split: option.splits)

text \<open>The topology domain of a node shares a matching scheduled Ship with the term.\<close>

definition domain_has_peer :: "scheduling_context \<Rightarrow> ship_affinity_term \<Rightarrow> node \<Rightarrow> bool" where
  "domain_has_peer ctx t node \<longleftrightarrow>
     (\<exists>peer \<in> set (matching_scheduled_ships ctx t). \<exists>n v.
        assigned_node peer = Some n \<and> map_of (node_labels node) (sat_topology_key t) = Some v \<and>
        topology_value_of ctx (sat_topology_key t) n = Some v)"

lemma matches_required_iff:
  "matches_required_affinity_term ctx t (node_labels node) \<longleftrightarrow> domain_has_peer ctx t node"
  by (auto simp: matches_required_affinity_term_def domain_has_peer_def split: option.splits)

definition required_terms :: "scheduling_context \<Rightarrow> ship_affinity_term list" where
  "required_terms ctx = (case Option.bind (ship_affinity_of ctx) af_ship_affinity of
     None \<Rightarrow> [] | Some x \<Rightarrow> sa_required x)"

definition forbidden_terms :: "scheduling_context \<Rightarrow> ship_affinity_term list" where
  "forbidden_terms ctx = (case Option.bind (ship_affinity_of ctx) af_ship_anti_affinity of
     None \<Rightarrow> [] | Some x \<Rightarrow> sa_required x)"

lemma ship_affinity_accept [filter_specs]:
  "ship_affinity_filter ctx node = Accept \<longleftrightarrow>
     (\<forall>t \<in> set (required_terms ctx). domain_has_peer ctx t node) \<and>
     (\<forall>t \<in> set (forbidden_terms ctx). \<not> domain_has_peer ctx t node)"
  by (cases "ship_affinity_of ctx")
    (auto simp: ship_affinity_filter_def required_terms_def forbidden_terms_def matches_required_iff
      Let_def split: option.splits)

section \<open>Topology spread\<close>

text \<open>
  The domains of a constraint are the values its key takes on the nodes; the load of a domain is the
  number of matching Ships assigned to its nodes.
\<close>

definition spread_domains :: "scheduling_context \<Rightarrow> topology_spread_constraint \<Rightarrow> string set" where
  "spread_domains ctx c = {v. \<exists>n \<in> set (ctx_nodes ctx). map_of (node_labels n) (tsc_topology_key c) = Some v}"

definition spread_load :: "scheduling_context \<Rightarrow> topology_spread_constraint \<Rightarrow> string \<Rightarrow> int" where
  "spread_load ctx c v = int (length (filter (\<lambda>s. spread_value ctx c s = Some v) (ctx_ships ctx)))"

text \<open>A bucket list represents a finite map from domains to loads.\<close>

definition represents :: "(string \<times> int) list \<Rightarrow> string set \<Rightarrow> (string \<Rightarrow> int) \<Rightarrow> bool" where
  "represents b D f \<longleftrightarrow> distinct (map fst b) \<and> set b = (\<lambda>v. (v, f v)) ` D"

lemma represents_keys: "represents b D f \<Longrightarrow> fst ` set b = D"
  by (force simp: represents_def)

lemma represents_lookup: "represents b D f \<Longrightarrow> v \<in> D \<Longrightarrow> map_of b v = Some (f v)"
  by (auto simp: represents_def intro!: map_of_is_SomeI)

lemma represents_values: "represents b D f \<Longrightarrow> snd ` set b = f ` D"
  by (force simp: represents_def)

lemma represents_insert:
  assumes "represents b D f" and "f v = 0 \<or> v \<in> D"
  shows "represents (bucket_insert v b) (insert v D) f"
proof (cases "v \<in> D")
  case True
  then show ?thesis
    using assms(1) represents_keys [OF assms(1)] by (simp add: bucket_insert_def insert_absorb)
next
  case False
  then show ?thesis
    using assms represents_keys [OF assms(1)] by (auto simp: bucket_insert_def represents_def)
qed

lemma represents_incr:
  assumes "represents b D f" and "f v = 0 \<or> v \<in> D"
  shows "represents (bucket_incr v b) (insert v D) (f(v := f v + 1))"
proof -
  have r: "represents (bucket_insert v b) (insert v D) f" using assms by (rule represents_insert)
  have keys: "map fst (bucket_incr v b) = map fst (bucket_insert v b)"
    by (simp add: bucket_incr_def case_prod_beta)
  have "set (bucket_incr v b) = (\<lambda>(k, c). if k = v then (k, c + 1) else (k, c)) ` set (bucket_insert v b)"
    by (simp add: bucket_incr_def)
  also have "\<dots> = (\<lambda>k. (k, (f(v := f v + 1)) k)) ` insert v D"
    using r by (auto simp: represents_def image_iff split: if_splits)
  finally show ?thesis using r by (simp add: represents_def keys)
qed

lemma represents_nodes:
  assumes "represents b D f" and "\<forall>v. v \<notin> D \<longrightarrow> f v = 0"
  shows "represents (fold (\<lambda>n b. case map_of (node_labels n) key of None \<Rightarrow> b | Some v \<Rightarrow> bucket_insert v b) ns b)
           (D \<union> {v. \<exists>n \<in> set ns. map_of (node_labels n) key = Some v}) f"
  using assms
proof (induction ns arbitrary: b D)
  case (Cons n ns)
  show ?case
  proof (cases "map_of (node_labels n) key")
    case None
    then show ?thesis using Cons by simp
  next
    case (Some v)
    have "represents (bucket_insert v b) (insert v D) f"
      using Cons.prems by (intro represents_insert) auto
    then have "represents (fold (\<lambda>n b. case map_of (node_labels n) key of None \<Rightarrow> b | Some v \<Rightarrow> bucket_insert v b) ns
        (bucket_insert v b)) (insert v D \<union> {v. \<exists>n \<in> set ns. map_of (node_labels n) key = Some v}) f"
      using Cons.prems(2) by (intro Cons.IH) auto
    moreover have "insert v D \<union> {v. \<exists>n \<in> set ns. map_of (node_labels n) key = Some v} =
        D \<union> {v. \<exists>n \<in> set (n # ns). map_of (node_labels n) key = Some v}"
      using Some by auto
    ultimately show ?thesis using Some by simp
  qed
qed simp

lemma represents_ships:
  assumes "represents b D f" and "\<forall>s \<in> set ss. \<forall>v. g s = Some v \<longrightarrow> v \<in> D"
  shows "represents (fold (\<lambda>s b. case g s of None \<Rightarrow> b | Some v \<Rightarrow> bucket_incr v b) ss b) D
           (\<lambda>v. f v + int (length (filter (\<lambda>s. g s = Some v) ss)))"
  using assms
proof (induction ss arbitrary: b f)
  case (Cons s ss)
  show ?case
  proof (cases "g s")
    case None
    then show ?thesis using Cons by simp
  next
    case (Some v)
    have vD: "v \<in> D" using Cons.prems(2) Some by simp
    then have "represents (bucket_incr v b) D (f(v := f v + 1))"
      using represents_incr [OF Cons.prems(1), of v] by (simp add: insert_absorb)
    then have "represents (fold (\<lambda>s b. case g s of None \<Rightarrow> b | Some v \<Rightarrow> bucket_incr v b) ss (bucket_incr v b)) D
        (\<lambda>u. (f(v := f v + 1)) u + int (length (filter (\<lambda>s. g s = Some u) ss)))"
      using Cons.prems(2) by (intro Cons.IH) (simp_all del: fun_upd_apply)
    moreover have "(\<lambda>u. (f(v := f v + 1)) u + int (length (filter (\<lambda>s. g s = Some u) ss))) =
        (\<lambda>u. f u + int (length (filter (\<lambda>s. g s = Some u) (s # ss))))"
      using Some by (auto simp: fun_eq_iff)
    ultimately show ?thesis using Some by simp
  qed
qed simp

lemma node_map_in_nodes: "node_map ctx n = Some node \<Longrightarrow> node \<in> set (ctx_nodes ctx)"
  by (auto simp: node_map_def set_filter_map dest!: map_of_SomeD)

lemma spread_value_in_domain: "spread_value ctx c s = Some v \<Longrightarrow> v \<in> spread_domains ctx c"
  by (auto simp: spread_value_def spread_domains_def bind_eq_Some_conv split: option.splits if_splits
      dest: node_map_in_nodes)

lemma topology_buckets_represent:
  "represents (topology_buckets ctx c) (spread_domains ctx c) (spread_load ctx c)"
proof -
  have e: "represents [] {} (\<lambda>_. 0)" by (simp add: represents_def)
  have "represents (fold (\<lambda>n b. case map_of (node_labels n) (tsc_topology_key c) of None \<Rightarrow> b | Some v \<Rightarrow> bucket_insert v b)
      (ctx_nodes ctx) []) (spread_domains ctx c) (\<lambda>_. 0)"
    using represents_nodes [OF e, of "tsc_topology_key c" "ctx_nodes ctx"] by (simp add: spread_domains_def)
  from represents_ships [OF this, of "ctx_ships ctx" "spread_value ctx c"] show ?thesis
    by (simp add: topology_buckets_def spread_load_def [abs_def] spread_value_in_domain)
qed

lemma spread_load_outside: "v \<notin> spread_domains ctx c \<Longrightarrow> spread_load ctx c v = 0"
  by (auto simp: spread_load_def filter_empty_conv dest: spread_value_in_domain)

lemma finite_spread_domains [simp]: "finite (spread_domains ctx c)"
proof -
  have "fst ` set (topology_buckets ctx c) = spread_domains ctx c"
    using topology_buckets_represent by (rule represents_keys)
  then show ?thesis by (metis List.finite_set finite_imageI)
qed

lemma in_spread_domains:
  "node \<in> set (ctx_nodes ctx) \<Longrightarrow> map_of (node_labels node) (tsc_topology_key c) = Some v \<Longrightarrow>
   v \<in> spread_domains ctx c"
  by (auto simp: spread_domains_def)

lemma skew_if_scheduled_spec:
  assumes node: "node \<in> set (ctx_nodes ctx)"
    and v: "map_of (node_labels node) (tsc_topology_key c) = Some v"
  shows "skew_if_scheduled ctx node c =
    Some (spread_load ctx c v + 1 -
      Min ((\<lambda>u. if u = v then spread_load ctx c v + 1 else spread_load ctx c u) ` spread_domains ctx c))"
proof -
  let ?f = "(spread_load ctx c)(v := spread_load ctx c v + 1)"
  have vD: "v \<in> spread_domains ctx c" using in_spread_domains node v by blast
  have rep: "represents (topology_buckets ctx c) (spread_domains ctx c) (spread_load ctx c)"
    by (rule topology_buckets_represent)
  have ne: "topology_buckets ctx c \<noteq> []" using represents_keys [OF rep] vD by auto
  have rep': "represents (bucket_incr v (topology_buckets ctx c)) (spread_domains ctx c) ?f"
    using represents_incr [OF rep, of v] vD by (simp add: insert_absorb del: fun_upd_apply)
  have "?f = (\<lambda>u. if u = v then spread_load ctx c v + 1 else spread_load ctx c u)" by auto
  then show ?thesis
    using v ne represents_values [OF rep'] represents_lookup [OF rep' vD]
    by (simp add: skew_if_scheduled_def Let_def)
qed

lemma topology_spread_iff [filter_specs]:
  assumes "node \<in> set (ctx_nodes ctx)"
  shows "topology_spread_filter ctx node = Accept \<longleftrightarrow>
    (\<forall>spec. ship_spec (ctx_ship ctx) = Some spec \<longrightarrow>
      (\<forall>c \<in> set (ss_topology_spread_constraints spec). tsc_when_unsatisfiable c = ''DoNotSchedule'' \<longrightarrow>
        (\<exists>v. map_of (node_labels node) (tsc_topology_key c) = Some v \<and> 0 \<le> tsc_max_skew c \<and>
          (\<forall>u \<in> spread_domains ctx c - {v}.
             spread_load ctx c v + 1 - spread_load ctx c u \<le> tsc_max_skew c))))"
proof -
  have one: "(case skew_if_scheduled ctx node c of None \<Rightarrow> False | Some k \<Rightarrow> \<not> tsc_max_skew c < k) \<longleftrightarrow>
      (\<exists>v. map_of (node_labels node) (tsc_topology_key c) = Some v \<and> 0 \<le> tsc_max_skew c \<and>
          (\<forall>u \<in> spread_domains ctx c - {v}.
             spread_load ctx c v + 1 - spread_load ctx c u \<le> tsc_max_skew c))" for c
  proof (cases "map_of (node_labels node) (tsc_topology_key c)")
    case None
    then show ?thesis by (simp add: skew_if_scheduled_def)
  next
    case (Some v)
    have vD: "v \<in> spread_domains ctx c" using in_spread_domains assms Some by blast
    let ?g = "\<lambda>u. if u = v then spread_load ctx c v + 1 else spread_load ctx c u"
    have "\<not> tsc_max_skew c < spread_load ctx c v + 1 - Min (?g ` spread_domains ctx c) \<longleftrightarrow>
        spread_load ctx c v + 1 - tsc_max_skew c \<le> Min (?g ` spread_domains ctx c)"
      by linarith
    also have "\<dots> \<longleftrightarrow> (\<forall>u \<in> spread_domains ctx c. spread_load ctx c v + 1 - tsc_max_skew c \<le> ?g u)"
      using vD by (subst Min_ge_iff) auto
    also have "\<dots> \<longleftrightarrow> 0 \<le> tsc_max_skew c \<and> (\<forall>u \<in> spread_domains ctx c - {v}.
             spread_load ctx c v + 1 - spread_load ctx c u \<le> tsc_max_skew c)"
      using vD by (auto simp: algebra_simps split: if_splits)
    finally show ?thesis using skew_if_scheduled_spec [OF assms Some] Some by simp
  qed
  have "(case skew_if_scheduled ctx node c of
            None \<Rightarrow> Reject (''topology spread key '' @ quoted (tsc_topology_key c) @ '' is missing on the candidate node'')
          | Some skew \<Rightarrow>
              if tsc_max_skew c < skew then
                Reject (''topology spread constraint '' @ quoted (tsc_topology_key c) @ '' would exceed maxSkew '' @ int_to_string (tsc_max_skew c))
              else Accept) = Accept \<longleftrightarrow>
       (case skew_if_scheduled ctx node c of None \<Rightarrow> False | Some k \<Rightarrow> \<not> tsc_max_skew c < k)" for c
    by (simp split: option.split)
  then show ?thesis
    unfolding one by (cases "ship_spec (ctx_ship ctx)") (auto simp: topology_spread_filter_def)
qed

text \<open>
  C25: On a node of the cluster the filter \<^verbatim>\<open>TopologySpread\<close> accepts exactly when, for every
  \<^verbatim>\<open>DoNotSchedule\<close> constraint, the node has the topology key and, with the Ship placed there, its
  domain would exceed no other domain of the cluster by more than \<^verbatim>\<open>maxSkew\<close> matching Ships.
\<close>

theorem topology_spread_accept:
  assumes "node \<in> set (ctx_nodes ctx)"
  shows "topology_spread_filter ctx node = Accept \<longleftrightarrow>
    (\<forall>spec. ship_spec (ctx_ship ctx) = Some spec \<longrightarrow>
      (\<forall>c \<in> set (ss_topology_spread_constraints spec). tsc_when_unsatisfiable c = ''DoNotSchedule'' \<longrightarrow>
        (\<exists>v. map_of (node_labels node) (tsc_topology_key c) = Some v \<and> 0 \<le> tsc_max_skew c \<and>
          (\<forall>u \<in> spread_domains ctx c - {v}.
             spread_load ctx c v + 1 - spread_load ctx c u \<le> tsc_max_skew c))))"
  using assms by (rule topology_spread_iff)

definition zone_constraint :: topology_spread_constraint where
  "zone_constraint = \<lparr>tsc_max_skew = 1, tsc_topology_key = ''zone'', tsc_when_unsatisfiable = ''DoNotSchedule'',
     tsc_label_selector = None\<rparr>"

definition spread_ship :: ship where
  "spread_ship = (let s = example_ship ''s'' ''c'' None in
     s\<lparr>ship_spec := map_option (\<lambda>sp. sp\<lparr>ss_topology_spread_constraints := [zone_constraint]\<rparr>) (ship_spec s)\<rparr>)"

theorem topology_spread_accept_witness:
  "topology_spread_filter
     (example_context spread_ship (example_class ''c'' 2 []) [example_ship ''t'' ''c'' (Some ''n1'')]
       [example_node ''n1'' [(''zone'', ''a'')] 4 4 [] [], example_node ''n2'' [(''zone'', ''b'')] 4 4 [] []])
     (example_node ''n2'' [(''zone'', ''b'')] 4 4 [] []) = Accept \<and>
   topology_spread_filter
     (example_context spread_ship (example_class ''c'' 2 []) [example_ship ''t'' ''c'' (Some ''n1'')]
       [example_node ''n1'' [(''zone'', ''a'')] 4 4 [] [], example_node ''n2'' [(''zone'', ''b'')] 4 4 [] []])
     (example_node ''n1'' [(''zone'', ''a'')] 4 4 [] []) \<noteq> Accept"
proof -
  let ?a = "example_node ''n1'' [(''zone'', ''a'')] 4 4 [] []" and ?b = "example_node ''n2'' [(''zone'', ''b'')] 4 4 [] []"
  let ?ctx = "example_context spread_ship (example_class ''c'' 2 []) [example_ship ''t'' ''c'' (Some ''n1'')] [?a, ?b]"
  have l: "node_labels ?a = [(''zone'', ''a'')]" "node_labels ?b = [(''zone'', ''b'')]"
    by (simp_all add: node_labels_def meta_labels_def example_defs)
  have d: "spread_domains ?ctx zone_constraint = {''a'', ''b''}"
    by (auto simp: spread_domains_def l zone_constraint_def)
  have v: "spread_value ?ctx zone_constraint (example_ship ''t'' ''c'' (Some ''n1'')) = Some ''a''"
    by (simp add: spread_value_def node_map_def node_labels_def meta_labels_def meta_name_def zone_constraint_def
        label_selector_matches_def assigned_node_def example_defs)
  have z: "tsc_max_skew zone_constraint = 1" "tsc_topology_key zone_constraint = ''zone''"
    "tsc_when_unsatisfiable zone_constraint = ''DoNotSchedule''"
    by (simp_all add: zone_constraint_def)
  obtain spec where sp: "ship_spec spread_ship = Some spec" "ss_topology_spread_constraints spec = [zone_constraint]"
    by (simp add: spread_ship_def example_ship_def)
  show ?thesis
    using topology_spread_accept [of ?b ?ctx] topology_spread_accept [of ?a ?ctx]
    by (simp add: spread_load_def d v l z sp)
qed

section \<open>Storage\<close>

lemma storage_fit_accept [filter_specs]:
  "storage_fit_filter ctx node = Accept \<longleftrightarrow>
     (ship_requires_shared_storage ctx \<longrightarrow>
       (\<forall>(pvc, pv) \<in> set (bound_pvc_pv_pairs ctx).
          (\<exists>s. pvc_spec pvc = Some s \<and> ''ReadWriteMany'' \<in> set (pvcs_access_modes s)) \<and>
          (\<forall>s. pv_spec pv = Some s \<longrightarrow> ''ReadWriteMany'' \<in> set (pvs_access_modes s))))"
  by (fastforce simp: storage_fit_filter_def unwrap_or_def split: option.splits)

text \<open>The claims of the Ship that still wait for a volume.\<close>

definition claim_unbound :: "persistent_volume_claim \<Rightarrow> bool" where
  "claim_unbound pvc \<longleftrightarrow> (\<exists>s. pvc_spec pvc = Some s \<and> unwrap_or [] (pvcs_volume_name s) = [])"

definition allowed_on :: "scheduling_context \<Rightarrow> persistent_volume_claim \<Rightarrow> node \<Rightarrow> bool" where
  "allowed_on ctx pvc node \<longleftrightarrow>
     (\<forall>spec sc_name sc. pvc_spec pvc = Some spec \<and> pvcs_storage_class_name spec = Some sc_name \<and> sc_name \<noteq> [] \<and>
        Option.bind (find_storage_class ctx sc_name) stc_spec = Some sc \<longrightarrow>
        scs_volume_binding_mode sc = Some ''WaitForFirstConsumer'' \<longrightarrow>
        topology_selector_terms_match (scs_allowed_topologies sc) (node_labels node))"

lemma storage_binding_ready_accept [filter_specs]:
  "storage_binding_ready_filter ctx node = Accept \<longleftrightarrow>
     (\<forall>pvc \<in> set (ship_persistent_volume_claims ctx). claim_unbound pvc \<longrightarrow>
        (\<forall>n. selected_node pvc = Some n \<longrightarrow> n = node_name_or [] node) \<and> allowed_on ctx pvc node)"
  unfolding storage_binding_ready_filter_def first_reject_Accept claim_unbound_def
  by (intro ball_cong refl)
    (auto simp: allowed_on_def is_some_and_def filter_opt_def unwrap_or_def split: option.splits)

lemma pvc_topology_check_accept:
  "pvc_topology_check ctx node pvc = Accept \<longleftrightarrow> (claim_unbound pvc \<longrightarrow> allowed_on ctx pvc node)"
  by (auto simp: pvc_topology_check_def is_unbound_wffc_claim_def claim_unbound_def allowed_on_def
      is_some_and_def filter_opt_def unwrap_or_def simp del: Option.bind_assoc split: option.splits)

lemma pv_topology_check_accept:
  "pv_topology_check node pv = Accept \<longleftrightarrow>
     (\<forall>spec sel. pv_spec pv = Some spec \<and> pvs_node_affinity spec = Some (Some sel) \<longrightarrow>
        node_selector_matches sel (node_labels node))"
  by (auto simp: pv_topology_check_def bind_eq_Some_conv split: option.splits)

lemma volume_topology_accept [filter_specs]:
  "volume_topology_filter ctx node = Accept \<longleftrightarrow>
     (\<forall>pv \<in> set (ship_bound_persistent_volumes ctx). \<forall>spec sel.
        pv_spec pv = Some spec \<and> pvs_node_affinity spec = Some (Some sel) \<longrightarrow>
        node_selector_matches sel (node_labels node)) \<and>
     (\<forall>pvc \<in> set (ship_persistent_volume_claims ctx). claim_unbound pvc \<longrightarrow> allowed_on ctx pvc node)"
  by (simp add: volume_topology_filter_def pv_topology_check_accept pvc_topology_check_accept)

section \<open>Runtime class and network\<close>

lemma runtime_class_fit_accept [filter_specs]:
  "runtime_class_fit_filter ctx node = Accept \<longleftrightarrow>
     requested_runtime_class ctx = None \<and> \<not> ship_requires_live_migration ctx \<or>
     (\<exists>name rc. node_runtime_class_name node = Some name \<and> requested_runtime_class ctx \<in> {None, Some name} \<and>
        find_runtime_class ctx name = Some rc \<and>
        (ship_requires_live_migration ctx \<longrightarrow> (\<exists>s. rc_spec rc = Some s \<and> rcs_live_migration s)))"
  by (auto simp: runtime_class_fit_filter_def Let_def is_some_and_def unwrap_or_def split: option.splits)

definition plugin_ready :: "node \<Rightarrow> string \<Rightarrow> bool" where
  "plugin_ready node p \<longleftrightarrow> (\<exists>status s. node_status node = Some status \<and>
     find (\<lambda>s. ncp_name s = p) (nst_cni_plugins status) = Some s \<and> ncp_ready s = Some True)"

definition ready_for :: "scheduling_context \<Rightarrow> node \<Rightarrow> ship_network_class_reference \<Rightarrow> bool" where
  "ready_for ctx node r \<longleftrightarrow> (\<exists>nc ps. resolve_network_class ctx r = Inr nc \<and>
     (\<forall>ready. rn_ready_nodes nc = Some ready \<longrightarrow> (\<exists>n. meta_name (node_meta node) = Some n \<and> n \<in> set ready)) \<and>
     collect_required_plugins [] (rn_spec nc) r = Inr ps \<and> (\<forall>p \<in> set ps. plugin_ready node p))"

lemma collect_required_plugins_set:
  "(\<exists>req'. collect_required_plugins req spec r = Inr req' \<and> Q (set req')) \<longleftrightarrow>
   (\<exists>ps. collect_required_plugins [] spec r = Inr ps \<and> Q (set ps \<union> set req))"
  by (simp add: collect_required_plugins_def Let_def set_insort_insert insert_commute)

lemma require_node_in_ready_nodes_ok:
  "require_node_in_ready_nodes node nc r = Inr u \<longleftrightarrow>
     (\<forall>ready. rn_ready_nodes nc = Some ready \<longrightarrow> (\<exists>n. meta_name (node_meta node) = Some n \<and> n \<in> set ready))"
  by (auto simp: require_node_in_ready_nodes_def split: option.splits)

lemma collect_network_refs_ok:
  "(\<exists>req'. collect_network_refs ctx node req rs = Inr req' \<and> (\<forall>p \<in> set req'. plugin_ready node p)) \<longleftrightarrow>
   (\<forall>p \<in> set req. plugin_ready node p) \<and> (\<forall>r \<in> set rs. ready_for ctx node r)"
proof (induction rs arbitrary: req)
  case (Cons r rs)
  show ?case
  proof (cases "resolve_network_class ctx r")
    case (Inl e)
    then show ?thesis by (simp add: ready_for_def)
  next
    case (Inr nc)
    let ?ready = "\<forall>ready. rn_ready_nodes nc = Some ready \<longrightarrow> (\<exists>n. meta_name (node_meta node) = Some n \<and> n \<in> set ready)"
    have "(\<exists>req'. collect_network_refs ctx node req (r # rs) = Inr req' \<and> (\<forall>p \<in> set req'. plugin_ready node p)) \<longleftrightarrow>
        ?ready \<and> (\<exists>req1. collect_required_plugins req (rn_spec nc) r = Inr req1 \<and>
          (\<exists>req'. collect_network_refs ctx node req1 rs = Inr req' \<and> (\<forall>p \<in> set req'. plugin_ready node p)))"
      using require_node_in_ready_nodes_ok [of node nc r "()"]
      by (auto simp: Inr split: sum.splits)
    also have "\<dots> \<longleftrightarrow> ?ready \<and> (\<exists>req1. collect_required_plugins req (rn_spec nc) r = Inr req1 \<and>
          (\<forall>p \<in> set req1. plugin_ready node p)) \<and> (\<forall>r \<in> set rs. ready_for ctx node r)"
      unfolding Cons.IH by blast
    also have "\<dots> \<longleftrightarrow> ?ready \<and> (\<exists>ps. collect_required_plugins [] (rn_spec nc) r = Inr ps \<and>
          (\<forall>p \<in> set ps \<union> set req. plugin_ready node p)) \<and> (\<forall>r \<in> set rs. ready_for ctx node r)"
      by (simp only: collect_required_plugins_set [where Q = "\<lambda>S. \<forall>p \<in> S. plugin_ready node p"])
    finally show ?thesis using Inr by (auto simp: ready_for_def)
  qed
qed simp

lemma require_plugin_ready_ok:
  "node_status node = Some status \<Longrightarrow>
   (case require_plugin_ready (nst_cni_plugins status) p of Inl e \<Rightarrow> Reject e | Inr _ \<Rightarrow> Accept) = Accept \<longleftrightarrow>
     plugin_ready node p"
  by (auto simp: require_plugin_ready_def plugin_ready_def unwrap_or_def split: option.splits)

lemma network_fit_accept [filter_specs]:
  "network_fit_filter ctx node = Accept \<longleftrightarrow>
     plugin_ready node ''loopback'' \<and> (\<forall>r \<in> set (ship_network_refs ctx). ready_for ctx node r)"
proof (cases "node_status node")
  case None
  then show ?thesis by (simp add: network_fit_filter_def plugin_ready_def)
next
  case (Some status)
  have "network_fit_filter ctx node = Accept \<longleftrightarrow>
      (\<exists>req. collect_network_refs ctx node [''loopback''] (ship_network_refs ctx) = Inr req \<and>
        (\<forall>p \<in> set req. plugin_ready node p))"
    by (cases "collect_network_refs ctx node [''loopback''] (ship_network_refs ctx)")
      (simp_all add: network_fit_filter_def Some require_plugin_ready_ok [OF Some])
  then show ?thesis unfolding collect_network_refs_ok by simp
qed

end
