(* ===== verification/Sched_Framework.thy ===== *)
theory Sched_Framework
  imports Filter_Specs Cluster_Examples
begin

text \<open>
  The score plugins (\<^verbatim>\<open>tugboat-scheduler/src/plugins\<close>) and the framework that runs the filters and the
  scorers of a configuration over the nodes (\<^verbatim>\<open>framework/mod.rs\<close>, \<^verbatim>\<open>plugins/mod.rs\<close>, \<^verbatim>\<open>config.rs\<close>).
  The scores are 64-bit: the additions wrap, and a lemma shows that they do not on real inputs.
\<close>

section \<open>Score plugins\<close>

definition taint_toleration_score :: "scheduling_context \<Rightarrow> node \<Rightarrow> score_result" where
  "taint_toleration_score ctx node =
     Score (fold (\<lambda>taint penalty.
        if ta_effect taint = ''PreferNoSchedule'' \<and> \<not> ship_tolerates_taint (ship_tolerations ctx) taint
        then penalty - 50 else penalty) (node_taints node) 0)"

definition availability :: "nat \<Rightarrow> nat \<Rightarrow> int" where
  "availability alloc used =
     (if 0 < alloc
      then f64_as_i64 (f64_mul (f64_div (f64_of_nat (u64_sat_sub alloc used)) (f64_of_nat alloc)) (Fin 100))
      else 0)"

definition least_allocated_score :: "scheduling_context \<Rightarrow> node \<Rightarrow> score_result" where
  "least_allocated_score ctx node =
     (let (alloc_cpu, alloc_memory) = node_allocatable node;
          (used_cpu, used_memory) = node_resource_usage ctx (node_name_or ''unknown'' node)
      in Score ((availability alloc_cpu used_cpu + availability alloc_memory used_memory) div 2))"

definition clamp :: "int \<Rightarrow> int \<Rightarrow> int \<Rightarrow> int" where
  "clamp lo hi x = max lo (min hi x)"

lemma clamp_range: "lo \<le> hi \<Longrightarrow> lo \<le> clamp lo hi x \<and> clamp lo hi x \<le> hi"
  by (simp add: clamp_def)

definition node_affinity_score :: "scheduling_context \<Rightarrow> node \<Rightarrow> score_result" where
  "node_affinity_score ctx node = (case Option.bind (ship_affinity_of ctx) af_node_affinity of
     None \<Rightarrow> Skip
   | Some affinity \<Rightarrow>
       if na_preferred affinity = [] then Skip
       else
         (let (max_weight, matched_weight) =
            fold (\<lambda>term (max_weight, matched_weight).
                let weight = clamp 0 100 (pst_weight term) in
                (max_weight + weight,
                 if is_some_and (\<lambda>p. node_selector_term_matches p (node_labels node)) (pst_preference term)
                 then matched_weight + weight else matched_weight))
              (na_preferred affinity) (0, 0)
          in if max_weight = 0 then Skip else Score (matched_weight * 100 div max_weight)))"

definition spread_points :: "scheduling_context \<Rightarrow> node \<Rightarrow> topology_spread_constraint \<Rightarrow> int" where
  "spread_points ctx node c = (case skew_if_scheduled ctx node c of
     None \<Rightarrow> 0
   | Some skew \<Rightarrow> clamp 0 100 (wrap_i64 (100 - i64_sat (skew - tsc_max_skew c) * 50)))"

definition topology_spread_score :: "scheduling_context \<Rightarrow> node \<Rightarrow> score_result" where
  "topology_spread_score ctx node = (case ship_spec (ctx_ship ctx) of
     None \<Rightarrow> Skip
   | Some spec \<Rightarrow>
       if ss_topology_spread_constraints spec = [] then Skip
       else
         (let (total, count) =
            fold (\<lambda>c (total, count). (total + spread_points ctx node c, count + 1))
              (ss_topology_spread_constraints spec) (0, 0)
          in if count = 0 then Skip else Score (total div count)))"

definition image_locality_score :: "scheduling_context \<Rightarrow> node \<Rightarrow> score_result" where
  "image_locality_score ctx node =
     (case filter_opt (\<lambda>i. i \<noteq> []) (map_option ss_image (ship_spec (ctx_ship ctx))) of
        None \<Rightarrow> Skip
      | Some img \<Rightarrow>
          Score (if is_some_and (\<lambda>st. \<exists>item \<in> set (nst_images st). nis_image item = img) (node_status node)
                 then 100 else 0))"

section \<open>Framework\<close>

type_synonym filter_plugin = "scheduling_context \<Rightarrow> node \<Rightarrow> filter_result"
type_synonym score_plugin = "scheduling_context \<Rightarrow> node \<Rightarrow> score_result"

record framework =
  fw_filter_plugins :: "filter_plugin list"
  fw_score_plugins :: "score_plugin list"

definition framework_new :: framework where
  "framework_new = \<lparr>fw_filter_plugins = [], fw_score_plugins = []\<rparr>"

definition add_filter_plugin :: "filter_plugin \<Rightarrow> framework \<Rightarrow> framework" where
  "add_filter_plugin p fw = fw\<lparr>fw_filter_plugins := fw_filter_plugins fw @ [p]\<rparr>"

definition add_score_plugin :: "score_plugin \<Rightarrow> framework \<Rightarrow> framework" where
  "add_score_plugin p fw = fw\<lparr>fw_score_plugins := fw_score_plugins fw @ [p]\<rparr>"

definition framework_filter :: "framework \<Rightarrow> scheduling_context \<Rightarrow> node list \<Rightarrow> node list" where
  "framework_filter fw ctx nodes =
     filter (\<lambda>node. first_reject (\<lambda>plugin. plugin ctx node) (fw_filter_plugins fw) = Accept) nodes"

definition score_value :: "score_result \<Rightarrow> int" where
  "score_value r = (case r of Score s \<Rightarrow> s | Skip \<Rightarrow> 0)"

definition total_score :: "framework \<Rightarrow> scheduling_context \<Rightarrow> node \<Rightarrow> int" where
  "total_score fw ctx node =
     fold (\<lambda>plugin acc. i64_add acc (score_value (plugin ctx node))) (fw_score_plugins fw) 0"

definition framework_score :: "framework \<Rightarrow> scheduling_context \<Rightarrow> node list \<Rightarrow> (node \<times> int) list" where
  "framework_score fw ctx nodes =
     sort_key (\<lambda>p. - snd p) (map (\<lambda>node. (node, total_score fw ctx node)) nodes)"

definition framework_schedule :: "framework \<Rightarrow> scheduling_context \<Rightarrow> node list \<Rightarrow> node option" where
  "framework_schedule fw ctx nodes =
     (let filtered = framework_filter fw ctx nodes in
      if filtered = [] then None
      else case framework_score fw ctx filtered of [] \<Rightarrow> None | (node, _) # _ \<Rightarrow> Some node)"

section \<open>Configuration\<close>

definition create_filter_plugin :: "string \<Rightarrow> filter_plugin option" where
  "create_filter_plugin name =
     (if name = ''Unschedulable'' then Some unschedulable_filter
      else if name = ''NetworkFit'' then Some network_fit_filter
      else if name = ''TaintToleration'' then Some taint_toleration_filter
      else if name = ''ResourceFit'' then Some resource_fit_filter
      else if name = ''RuntimeClassFit'' then Some runtime_class_fit_filter
      else if name = ''StorageFit'' then Some storage_fit_filter
      else if name = ''StorageBindingReady'' then Some storage_binding_ready_filter
      else if name = ''VolumeTopology'' then Some volume_topology_filter
      else if name = ''NodeAffinity'' then Some node_affinity_filter
      else if name = ''ShipAffinity'' then Some ship_affinity_filter
      else if name = ''TopologySpread'' then Some topology_spread_filter
      else None)"

definition create_score_plugin :: "string \<Rightarrow> score_plugin option" where
  "create_score_plugin name =
     (if name = ''TaintToleration'' then Some taint_toleration_score
      else if name = ''LeastAllocated'' then Some least_allocated_score
      else if name = ''NodeAffinity'' then Some node_affinity_score
      else if name = ''TopologySpread'' then Some topology_spread_score
      else if name = ''ImageLocality'' then Some image_locality_score
      else None)"

definition default_filter_plugins :: "string list" where
  "default_filter_plugins = [''Unschedulable'', ''NetworkFit'', ''TaintToleration'', ''RuntimeClassFit'',
     ''ResourceFit'', ''StorageFit'', ''StorageBindingReady'', ''VolumeTopology'', ''NodeAffinity'',
     ''ShipAffinity'', ''TopologySpread'']"

definition default_score_plugins :: "string list" where
  "default_score_plugins = [''TaintToleration'', ''LeastAllocated'', ''NodeAffinity'', ''TopologySpread'', ''ImageLocality'']"

definition build_framework :: "string list \<Rightarrow> string list \<Rightarrow> framework" where
  "build_framework filters scores =
     fold (\<lambda>name fw. case create_score_plugin name of None \<Rightarrow> fw | Some p \<Rightarrow> add_score_plugin p fw) scores
       (fold (\<lambda>name fw. case create_filter_plugin name of None \<Rightarrow> fw | Some p \<Rightarrow> add_filter_plugin p fw) filters
         framework_new)"

definition default_framework :: framework where
  "default_framework = build_framework default_filter_plugins default_score_plugins"

section \<open>The contract of a score plugin\<close>

locale scorer =
  fixes score :: score_plugin
  assumes at_most: "score_value (score ctx node) \<le> 100"
    and at_least: "- 50 * int (length (node_taints node)) \<le> score_value (score ctx node)"
begin

lemma value_range:
  "score_value (score ctx node) \<in> {- 50 * int (length (node_taints node)) .. 100}"
  using at_most at_least by simp

end

text \<open>The scorers that give percentages.\<close>

locale percentage_scorer =
  fixes score :: score_plugin
  assumes percentage: "0 \<le> score_value (score ctx node) \<and> score_value (score ctx node) \<le> 100"

sublocale percentage_scorer \<subseteq> scorer
  using percentage by unfold_locales (auto intro: order_trans [of _ 0])

lemma taint_penalty_bounds:
  "acc - 50 * int (length ts) \<le> fold (\<lambda>t p. if P t then p - 50 else p) ts acc \<and>
   fold (\<lambda>t p. if P t then p - 50 else p) ts acc \<le> (acc :: int)"
proof (induction ts arbitrary: acc)
  case (Cons t ts)
  show ?case using Cons.IH [of acc] Cons.IH [of "acc - 50"] by simp
qed simp

interpretation taint_scorer: scorer taint_toleration_score
proof
  fix ctx node
  let ?p = "\<lambda>t. ta_effect t = ''PreferNoSchedule'' \<and> \<not> ship_tolerates_taint (ship_tolerations ctx) t"
  show "score_value (taint_toleration_score ctx node) \<le> 100"
    and "- 50 * int (length (node_taints node)) \<le> score_value (taint_toleration_score ctx node)"
    using taint_penalty_bounds [where P = ?p and acc = 0 and ts = "node_taints node"]
    by (simp_all add: taint_toleration_score_def score_value_def)
qed

lemma availability_range: "alloc \<le> u64_max \<Longrightarrow> 0 \<le> availability alloc used \<and> availability alloc used \<le> 100"
  using f64_percentage_bounds [of "u64_sat_sub alloc used" alloc]
  by (simp add: availability_def u64_sat_sub_def)

interpretation least_allocated_scorer: percentage_scorer least_allocated_score
proof
  fix ctx node
  obtain ac am where a: "node_allocatable node = (ac, am)" by fastforce
  obtain uc um where u: "node_resource_usage ctx (node_name_or ''unknown'' node) = (uc, um)" by fastforce
  have "ac \<le> u64_max" "am \<le> u64_max" using node_allocatable_le [of node] by (simp_all add: a)
  then have "0 \<le> availability ac uc \<and> availability ac uc \<le> 100" "0 \<le> availability am um \<and> availability am um \<le> 100"
    by (simp_all add: availability_range)
  then have "0 \<le> (availability ac uc + availability am um) div 2 \<and> (availability ac uc + availability am um) div 2 \<le> 100"
    by linarith
  then show "0 \<le> score_value (least_allocated_score ctx node) \<and> score_value (least_allocated_score ctx node) \<le> 100"
    by (simp add: least_allocated_score_def a u score_value_def)
qed

lemma weights_fold:
  fixes P :: "'a \<Rightarrow> bool" and w :: "'a \<Rightarrow> int"
  assumes "\<And>t. 0 \<le> w t" and "0 \<le> b" "b \<le> a"
  shows "case fold (\<lambda>t (m, k). let x = w t in (m + x, if P t then k + x else k)) ts (a, b) of
     (m, k) \<Rightarrow> 0 \<le> k \<and> k \<le> m"
  using assms(2,3)
proof (induction ts arbitrary: a b)
  case (Cons t ts)
  show ?case
    using Cons.IH [of "b + w t" "a + w t"] Cons.IH [of b "a + w t"] Cons.prems assms(1) [of t]
    by (simp add: Let_def)
qed simp

lemma percentage_div:
  fixes k m :: int
  assumes "0 \<le> k" "k \<le> m"
  shows "0 \<le> k * 100 div m" "k * 100 div m \<le> 100"
proof -
  show "0 \<le> k * 100 div m" using assms by (simp add: pos_imp_zdiv_nonneg_iff div_int_pos_iff)
  show "k * 100 div m \<le> 100"
  proof (cases "m = 0")
    case False
    then have "k * 100 div m \<le> m * 100 div m" using assms by (intro zdiv_mono1) auto
    then show ?thesis using False by simp
  qed simp
qed

interpretation node_affinity_scorer: percentage_scorer node_affinity_score
proof
  fix ctx node
  show "0 \<le> score_value (node_affinity_score ctx node) \<and> score_value (node_affinity_score ctx node) \<le> 100"
  proof (cases "Option.bind (ship_affinity_of ctx) af_node_affinity")
    case None
    then show ?thesis by (simp add: node_affinity_score_def score_value_def)
  next
    case (Some a)
    let ?P = "\<lambda>t. is_some_and (\<lambda>p. node_selector_term_matches p (node_labels node)) (pst_preference t)"
    obtain m k where f: "fold (\<lambda>t (m, k). let x = clamp 0 100 (pst_weight t) in (m + x, if ?P t then k + x else k))
        (na_preferred a) (0, 0) = (m, k)" by fastforce
    have "0 \<le> k \<and> k \<le> m"
      using weights_fold [where w = "\<lambda>t. clamp 0 100 (pst_weight t)" and P = ?P and ts = "na_preferred a" and a = 0 and b = 0]
      by (simp add: f clamp_range)
    then show ?thesis using percentage_div [of k m]
      by (simp add: node_affinity_score_def Some f score_value_def)
  qed
qed

lemma points_fold:
  fixes p :: "'a \<Rightarrow> int"
  shows "fold (\<lambda>c (t, n). (t + p c, n + 1)) cs (a, b) = (a + (\<Sum>c \<leftarrow> cs. p c), b + int (length cs))"
  by (induction cs arbitrary: a b) auto

lemma average_range:
  fixes p :: "'a \<Rightarrow> int"
  assumes "\<And>c. 0 \<le> p c \<and> p c \<le> 100"
  shows "0 \<le> (\<Sum>c \<leftarrow> cs. p c) div int (length cs) \<and> (\<Sum>c \<leftarrow> cs. p c) div int (length cs) \<le> 100"
proof -
  have sum: "0 \<le> (\<Sum>c \<leftarrow> cs. p c) \<and> (\<Sum>c \<leftarrow> cs. p c) \<le> 100 * int (length cs)"
    using assms by (induction cs) (auto simp: algebra_simps intro: add_mono)
  show ?thesis
  proof (cases "cs = []")
    case False
    have "(\<Sum>c \<leftarrow> cs. p c) div int (length cs) \<le> (100 * int (length cs)) div int (length cs)"
      using sum False by (intro zdiv_mono1) auto
    moreover have "(100 * int (length cs)) div int (length cs) = 100" using False by simp
    ultimately show ?thesis using sum False by (simp add: pos_imp_zdiv_nonneg_iff)
  qed simp
qed

interpretation topology_spread_scorer: percentage_scorer topology_spread_score
proof
  fix ctx node
  have "0 \<le> spread_points ctx node c \<and> spread_points ctx node c \<le> 100" for c
    by (auto simp: spread_points_def clamp_range split: option.split)
  then show "0 \<le> score_value (topology_spread_score ctx node) \<and> score_value (topology_spread_score ctx node) \<le> 100"
    using average_range [of "spread_points ctx node"]
    by (auto simp: topology_spread_score_def score_value_def points_fold split: option.split)
qed

interpretation image_locality_scorer: percentage_scorer image_locality_score
  by unfold_locales (simp add: image_locality_score_def score_value_def split: option.split)

lemma create_score_plugin_scorer: "create_score_plugin name = Some p \<Longrightarrow> scorer p"
  by (auto simp: create_score_plugin_def split: if_splits
      intro: taint_scorer.scorer_axioms least_allocated_scorer.scorer_axioms node_affinity_scorer.scorer_axioms
        topology_spread_scorer.scorer_axioms image_locality_scorer.scorer_axioms)

section \<open>The configured framework\<close>

lemma fold_add_score:
  "fw_score_plugins (fold (\<lambda>n fw. case create_score_plugin n of None \<Rightarrow> fw | Some p \<Rightarrow> add_score_plugin p fw) ns fw)
     = fw_score_plugins fw @ filter_map create_score_plugin ns"
  "fw_filter_plugins (fold (\<lambda>n fw. case create_score_plugin n of None \<Rightarrow> fw | Some p \<Rightarrow> add_score_plugin p fw) ns fw)
     = fw_filter_plugins fw"
  by (induction ns arbitrary: fw) (auto simp: add_score_plugin_def filter_map_def split: option.split)

lemma fold_add_filter:
  "fw_filter_plugins (fold (\<lambda>n fw. case create_filter_plugin n of None \<Rightarrow> fw | Some p \<Rightarrow> add_filter_plugin p fw) ns fw)
     = fw_filter_plugins fw @ filter_map create_filter_plugin ns"
  "fw_score_plugins (fold (\<lambda>n fw. case create_filter_plugin n of None \<Rightarrow> fw | Some p \<Rightarrow> add_filter_plugin p fw) ns fw)
     = fw_score_plugins fw"
  by (induction ns arbitrary: fw) (auto simp: add_filter_plugin_def filter_map_def split: option.split)

lemma build_framework_plugins:
  "fw_filter_plugins (build_framework fs ss) = filter_map create_filter_plugin fs"
  "fw_score_plugins (build_framework fs ss) = filter_map create_score_plugin ss"
  by (simp_all add: build_framework_def fold_add_score fold_add_filter framework_new_def)

lemma in_create_score: "p \<in> set (fw_score_plugins (build_framework fs ss)) \<Longrightarrow> scorer p"
  by (auto simp: build_framework_plugins set_filter_map intro: create_score_plugin_scorer)

lemma fold_i64_add_sum:
  assumes "\<And>p. p \<in> set ps \<Longrightarrow> lo \<le> g p \<and> g p \<le> (100::int)" and "lo \<le> 0"
    and "i64_min \<le> acc + lo * int (length ps)" and "acc + 100 * int (length ps) \<le> i64_max"
  shows "fold (\<lambda>p acc. i64_add acc (g p)) ps acc = acc + (\<Sum>p \<leftarrow> ps. g p)"
  using assms(1,3,4)
proof (induction ps arbitrary: acc)
  case (Cons p ps)
  have g: "lo \<le> g p" "g p \<le> 100" using Cons.prems(1) by simp_all
  have l: "lo * int (length ps) \<le> 0" using assms(2) by (simp add: mult_nonpos_nonneg)
  have b: "i64_min \<le> acc + g p + lo * int (length ps)" "acc + g p + 100 * int (length ps) \<le> i64_max"
    using Cons.prems(2,3) g by (simp_all add: algebra_simps)
  then have "i64_add acc (g p) = acc + g p" using l by (intro i64_add_id) linarith+
  then show ?case using Cons.IH [of "acc + g p"] Cons.prems(1) b by (simp add: add.assoc)
qed simp

lemma find_filter: "find P (filter Q xs) = find (\<lambda>x. Q x \<and> P x) xs"
  by (induction xs) auto

lemma find_map_pairs: "find P (map f xs) = map_option f (find (P \<circ> f) xs)"
  by (induction xs) auto

lemma framework_score_Cons:
  assumes "nodes \<noteq> []"
  shows "\<exists>n rest. framework_score fw ctx nodes = (n, total_score fw ctx n) # rest \<and>
    find (\<lambda>m. \<forall>k \<in> set nodes. total_score fw ctx k \<le> total_score fw ctx m) nodes = Some n"
proof -
  let ?xs = "map (\<lambda>node. (node, total_score fw ctx node)) nodes"
  have ne: "?xs \<noteq> []" using assms by simp
  have "find (\<lambda>x. \<forall>y \<in> set ?xs. snd y \<le> snd x) ?xs = Some (hd (framework_score fw ctx nodes))"
    using hd_sort_key_first [OF ne, of snd] by (simp add: framework_score_def)
  then obtain n where n: "find (\<lambda>m. \<forall>k \<in> set nodes. total_score fw ctx k \<le> total_score fw ctx m) nodes = Some n"
    and h: "hd (framework_score fw ctx nodes) = (n, total_score fw ctx n)"
    by (auto simp: find_map_pairs comp_def)
  have "length (framework_score fw ctx nodes) = length nodes" by (simp add: framework_score_def)
  then obtain x rest where c: "framework_score fw ctx nodes = x # rest"
    using assms by (metis length_0_conv neq_Nil_conv)
  show ?thesis using n h c by auto
qed

abbreviation feasible :: "framework \<Rightarrow> scheduling_context \<Rightarrow> node \<Rightarrow> bool" where
  "feasible fw ctx node \<equiv> \<forall>plugin \<in> set (fw_filter_plugins fw). plugin ctx node = Accept"

lemma schedule_as_find:
  "framework_schedule fw ctx nodes =
     find (\<lambda>n. feasible fw ctx n \<and>
        (\<forall>m \<in> set nodes. feasible fw ctx m \<longrightarrow> total_score fw ctx m \<le> total_score fw ctx n)) nodes"
proof (cases "framework_filter fw ctx nodes = []")
  case True
  then have "\<forall>n \<in> set nodes. \<not> feasible fw ctx n" by (simp add: framework_filter_def filter_empty_conv)
  then have "find (\<lambda>n. feasible fw ctx n \<and>
      (\<forall>m \<in> set nodes. feasible fw ctx m \<longrightarrow> total_score fw ctx m \<le> total_score fw ctx n)) nodes = None"
    unfolding find_None_iff by blast
  then show ?thesis using True by (simp add: framework_schedule_def)
next
  case False
  obtain n rest where sc: "framework_score fw ctx (framework_filter fw ctx nodes) = (n, total_score fw ctx n) # rest"
    and f: "find (\<lambda>m. \<forall>k \<in> set (framework_filter fw ctx nodes). total_score fw ctx k \<le> total_score fw ctx m)
        (framework_filter fw ctx nodes) = Some n"
    using framework_score_Cons [OF False] by blast
  have "find (\<lambda>n. feasible fw ctx n \<and>
      (\<forall>m \<in> set nodes. feasible fw ctx m \<longrightarrow> total_score fw ctx m \<le> total_score fw ctx n)) nodes = Some n"
    using f unfolding framework_filter_def find_filter by (simp add: Ball_def imp_conjL)
  then show ?thesis using False sc by (simp add: framework_schedule_def)
qed

lemma default_filters:
  "fw_filter_plugins default_framework =
     [unschedulable_filter, network_fit_filter, taint_toleration_filter, runtime_class_fit_filter,
      resource_fit_filter, storage_fit_filter, storage_binding_ready_filter, volume_topology_filter,
      node_affinity_filter, ship_affinity_filter, topology_spread_filter]"
  by (simp add: default_framework_def build_framework_plugins default_filter_plugins_def create_filter_plugin_def)

lemma default_scores:
  "fw_score_plugins default_framework =
     [taint_toleration_score, least_allocated_score, node_affinity_score, topology_spread_score, image_locality_score]"
  by (simp add: default_framework_def build_framework_plugins default_score_plugins_def create_score_plugin_def)

text \<open>A Ship that only asks for resources is placed by the resources.\<close>

lemma feasible_example:
  "feasible default_framework (example_context (example_ship s c p) (example_class c cores m) ships nodes)
     (example_node n ls cpu mem [] images) \<longleftrightarrow>
   resource_fit_filter (example_context (example_ship s c p) (example_class c cores m) ships nodes)
     (example_node n ls cpu mem [] images) = Accept"
proof -
  let ?ctx = "example_context (example_ship s c p) (example_class c cores m) ships nodes"
    and ?node = "example_node n ls cpu mem [] images"
  have "unschedulable_filter ?ctx ?node = Accept" "taint_toleration_filter ?ctx ?node = Accept"
    "storage_fit_filter ?ctx ?node = Accept" "runtime_class_fit_filter ?ctx ?node = Accept"
    by (simp_all add: unschedulable_filter_def taint_toleration_filter_def node_taints_def storage_fit_filter_def
        ship_requires_shared_storage_def runtime_class_fit_filter_def requested_runtime_class_def
        ship_requires_live_migration_def nonempty_trimmed_def example_defs)
  moreover have "network_fit_filter ?ctx ?node = Accept"
    unfolding network_fit_accept by (simp add: plugin_ready_def ship_network_refs_def example_defs)
  moreover have "storage_binding_ready_filter ?ctx ?node = Accept" "volume_topology_filter ?ctx ?node = Accept"
    by (simp_all add: storage_binding_ready_filter_def volume_topology_filter_def ship_bound_persistent_volumes_def
        ship_persistent_volume_claims_def example_defs)
  moreover have "node_affinity_filter ?ctx ?node = Accept" "ship_affinity_filter ?ctx ?node = Accept"
    "topology_spread_filter ?ctx ?node = Accept"
    by (simp_all add: node_affinity_filter_def ship_affinity_filter_def topology_spread_filter_def
        ship_affinity_of_def example_defs)
  ultimately show ?thesis unfolding default_filters by simp
qed

lemma allocatable_example:
  "cpu \<le> 2 ^ 53 \<Longrightarrow> mem \<le> 2 ^ 53 \<Longrightarrow> node_allocatable (example_node n ls cpu mem taints images) = (cpu, mem)"
  by (simp add: node_allocatable_default example_node_def)

lemma requested_example:
  "requested_resources (example_context s (example_class c cores m) ships nodes) = (cores, parse_memory_size m)"
  by (simp add: requested_resources_def example_defs)

lemma demand_example:
  "ship_demand (example_context s (example_class c cores m) ships nodes) (example_ship n c p) = (cores, parse_memory_size m)"
  by (simp add: ship_demand_def find_ship_class_def find_named_def ship_class_name_def meta_name_def example_defs)

section \<open>Properties\<close>

text \<open>
  C5: Scheduling is a search for the best node: for every configuration of plugins, the node it
  selects is the first node of the list that every filter accepts and whose total score no other
  accepted node exceeds; there is none exactly when the filters reject every node.
\<close>

theorem framework_schedule_best:
  "framework_schedule fw ctx nodes =
     find (\<lambda>n. feasible fw ctx n \<and>
        (\<forall>m \<in> set nodes. feasible fw ctx m \<longrightarrow> total_score fw ctx m \<le> total_score fw ctx n)) nodes \<and>
   (framework_schedule fw ctx nodes = None \<longleftrightarrow> (\<forall>n \<in> set nodes. \<not> feasible fw ctx n))"
proof -
  have "framework_filter fw ctx nodes = [] \<longleftrightarrow> (\<forall>n \<in> set nodes. \<not> feasible fw ctx n)"
    by (simp add: framework_filter_def filter_empty_conv)
  moreover have "framework_schedule fw ctx nodes = None \<longleftrightarrow> framework_filter fw ctx nodes = []"
    using framework_score_Cons [of "framework_filter fw ctx nodes" fw ctx]
    by (auto simp: framework_schedule_def Let_def)
  ultimately show ?thesis using schedule_as_find by blast
qed

definition tainted_node :: node where
  "tainted_node = example_node ''a'' [] 4 4096 [\<lparr>ta_key = ''k'', ta_value = [], ta_effect = ''NoSchedule''\<rparr>] [''img'']"

definition plain_node :: node where
  "plain_node = example_node ''b'' [] 4 4096 [] []"

definition warm_node :: node where
  "warm_node = example_node ''c'' [] 4 4096 [] [''img'']"

theorem framework_schedule_best_witness:
  "framework_schedule (build_framework [''TaintToleration''] [''ImageLocality''])
     (example_context (example_ship ''s'' ''c'' None) (example_class ''c'' 2 (nat_to_string 1024)) [] [tainted_node, plain_node, warm_node])
     [tainted_node, plain_node, warm_node] = Some warm_node"
proof -
  let ?fw = "build_framework [''TaintToleration''] [''ImageLocality'']"
  let ?ctx = "example_context (example_ship ''s'' ''c'' None) (example_class ''c'' 2 (nat_to_string 1024)) []
    [tainted_node, plain_node, warm_node]"
  have plugins: "fw_filter_plugins ?fw = [taint_toleration_filter]" "fw_score_plugins ?fw = [image_locality_score]"
    by (simp_all add: build_framework_plugins create_filter_plugin_def create_score_plugin_def)
  have f: "\<not> feasible ?fw ?ctx tainted_node" "feasible ?fw ?ctx plain_node" "feasible ?fw ?ctx warm_node"
    by (simp_all add: plugins tainted_node_def plain_node_def warm_node_def example_defs
        taint_toleration_filter_def ship_tolerates_taint_def ship_tolerations_def node_taints_def)
  have t: "total_score ?fw ?ctx plain_node = 0" "total_score ?fw ?ctx warm_node = 100"
    by (simp_all add: total_score_def plugins image_locality_score_def score_value_def plain_node_def
        warm_node_def example_defs i64_add_def wrap_i64_def)
  show ?thesis
    using framework_schedule_best [of ?fw ?ctx "[tainted_node, plain_node, warm_node]"] f t by simp
qed

text \<open>
  C30: The total score of a node is the exact sum of the plugins' scores: with any configured plugins
  the 64-bit sum does not overflow for up to \<open>2 ^ 24\<close> configured plugins and taints of the node.
\<close>

theorem total_score_exact:
  assumes fw: "fw = build_framework fs ss"
    and small: "length (node_taints node) \<le> 2 ^ 24" "length ss \<le> 2 ^ 24"
  shows "total_score fw ctx node = (\<Sum>plugin \<leftarrow> fw_score_plugins fw. score_value (plugin ctx node)) \<and>
    total_score fw ctx node \<le> 100 * int (length (fw_score_plugins fw))"
proof -
  let ?n = "length (fw_score_plugins fw)" and ?lo = "- 50 * int (length (node_taints node))"
  have n: "?n \<le> 2 ^ 24"
    using small(2) by (auto simp: fw build_framework_plugins filter_map_def intro: le_trans [OF length_filter_le])
  have range: "?lo \<le> score_value (p ctx node) \<and> score_value (p ctx node) \<le> 100" if "p \<in> set (fw_score_plugins fw)" for p
    using that scorer.value_range [OF in_create_score] by (fastforce simp: fw)
  have "int (length (node_taints node)) * int ?n \<le> 2 ^ 24 * 2 ^ 24"
    using small(1) n by (intro mult_mono) auto
  then have lo: "i64_min \<le> 0 + ?lo * int ?n" by (simp add: int_range_defs mult.commute)
  have "int ?n \<le> 2 ^ 24" using n by (simp flip: of_nat_le_iff)
  then have hi: "0 + 100 * int ?n \<le> i64_max" by (simp add: int_range_defs)
  have "total_score fw ctx node = (\<Sum>p \<leftarrow> fw_score_plugins fw. score_value (p ctx node))"
    using fold_i64_add_sum [where ps = "fw_score_plugins fw" and g = "\<lambda>p. score_value (p ctx node)" and acc = 0 and lo = ?lo]
      range lo hi by (simp add: total_score_def)
  moreover have "(\<Sum>p \<leftarrow> fw_score_plugins fw. score_value (p ctx node)) \<le> (\<Sum>p \<leftarrow> fw_score_plugins fw. 100)"
    using range by (intro sum_list_mono) auto
  ultimately show ?thesis by (simp add: sum_list_triv)
qed

theorem total_score_exact_witness:
  "total_score default_framework (example_context (example_ship ''s'' ''c'' None) (example_class ''c'' 2 (nat_to_string 1024)) [] [warm_node]) warm_node
     \<le> 500"
  using total_score_exact [OF default_framework_def, of warm_node
      "example_context (example_ship ''s'' ''c'' None) (example_class ''c'' 2 (nat_to_string 1024)) [] [warm_node]"]
  by (simp add: default_scores warm_node_def node_taints_def example_node_def default_score_plugins_def)

text \<open>
  C6: With the default plugins, the node selected for a Ship among the nodes of the cluster is a node
  of the cluster on which the Ship may run: it is not cordoned; every \<^verbatim>\<open>NoSchedule\<close> taint is tolerated; the exact
  demands of its Ships plus the new one are within its capacity; its loopback plugin and the plugins
  of every network reference are ready; its runtime class is the requested one; the required node
  affinity, Ship affinity and anti-affinity hold; every claim without a volume is free or
  was selected for this node; and the node affinity of every bound volume matches.
\<close>

theorem default_schedule_sound:
  assumes "framework_schedule default_framework ctx (ctx_nodes ctx) = Some node"
  shows "node \<in> set (ctx_nodes ctx) \<and>
    Option.bind (node_spec node) nsp_unschedulable \<noteq> Some True \<and>
    (\<forall>t \<in> set (node_taints node). ta_effect t = ''NoSchedule'' \<longrightarrow>
       (\<exists>tol \<in> set (ship_tolerations ctx). toleration_matches_taint tol t)) \<and>
    (fst (requested_resources ctx) = 0 \<or>
       (\<Sum>s \<leftarrow> ships_on ctx (node_name_or ''unknown'' node). fst (ship_demand ctx s)) + fst (requested_resources ctx)
         \<le> fst (node_allocatable node)) \<and>
    (snd (requested_resources ctx) = 0 \<or>
       (\<Sum>s \<leftarrow> ships_on ctx (node_name_or ''unknown'' node). snd (ship_demand ctx s)) + snd (requested_resources ctx)
         \<le> snd (node_allocatable node)) \<and>
    plugin_ready node ''loopback'' \<and> (\<forall>r \<in> set (ship_network_refs ctx). ready_for ctx node r) \<and>
    (\<forall>rc. requested_runtime_class ctx = Some rc \<longrightarrow> node_runtime_class_name node = Some rc) \<and>
    (\<forall>sel. Option.bind (Option.bind (ship_affinity_of ctx) af_node_affinity) na_required = Some sel \<longrightarrow>
       node_selector_matches sel (node_labels node)) \<and>
    (\<forall>t \<in> set (required_terms ctx). domain_has_peer ctx t node) \<and>
    (\<forall>t \<in> set (forbidden_terms ctx). \<not> domain_has_peer ctx t node) \<and>
    (\<forall>pvc \<in> set (ship_persistent_volume_claims ctx). claim_unbound pvc \<longrightarrow>
       (\<forall>n. selected_node pvc = Some n \<longrightarrow> n = node_name_or [] node) \<and> allowed_on ctx pvc node) \<and>
    (\<forall>pv \<in> set (ship_bound_persistent_volumes ctx). \<forall>spec sel.
       pv_spec pv = Some spec \<and> pvs_node_affinity spec = Some (Some sel) \<longrightarrow> node_selector_matches sel (node_labels node))"
proof -
  have n: "node \<in> set (ctx_nodes ctx)" and f: "feasible default_framework ctx node"
    using assms unfolding schedule_as_find by (auto dest: find_eq_Some_in)
  have a: "unschedulable_filter ctx node = Accept" "network_fit_filter ctx node = Accept"
    "taint_toleration_filter ctx node = Accept" "runtime_class_fit_filter ctx node = Accept"
    "resource_fit_filter ctx node = Accept" "storage_binding_ready_filter ctx node = Accept"
    "volume_topology_filter ctx node = Accept" "node_affinity_filter ctx node = Accept"
    "ship_affinity_filter ctx node = Accept"
    using f by (simp_all add: default_filters)
  have r: "\<forall>rc. requested_runtime_class ctx = Some rc \<longrightarrow> node_runtime_class_name node = Some rc"
    using a(4) unfolding runtime_class_fit_accept by auto
  show ?thesis
    using n r a(1) [unfolded unschedulable_accept] a(2) [unfolded network_fit_accept]
      a(3) [unfolded taint_toleration_accept] a(5) [unfolded resource_fit_iff Let_def case_prod_beta]
      a(6) [unfolded storage_binding_ready_accept] a(7) [unfolded volume_topology_accept]
      a(8) [unfolded node_affinity_accept] a(9) [unfolded ship_affinity_accept]
    by blast
qed

theorem default_schedule_sound_witness:
  "framework_schedule default_framework
     (example_context (example_ship ''s'' ''c'' None) (example_class ''c'' 2 (nat_to_string 1024)) [] [warm_node]) [warm_node] = Some warm_node \<and>
   plugin_ready warm_node ''loopback''"
proof -
  let ?ctx = "example_context (example_ship ''s'' ''c'' None) (example_class ''c'' 2 (nat_to_string 1024)) [] [warm_node]"
  have "feasible default_framework ?ctx warm_node"
    unfolding warm_node_def feasible_example resource_fit_iff
    by (simp add: allocatable_example requested_example ships_on_def parse_memory_size_bytes u64_max_def)
  then have s: "framework_schedule default_framework ?ctx (ctx_nodes ?ctx) = Some warm_node"
    unfolding schedule_as_find by (simp add: example_context_def)
  moreover have "plugin_ready warm_node ''loopback''"
    using default_schedule_sound [OF s] by blast
  ultimately show ?thesis by (simp add: example_context_def)
qed

end
