(* ===== verification/Scheduler.thy ===== *)
theory Scheduler
  imports Sched_Framework "HOL-Library.Sublist" "HOL-Library.AList"
begin

text \<open>
  The scheduler's loop (\<^verbatim>\<open>tugboat-scheduler/src/scheduler.rs\<close>) and its cache (\<^verbatim>\<open>cache.rs\<close>).  The API server
  it talks to is a parameter: a client over an arbitrary state, one function per list call and one for
  the writes, each of which may fail and may change the state (other clients write between two calls).
\<close>

section \<open>The client\<close>

datatype api_error = ApiStatus int | OtherError

datatype request =
  PatchClaim string string string
| ReplaceShip string string ship
| ReplaceShipStatus string string ship

record 's client =
  cl_cluster_network_classes :: "'s \<Rightarrow> (api_error + network_class list) \<times> 's"
  cl_network_classes :: "'s \<Rightarrow> (api_error + network_class list) \<times> 's"
  cl_runtime_classes :: "'s \<Rightarrow> (api_error + runtime_class list) \<times> 's"
  cl_nodes :: "'s \<Rightarrow> (api_error + node list) \<times> 's"
  cl_ships :: "'s \<Rightarrow> (api_error + ship list) \<times> 's"
  cl_ship_classes :: "'s \<Rightarrow> (api_error + ship_class list) \<times> 's"
  cl_pvcs :: "'s \<Rightarrow> (api_error + persistent_volume_claim list) \<times> 's"
  cl_pvs :: "'s \<Rightarrow> (api_error + persistent_volume list) \<times> 's"
  cl_storage_classes :: "'s \<Rightarrow> (api_error + storage_class list) \<times> 's"
  cl_call :: "request \<Rightarrow> 's \<Rightarrow> api_error option \<times> 's"

section \<open>The cache\<close>

record cache =
  ca_cluster_network_classes :: "network_class list"
  ca_network_classes :: "network_class list"
  ca_runtime_classes :: "runtime_class list"
  ca_nodes :: "node list"
  ca_ships :: "ship list"
  ca_ship_classes :: "ship_class list"
  ca_pvcs :: "persistent_volume_claim list"
  ca_pvs :: "persistent_volume list"
  ca_storage_classes :: "storage_class list"

definition cache_new :: cache where
  "cache_new = \<lparr>ca_cluster_network_classes = [], ca_network_classes = [], ca_runtime_classes = [], ca_nodes = [],
     ca_ships = [], ca_ship_classes = [], ca_pvcs = [], ca_pvs = [], ca_storage_classes = []\<rparr>"

text \<open>One assignment \<^verbatim>\<open>self.field = api.list().await?\<close>: an error leaves the field and ends the refresh.\<close>

definition refresh_field ::
  "('s \<Rightarrow> (api_error + 'a list) \<times> 's) \<Rightarrow> ('a list \<Rightarrow> cache \<Rightarrow> cache) \<Rightarrow>
   (api_error option \<times> cache \<times> 's) \<Rightarrow> (api_error option \<times> cache \<times> 's)" where
  "refresh_field lst upd = (\<lambda>(e, ca, s). case e of
     Some _ \<Rightarrow> (e, ca, s)
   | None \<Rightarrow> (case lst s of (Inl err, s') \<Rightarrow> (Some err, ca, s') | (Inr xs, s') \<Rightarrow> (None, upd xs ca, s')))"

definition cache_refresh :: "'s client \<Rightarrow> cache \<Rightarrow> 's \<Rightarrow> api_error option \<times> cache \<times> 's" where
  "cache_refresh cl ca s =
     refresh_field (cl_storage_classes cl) (\<lambda>x c. c\<lparr>ca_storage_classes := x\<rparr>)
     (refresh_field (cl_pvs cl) (\<lambda>x c. c\<lparr>ca_pvs := x\<rparr>)
     (refresh_field (cl_pvcs cl) (\<lambda>x c. c\<lparr>ca_pvcs := x\<rparr>)
     (refresh_field (cl_ship_classes cl) (\<lambda>x c. c\<lparr>ca_ship_classes := x\<rparr>)
     (refresh_field (cl_ships cl) (\<lambda>x c. c\<lparr>ca_ships := x\<rparr>)
     (refresh_field (cl_nodes cl) (\<lambda>x c. c\<lparr>ca_nodes := x\<rparr>)
     (refresh_field (cl_runtime_classes cl) (\<lambda>x c. c\<lparr>ca_runtime_classes := x\<rparr>)
     (refresh_field (cl_network_classes cl) (\<lambda>x c. c\<lparr>ca_network_classes := x\<rparr>)
     (refresh_field (cl_cluster_network_classes cl) (\<lambda>x c. c\<lparr>ca_cluster_network_classes := x\<rparr>)
       (None, ca, s)))))))))"

definition cache_find_runtime_class :: "cache \<Rightarrow> string \<Rightarrow> runtime_class option" where
  "cache_find_runtime_class ca n = find_named rc_meta n (ca_runtime_classes ca)"

definition cache_find_ship_class :: "cache \<Rightarrow> string \<Rightarrow> ship_class option" where
  "cache_find_ship_class ca n = find_named scl_meta n (ca_ship_classes ca)"

section \<open>Conditions of a Ship\<close>

fun upsert_ship_condition :: "ship_condition list \<Rightarrow> ship_condition \<Rightarrow> ship_condition list" where
  "upsert_ship_condition [] c = [c]"
| "upsert_ship_condition (x # xs) c =
     (if sc_status x = sc_status c then if sc_message x = sc_message c then x # xs else c # xs
      else x # upsert_ship_condition xs c)"

definition append_ship_condition :: "ship \<Rightarrow> ship_condition \<Rightarrow> ship" where
  "append_ship_condition s c =
     (let st = (case ship_status s of None \<Rightarrow> ship_status_default | Some st \<Rightarrow> st)
      in s\<lparr>ship_status := Some (st\<lparr>st_conditions := upsert_ship_condition (st_conditions st) c\<rparr>)\<rparr>)"

definition update_ship_scheduling_status ::
  "'s client \<Rightarrow> time \<Rightarrow> ship \<Rightarrow> string \<Rightarrow> string \<Rightarrow> string \<Rightarrow> string \<Rightarrow> 's \<Rightarrow> 's" where
  "update_ship_scheduling_status cl now ship ns n status message s =
     snd (cl_call cl (ReplaceShipStatus ns n
       (append_ship_condition ship \<lparr>sc_status = status, sc_message = message, sc_timestamp = Some now\<rparr>)) s)"

section \<open>One Ship\<close>

fun annotate_wffc_claims ::
  "'s client \<Rightarrow> scheduling_context \<Rightarrow> string \<Rightarrow> string \<Rightarrow> persistent_volume_claim list \<Rightarrow> 's \<Rightarrow> api_error option \<times> 's" where
  "annotate_wffc_claims cl ctx ns node_name [] s = (None, s)"
| "annotate_wffc_claims cl ctx ns node_name (pvc # pvcs) s =
     (if \<not> is_unbound_wffc_claim ctx pvc \<or> selected_node pvc = Some node_name
      then annotate_wffc_claims cl ctx ns node_name pvcs s
      else case meta_name (pvc_meta pvc) of
        None \<Rightarrow> annotate_wffc_claims cl ctx ns node_name pvcs s
      | Some n \<Rightarrow>
          (case cl_call cl (PatchClaim ns n node_name) s of
             (Some e, s') \<Rightarrow> (Some e, s')
           | (None, s') \<Rightarrow> annotate_wffc_claims cl ctx ns node_name pvcs s'))"

definition cache_context :: "cache \<Rightarrow> ship \<Rightarrow> ship_class \<Rightarrow> scheduling_context" where
  "cache_context ca ship cls =
     \<lparr>ctx_ship = ship, ctx_ship_class = cls, ctx_cluster_network_classes = ca_cluster_network_classes ca,
      ctx_network_classes = ca_network_classes ca, ctx_runtime_classes = ca_runtime_classes ca,
      ctx_ships = ca_ships ca, ctx_nodes = ca_nodes ca, ctx_ship_classes = ca_ship_classes ca,
      ctx_pvcs = ca_pvcs ca, ctx_pvs = ca_pvs ca, ctx_storage_classes = ca_storage_classes ca\<rparr>"

definition bind_ship :: "string \<Rightarrow> ship \<Rightarrow> ship" where
  "bind_ship n ship = ship\<lparr>ship_spec := map_option (\<lambda>sp. sp\<lparr>ss_node_name := Some n\<rparr>) (ship_spec ship)\<rparr>"

datatype outcome =
  Blocked string
| NoSuitableNode
| AnnotateFailed api_error
| Bound string
| BindConflict
| BindFailed api_error

definition schedule_ship :: "framework \<Rightarrow> 's client \<Rightarrow> time \<Rightarrow> cache \<Rightarrow> ship \<Rightarrow> 's \<Rightarrow> outcome \<times> 's" where
  "schedule_ship fw cl now ca ship s =
     (let ship_name = unwrap_or ''unknown'' (meta_name (ship_meta ship));
          ns = unwrap_or ''default'' (meta_namespace (ship_meta ship));
          class_name = ship_class_name ship;
          requested = nonempty_trimmed (Option.bind (ship_spec ship) ss_runtime_class)
      in case cache_find_ship_class ca class_name of
        None \<Rightarrow>
          (let message = ''ShipClass '' @ quoted class_name @ '' not found'' in
           (Blocked message, update_ship_scheduling_status cl now ship ns ship_name ''SchedulingBlocked'' message s))
      | Some cls \<Rightarrow>
          if is_some_and (\<lambda>rc. cache_find_runtime_class ca rc = None) requested then
            (let message = ''RuntimeClass '' @ quoted (the requested) @ '' not found'' in
             (Blocked message, update_ship_scheduling_status cl now ship ns ship_name ''SchedulingBlocked'' message s))
          else
            (let ctx = cache_context ca ship cls in
             case framework_schedule fw ctx (ca_nodes ca) of
               None \<Rightarrow> (NoSuitableNode, s)
             | Some node \<Rightarrow>
                 (let n = node_name_or ''unknown'' node in
                  case annotate_wffc_claims cl ctx ns n (ship_persistent_volume_claims ctx) s of
                    (Some e, s') \<Rightarrow> (AnnotateFailed e, s')
                  | (None, s') \<Rightarrow>
                      (case cl_call cl (ReplaceShip ns ship_name (bind_ship n ship)) s' of
                         (None, s'') \<Rightarrow> (Bound n, s'')
                       | (Some (ApiStatus code), s'') \<Rightarrow>
                           if code = 409 then (BindConflict, s'') else (BindFailed (ApiStatus code), s'')
                       | (Some OtherError, s'') \<Rightarrow> (BindFailed OtherError, s'')))))"

section \<open>One iteration of the loop\<close>

definition is_unscheduled :: "string \<Rightarrow> ship \<Rightarrow> bool" where
  "is_unscheduled scheduler_name ship \<longleftrightarrow>
     is_none_or (\<lambda>n. n = []) (assigned_node ship) \<and>
     is_none_or (\<lambda>n. n = [] \<or> n = scheduler_name) (Option.bind (ship_spec ship) ss_scheduler_name)"

definition schedule_cycle ::
  "string \<Rightarrow> framework \<Rightarrow> 's client \<Rightarrow> time \<Rightarrow> bool \<Rightarrow> cache \<Rightarrow> 's \<Rightarrow> cache \<times> 's" where
  "schedule_cycle scheduler_name fw cl now leader ca s =
     (if \<not> leader then (ca, s)
      else case cache_refresh cl ca s of
        (Some _, ca', s') \<Rightarrow> (ca', s')
      | (None, ca', s') \<Rightarrow>
          (ca', fold (\<lambda>ship s. if leader then snd (schedule_ship fw cl now ca' ship s) else s)
             (filter (is_unscheduled scheduler_name) (ca_ships ca')) s'))"

section \<open>The requests of a run\<close>

text \<open>Any client with a log of its writes.\<close>

definition log_read :: "('s \<Rightarrow> 'a \<times> 's) \<Rightarrow> 's \<times> request list \<Rightarrow> 'a \<times> 's \<times> request list" where
  "log_read f = (\<lambda>(s, l). case f s of (r, s') \<Rightarrow> (r, s', l))"

definition logged :: "'s client \<Rightarrow> ('s \<times> request list) client" where
  "logged cl = \<lparr>cl_cluster_network_classes = log_read (cl_cluster_network_classes cl),
     cl_network_classes = log_read (cl_network_classes cl), cl_runtime_classes = log_read (cl_runtime_classes cl),
     cl_nodes = log_read (cl_nodes cl), cl_ships = log_read (cl_ships cl),
     cl_ship_classes = log_read (cl_ship_classes cl), cl_pvcs = log_read (cl_pvcs cl), cl_pvs = log_read (cl_pvs cl),
     cl_storage_classes = log_read (cl_storage_classes cl),
     cl_call = (\<lambda>r (s, l). case cl_call cl r s of (e, s') \<Rightarrow> (e, s', l @ [r]))\<rparr>"

lemma logged_call [simp]:
  "cl_call (logged cl) r (s, l) = (fst (cl_call cl r s), snd (cl_call cl r s), l @ [r])"
  by (simp add: logged_def split: prod.split)

lemma refresh_field_log:
  "snd (snd (snd (refresh_field (log_read f) upd (e, ca, s, l)))) = l"
  by (auto simp: refresh_field_def log_read_def split: option.split prod.split sum.split)

lemma refresh_field_log':
  "snd (snd (snd x)) = l \<Longrightarrow> snd (snd (snd (refresh_field (log_read f) upd x))) = l"
  by (cases x) (auto simp: refresh_field_log)

lemma cache_refresh_log: "snd (snd (snd (cache_refresh (logged cl) ca (s, l)))) = l"
  unfolding cache_refresh_def logged_def
  by (simp, intro refresh_field_log') simp

text \<open>The claims that the binding of a Ship to a node has to annotate.\<close>

definition claims_to_annotate :: "scheduling_context \<Rightarrow> string \<Rightarrow> persistent_volume_claim list \<Rightarrow> string list" where
  "claims_to_annotate ctx n pvcs =
     filter_map (\<lambda>pvc. if is_unbound_wffc_claim ctx pvc \<and> selected_node pvc \<noteq> Some n then meta_name (pvc_meta pvc) else None) pvcs"

lemma annotate_log:
  assumes "annotate_wffc_claims (logged cl) ctx ns n pvcs (s, l) = (r, s', l')"
  shows "\<exists>k. l' = l @ take k (map (\<lambda>c. PatchClaim ns c n) (claims_to_annotate ctx n pvcs)) \<and>
    (r = None \<longrightarrow> l' = l @ map (\<lambda>c. PatchClaim ns c n) (claims_to_annotate ctx n pvcs))"
  using assms
proof (induction pvcs arbitrary: s l)
  case Nil
  then show ?case by (simp add: claims_to_annotate_def)
next
  case (Cons pvc pvcs)
  show ?case
  proof (cases "is_unbound_wffc_claim ctx pvc \<and> selected_node pvc \<noteq> Some n \<and> meta_name (pvc_meta pvc) \<noteq> None")
    case False
    then have "annotate_wffc_claims (logged cl) ctx ns n pvcs (s, l) = (r, s', l')"
      and "claims_to_annotate ctx n (pvc # pvcs) = claims_to_annotate ctx n pvcs"
      using Cons.prems by (auto simp: claims_to_annotate_def split: option.splits)
    then show ?thesis using Cons.IH [of s l] by simp
  next
    case True
    then obtain c where c: "meta_name (pvc_meta pvc) = Some c" by auto
    have cs: "claims_to_annotate ctx n (pvc # pvcs) = c # claims_to_annotate ctx n pvcs"
      using True c by (simp add: claims_to_annotate_def)
    show ?thesis
    proof (cases "fst (cl_call cl (PatchClaim ns c n) s)")
      case None
      then have "annotate_wffc_claims (logged cl) ctx ns n pvcs (snd (cl_call cl (PatchClaim ns c n) s), l @ [PatchClaim ns c n])
          = (r, s', l')"
        using Cons.prems True c by simp
      from Cons.IH [OF this] obtain k
        where "l' = (l @ [PatchClaim ns c n]) @ take k (map (\<lambda>c. PatchClaim ns c n) (claims_to_annotate ctx n pvcs))"
          and "r = None \<longrightarrow> l' = (l @ [PatchClaim ns c n]) @ map (\<lambda>c. PatchClaim ns c n) (claims_to_annotate ctx n pvcs)"
        by blast
      then show ?thesis by (intro exI [of _ "Suc k"]) (simp add: cs)
    next
      case (Some e)
      then have "r = Some e" "l' = l @ [PatchClaim ns c n]" using Cons.prems True c by auto
      then show ?thesis by (intro exI [of _ 1]) (simp add: cs)
    qed
  qed
qed

fun is_bind :: "request \<Rightarrow> bool" where
  "is_bind (ReplaceShip _ _ _) = True"
| "is_bind _ = False"

text \<open>The requests of one call of \<^const>\<open>schedule_ship\<close>, in the order in which they are sent.\<close>

definition binding_requests :: "framework \<Rightarrow> cache \<Rightarrow> ship \<Rightarrow> request list \<Rightarrow> bool" where
  "binding_requests fw ca ship rs \<longleftrightarrow>
     (\<exists>cls node. cache_find_ship_class ca (ship_class_name ship) = Some cls \<and>
        framework_schedule fw (cache_context ca ship cls) (ca_nodes ca) = Some node \<and>
        rs = map (\<lambda>c. PatchClaim (ship_namespace (cache_context ca ship cls)) c (node_name_or ''unknown'' node))
               (claims_to_annotate (cache_context ca ship cls) (node_name_or ''unknown'' node)
                  (ship_persistent_volume_claims (cache_context ca ship cls))) @
             [ReplaceShip (ship_namespace (cache_context ca ship cls)) (unwrap_or ''unknown'' (meta_name (ship_meta ship)))
                (bind_ship (node_name_or ''unknown'' node) ship)])"

lemma schedule_ship_log:
  "\<exists>rs. snd (snd (schedule_ship fw (logged cl) now ca ship (s, l))) = l @ rs \<and>
     (filter is_bind rs = [] \<or> binding_requests fw ca ship rs)"
proof (cases "cache_find_ship_class ca (ship_class_name ship)")
  case None
  then show ?thesis
    by (simp add: schedule_ship_def update_ship_scheduling_status_def Let_def)
next
  case (Some cls)
  let ?req = "nonempty_trimmed (Option.bind (ship_spec ship) ss_runtime_class)"
    and ?ctx = "cache_context ca ship cls"
  have ns: "unwrap_or ''default'' (meta_namespace (ship_meta ship)) = ship_namespace ?ctx"
    by (simp add: ship_namespace_def cache_context_def)
  show ?thesis
  proof (cases "is_some_and (\<lambda>rc. cache_find_runtime_class ca rc = None) ?req")
    case True
    then show ?thesis by (simp add: schedule_ship_def update_ship_scheduling_status_def Let_def Some)
  next
    case rc: False
    show ?thesis
    proof (cases "framework_schedule fw ?ctx (ca_nodes ca)")
      case None
      then show ?thesis using rc by (simp add: schedule_ship_def Let_def Some)
    next
      case node: (Some node)
      let ?n = "node_name_or ''unknown'' node"
      obtain r s' l' where a: "annotate_wffc_claims (logged cl) ?ctx (ship_namespace ?ctx) ?n (ship_persistent_volume_claims ?ctx) (s, l)
          = (r, s', l')" by (metis prod_cases3)
      from annotate_log [OF a] obtain k
        where l': "l' = l @ take k (map (\<lambda>c. PatchClaim (ship_namespace ?ctx) c ?n) (claims_to_annotate ?ctx ?n (ship_persistent_volume_claims ?ctx)))"
          and ok: "r = None \<longrightarrow> l' = l @ map (\<lambda>c. PatchClaim (ship_namespace ?ctx) c ?n) (claims_to_annotate ?ctx ?n (ship_persistent_volume_claims ?ctx))"
        by blast
      show ?thesis
      proof (cases r)
        case (Some e)
        then show ?thesis
          using l' rc node by (simp add: schedule_ship_def Let_def \<open>cache_find_ship_class _ _ = Some cls\<close> ns a take_map filter_map comp_def)
      next
        case None
        then have "snd (snd (schedule_ship fw (logged cl) now ca ship (s, l))) =
            l' @ [ReplaceShip (ship_namespace ?ctx) (unwrap_or ''unknown'' (meta_name (ship_meta ship))) (bind_ship ?n ship)]"
          using rc node
          by (simp add: schedule_ship_def Let_def Some ns a split: option.split api_error.split prod.split)
        then show ?thesis using ok None Some node by (auto simp: binding_requests_def)
      qed
    qed
  qed
qed

lemma fold_schedule_log:
  "\<exists>rss. snd (fold (\<lambda>ship s. if True then snd (schedule_ship fw (logged cl) now ca ship s) else s) ships (s, l)) = l @ concat rss \<and>
     list_all2 (\<lambda>ship rs. filter is_bind rs = [] \<or> binding_requests fw ca ship rs) ships rss"
proof (induction ships arbitrary: s l)
  case (Cons ship ships)
  obtain rs where rs: "snd (snd (schedule_ship fw (logged cl) now ca ship (s, l))) = l @ rs"
    "filter is_bind rs = [] \<or> binding_requests fw ca ship rs"
    using schedule_ship_log [of fw cl now ca ship s l] by blast
  obtain s' where st: "snd (schedule_ship fw (logged cl) now ca ship (s, l)) = (s', l @ rs)"
    using rs(1) by (metis prod.collapse)
  obtain rss where "snd (fold (\<lambda>ship s. if True then snd (schedule_ship fw (logged cl) now ca ship s) else s) ships (s', l @ rs))
      = (l @ rs) @ concat rss"
    "list_all2 (\<lambda>ship rs. filter is_bind rs = [] \<or> binding_requests fw ca ship rs) ships rss"
    using Cons.IH by blast
  then show ?case using rs(2) st by (intro exI [of _ "rs # rss"]) simp
qed simp

lemma sublist_concat: "rs \<in> set rss \<Longrightarrow> sublist rs (concat rss)"
  by (metis concat_append concat.simps(2) split_list sublist_appendI append.assoc)

lemma binding_requests_last:
  assumes "binding_requests fw ca ship rs" and "ReplaceShip ns n b \<in> set rs"
  shows "\<exists>cls node. cache_find_ship_class ca (ship_class_name ship) = Some cls \<and>
    framework_schedule fw (cache_context ca ship cls) (ca_nodes ca) = Some node \<and>
    b = bind_ship (node_name_or ''unknown'' node) ship \<and>
    rs = map (\<lambda>c. PatchClaim ns c (node_name_or ''unknown'' node))
           (claims_to_annotate (cache_context ca ship cls) (node_name_or ''unknown'' node)
             (ship_persistent_volume_claims (cache_context ca ship cls))) @ [ReplaceShip ns n b]"
  using assms by (auto simp: binding_requests_def)

section \<open>Properties\<close>

text \<open>
  C1: Whatever the API server answers, in one iteration of the loop the scheduler sends a binding
  only as leader, only for a Ship of its refreshed cache that has no node and belongs to it, and only
  to a node that every filter accepts in that cache, at a maximal score; and the claims that wait for
  their first consumer have all been annotated with that node first.
\<close>

theorem cycle_binds_feasible_nodes:
  assumes run: "schedule_cycle name fw (logged cl) now leader ca (s, []) = (ca', s', lg)"
    and bind: "ReplaceShip ns n bound \<in> set lg"
  shows "leader \<and> (\<exists>ship cls node claims.
    ship \<in> set (ca_ships ca') \<and> is_unscheduled name ship \<and> bound = bind_ship (node_name_or ''unknown'' node) ship \<and>
    cache_find_ship_class ca' (ship_class_name ship) = Some cls \<and>
    node \<in> set (ca_nodes ca') \<and> feasible fw (cache_context ca' ship cls) node \<and>
    (\<forall>m \<in> set (ca_nodes ca'). feasible fw (cache_context ca' ship cls) m \<longrightarrow>
       total_score fw (cache_context ca' ship cls) m \<le> total_score fw (cache_context ca' ship cls) node) \<and>
    claims = claims_to_annotate (cache_context ca' ship cls) (node_name_or ''unknown'' node)
      (ship_persistent_volume_claims (cache_context ca' ship cls)) \<and>
    sublist (map (\<lambda>c. PatchClaim ns c (node_name_or ''unknown'' node)) claims @ [ReplaceShip ns n bound]) lg)"
proof -
  have leader: leader
    using assms by (cases leader) (auto simp: schedule_cycle_def)
  obtain e c s1 l1 where ref: "cache_refresh (logged cl) ca (s, []) = (e, c, s1, l1)" by (metis prod_cases4)
  have l1: "l1 = []" using cache_refresh_log [of cl ca s "[]"] by (simp add: ref)
  have e: "e = None" using assms leader by (cases e) (auto simp: schedule_cycle_def ref l1)
  let ?ships = "filter (is_unscheduled name) (ca_ships c)"
  have c: "c = ca'" and lg: "lg = snd (fold (\<lambda>ship s. if True then snd (schedule_ship fw (logged cl) now c ship s) else s) ?ships (s1, []))"
    using run leader by (auto simp: schedule_cycle_def ref e l1)
  obtain rss where rss: "lg = concat rss"
    and all: "list_all2 (\<lambda>ship rs. filter is_bind rs = [] \<or> binding_requests fw c ship rs) ?ships rss"
    using fold_schedule_log [where l = "[]" and ships = ?ships and s = s1 and fw = fw and cl = cl and ca = c and now = now]
    by (auto simp: lg)
  from bind obtain rs where rs: "rs \<in> set rss" "ReplaceShip ns n bound \<in> set rs" by (auto simp: rss)
  then have "filter is_bind rs \<noteq> []" by (force simp: filter_empty_conv)
  from rs(1) obtain i where i: "i < length rss" "rs = rss ! i" by (auto simp: in_set_conv_nth)
  with all have req: "binding_requests fw c (?ships ! i) rs"
    using list_all2_nthD2 [OF all, of i] \<open>filter is_bind rs \<noteq> []\<close> by simp
  obtain ship where req: "binding_requests fw c ship rs" and ship: "ship \<in> set ?ships"
    using req i(1) list_all2_lengthD [OF all] nth_mem by metis
  from binding_requests_last [OF req rs(2)] obtain cls node
    where cls: "cache_find_ship_class c (ship_class_name ship) = Some cls"
      and sch: "framework_schedule fw (cache_context c ship cls) (ca_nodes c) = Some node"
      and b: "bound = bind_ship (node_name_or ''unknown'' node) ship"
      and eq: "rs = map (\<lambda>x. PatchClaim ns x (node_name_or ''unknown'' node))
           (claims_to_annotate (cache_context c ship cls) (node_name_or ''unknown'' node)
             (ship_persistent_volume_claims (cache_context c ship cls))) @ [ReplaceShip ns n bound]"
    by blast
  have best: "node \<in> set (ca_nodes c)" "feasible fw (cache_context c ship cls) node"
    "\<forall>m \<in> set (ca_nodes c). feasible fw (cache_context c ship cls) m \<longrightarrow>
       total_score fw (cache_context c ship cls) m \<le> total_score fw (cache_context c ship cls) node"
    using sch unfolding schedule_as_find by (auto dest: find_eq_Some_in)
  have sub: "sublist rs lg" using rs(1) by (simp add: rss sublist_concat)
  show ?thesis
    unfolding c [symmetric] using leader ship cls b best sub [unfolded eq] by (auto intro!: exI)
qed

text \<open>A cluster that answers every call at once and accepts every write.\<close>

definition same_object :: "string \<Rightarrow> string \<Rightarrow> object_meta option \<Rightarrow> bool" where
  "same_object ns n m \<longleftrightarrow> meta_name m = Some n \<and> unwrap_or ''default'' (meta_namespace m) = ns"

definition annotate_claim :: "string \<Rightarrow> persistent_volume_claim \<Rightarrow> persistent_volume_claim" where
  "annotate_claim node_name pvc = pvc\<lparr>pvc_meta := map_option (\<lambda>m. m\<lparr>om_annotations :=
     AList.update ''volume.tugboat.cloud/selected-node'' node_name (om_annotations m)\<rparr>) (pvc_meta pvc)\<rparr>"

fun cluster_call :: "request \<Rightarrow> cache \<Rightarrow> api_error option \<times> cache" where
  "cluster_call (PatchClaim ns n node_name) c =
     (None, c\<lparr>ca_pvcs := map (\<lambda>p. if same_object ns n (pvc_meta p) then annotate_claim node_name p else p) (ca_pvcs c)\<rparr>)"
| "cluster_call (ReplaceShip ns n new) c =
     (None, c\<lparr>ca_ships := map (\<lambda>x. if same_object ns n (ship_meta x) then new else x) (ca_ships c)\<rparr>)"
| "cluster_call (ReplaceShipStatus ns n new) c =
     (None, c\<lparr>ca_ships := map (\<lambda>x. if same_object ns n (ship_meta x) then x\<lparr>ship_status := ship_status new\<rparr> else x) (ca_ships c)\<rparr>)"

definition cluster_client :: "cache client" where
  "cluster_client = \<lparr>cl_cluster_network_classes = (\<lambda>c. (Inr (ca_cluster_network_classes c), c)),
     cl_network_classes = (\<lambda>c. (Inr (ca_network_classes c), c)), cl_runtime_classes = (\<lambda>c. (Inr (ca_runtime_classes c), c)),
     cl_nodes = (\<lambda>c. (Inr (ca_nodes c), c)), cl_ships = (\<lambda>c. (Inr (ca_ships c), c)),
     cl_ship_classes = (\<lambda>c. (Inr (ca_ship_classes c), c)), cl_pvcs = (\<lambda>c. (Inr (ca_pvcs c), c)),
     cl_pvs = (\<lambda>c. (Inr (ca_pvs c), c)), cl_storage_classes = (\<lambda>c. (Inr (ca_storage_classes c), c)),
     cl_call = cluster_call\<rparr>"

lemma cluster_refresh:
  "cache_refresh cluster_client ca c = (None, c, c)"
  by (cases c) (simp add: cache_refresh_def refresh_field_def cluster_client_def)

lemma cluster_refresh_logged:
  "cache_refresh (logged cluster_client) ca (c, l) = (None, c, c, l)"
  by (cases c) (simp add: cache_refresh_def refresh_field_def cluster_client_def logged_def log_read_def)

text \<open>Two Ships of two cores each, one node with three cores.\<close>

definition small_cluster :: cache where
  "small_cluster = cache_new\<lparr>ca_nodes := [example_node ''n'' [] 3 4096 [] []],
     ca_ships := [example_ship ''s1'' ''c'' None, example_ship ''s2'' ''c'' None],
     ca_ship_classes := [example_class ''c'' 2 (nat_to_string 1024)]\<rparr>"

lemma small_cluster_context:
  "cache_context small_cluster (example_ship s ''c'' None) (example_class ''c'' 2 (nat_to_string 1024)) =
     example_context (example_ship s ''c'' None) (example_class ''c'' 2 (nat_to_string 1024))
       [example_ship ''s1'' ''c'' None, example_ship ''s2'' ''c'' None] [example_node ''n'' [] 3 4096 [] []]"
  by (simp add: cache_context_def small_cluster_def cache_new_def example_context_def)

lemma small_cluster_schedule:
  "framework_schedule default_framework (cache_context small_cluster (example_ship s ''c'' None) (example_class ''c'' 2 (nat_to_string 1024)))
     (ca_nodes small_cluster) = Some (example_node ''n'' [] 3 4096 [] [])"
proof -
  have "feasible default_framework (cache_context small_cluster (example_ship s ''c'' None) (example_class ''c'' 2 (nat_to_string 1024)))
      (example_node ''n'' [] 3 4096 [] [])"
    unfolding small_cluster_context feasible_example resource_fit_iff
    by (simp add: allocatable_example requested_example ships_on_def parse_memory_size_bytes u64_max_def)
  then show ?thesis
    unfolding schedule_as_find by (simp add: small_cluster_def)
qed

lemma small_cluster_ship:
  "schedule_ship default_framework cl now small_cluster (example_ship s ''c'' None) c =
    (case cl_call cl (ReplaceShip ''default'' s (example_ship s ''c'' (Some ''n''))) c of
       (None, c') \<Rightarrow> (Bound ''n'', c')
     | (Some (ApiStatus code), c') \<Rightarrow> if code = 409 then (BindConflict, c') else (BindFailed (ApiStatus code), c')
     | (Some OtherError, c') \<Rightarrow> (BindFailed OtherError, c'))"
proof -
  have cls: "cache_find_ship_class small_cluster (ship_class_name (example_ship s ''c'' None)) =
      Some (example_class ''c'' 2 (nat_to_string 1024))"
    by (simp add: cache_find_ship_class_def find_named_def small_cluster_def ship_class_name_def example_defs)
  have claims: "ship_persistent_volume_claims
      (cache_context small_cluster (example_ship s ''c'' None) (example_class ''c'' 2 (nat_to_string 1024))) = []"
    unfolding small_cluster_context by (simp add: ship_persistent_volume_claims_def example_defs)
  have b: "bind_ship ''n'' (example_ship s ''c'' None) = example_ship s ''c'' (Some ''n'')"
    by (simp add: bind_ship_def example_ship_def)
  show ?thesis
    by (simp add: schedule_ship_def Let_def cls small_cluster_schedule claims b nonempty_trimmed_def node_name_or_def)
qed

lemma small_cluster_cycle:
  "schedule_cycle ''default-scheduler'' default_framework (logged cluster_client) now True ca (small_cluster, []) =
     (small_cluster, small_cluster\<lparr>ca_ships := [example_ship ''s1'' ''c'' (Some ''n''), example_ship ''s2'' ''c'' (Some ''n'')]\<rparr>,
      [ReplaceShip ''default'' ''s1'' (example_ship ''s1'' ''c'' (Some ''n'')),
       ReplaceShip ''default'' ''s2'' (example_ship ''s2'' ''c'' (Some ''n''))])"
proof -
  have "filter (is_unscheduled ''default-scheduler'') (ca_ships small_cluster) =
      [example_ship ''s1'' ''c'' None, example_ship ''s2'' ''c'' None]"
    by (simp add: small_cluster_def is_unscheduled_def)
  then show ?thesis
    by (simp add: schedule_cycle_def cluster_refresh_logged small_cluster_ship)
      (simp add: cluster_client_def small_cluster_def same_object_def)
qed

theorem cycle_binds_feasible_nodes_witness:
  "\<exists>ship cls. ship \<in> set (ca_ships small_cluster) \<and> is_unscheduled ''default-scheduler'' ship \<and>
     feasible default_framework (cache_context small_cluster ship cls) (example_node ''n'' [] 3 4096 [] [])"
proof -
  have "ReplaceShip ''default'' ''s1'' (example_ship ''s1'' ''c'' (Some ''n'')) \<in>
      set [ReplaceShip ''default'' ''s1'' (example_ship ''s1'' ''c'' (Some ''n'')),
           ReplaceShip ''default'' ''s2'' (example_ship ''s2'' ''c'' (Some ''n''))]"
    by simp
  from cycle_binds_feasible_nodes [OF small_cluster_cycle [where now = "\<lparr>t_seconds = 0, t_nanos = 0\<rparr>" and ca = cache_new] this]
  obtain ship cls node where "ship \<in> set (ca_ships small_cluster)" "is_unscheduled ''default-scheduler'' ship"
    "node \<in> set (ca_nodes small_cluster)" "feasible default_framework (cache_context small_cluster ship cls) node"
    by blast
  then show ?thesis by (auto simp: small_cluster_def)
qed

text \<open>
  C39: One iteration can overcommit a node: the cache is not updated between two Ships, so two Ships
  of two cores are both bound to the only node, which has three cores.
\<close>

theorem cycle_overcommits_node:
  "let c = snd (schedule_cycle ''default-scheduler'' default_framework cluster_client now True cache_new small_cluster);
       ctx = cache_context c (hd (ca_ships c)) (hd (ca_ship_classes c))
   in map assigned_node (ca_ships c) = [Some ''n'', Some ''n''] \<and>
      (\<Sum>s \<leftarrow> ships_on ctx ''n''. fst (ship_demand ctx s)) = 4 \<and>
      map (fst \<circ> node_allocatable) (ca_nodes c) = [3]"
proof -
  let ?c = "snd (schedule_cycle ''default-scheduler'' default_framework cluster_client now True cache_new small_cluster)"
  let ?on = "\<lambda>s. example_ship s ''c'' (Some ''n'')"
  have "filter (is_unscheduled ''default-scheduler'') (ca_ships small_cluster) =
      [example_ship ''s1'' ''c'' None, example_ship ''s2'' ''c'' None]"
    by (simp add: small_cluster_def is_unscheduled_def)
  then have c: "?c = small_cluster\<lparr>ca_ships := [?on ''s1'', ?on ''s2'']\<rparr>"
    by (simp add: schedule_cycle_def cluster_refresh small_cluster_ship)
      (simp add: cluster_client_def small_cluster_def same_object_def)
  have ctx: "cache_context ?c (hd (ca_ships ?c)) (hd (ca_ship_classes ?c)) =
      example_context (?on ''s1'') (example_class ''c'' 2 (nat_to_string 1024)) [?on ''s1'', ?on ''s2'']
        [example_node ''n'' [] 3 4096 [] []]"
    by (simp add: c) (simp add: cache_context_def small_cluster_def cache_new_def example_context_def)
  show ?thesis
    unfolding Let_def ctx
    by (simp add: c ships_on_def demand_example) (simp add: small_cluster_def allocatable_example)
qed

end
