(* ===== verification/Leader_Election.thy ===== *)
theory Leader_Election
  imports Object_Meta
begin

text \<open>
  \<^verbatim>\<open>LeaderElector\<close> (\<^verbatim>\<open>tugboat-scheduler/src/leader_election.rs\<close>).  Its asynchronous methods are cut at
  their API calls: the program counter is the call whose answer the elector awaits, and one function
  per answer has the code up to the next call.  Several electors run against one lease object of the
  API server: requests and answers may be late or lost, and the clock runs on between the calls.
\<close>

section \<open>Leases\<close>

definition lease_holder :: "lease \<Rightarrow> string option" where
  "lease_holder l = map_option le_holder_identity (le_spec l)"

definition lease_version :: "lease \<Rightarrow> string option" where
  "lease_version l = Option.bind (le_meta l) om_resource_version"

text \<open>The test of \<^verbatim>\<open>try_update_lease\<close> that a lease of another holder is still valid.\<close>

definition lease_valid :: "time \<Rightarrow> lease \<Rightarrow> bool" where
  "lease_valid now l =
     (let duration = unwrap_or 15 (map_option le_lease_duration_seconds (le_spec l)) in
      case Option.bind (le_spec l) le_renew_time of
        None \<Rightarrow> False
      | Some renew_time \<Rightarrow> t_seconds now < i64_add (t_seconds renew_time) duration)"

section \<open>The elector\<close>

datatype elector_pc =
  Idle
| AwaitGet
| AwaitCreate lease
| AwaitRenew nat lease
| AwaitRetryGet nat
| AwaitAcquire lease

record elector =
  el_identity :: string
  el_lease_duration_seconds :: nat
  el_renew_interval_seconds :: nat
  el_is_leader :: bool
  el_pc :: elector_pc

definition elector_new :: "string \<Rightarrow> nat \<Rightarrow> nat \<Rightarrow> elector" where
  "elector_new identity duration interval = \<lparr>el_identity = identity, el_lease_duration_seconds = duration,
     el_renew_interval_seconds = interval, el_is_leader = False, el_pc = Idle\<rparr>"

datatype answer_error = Conflict | OtherFailure

definition return_as :: "bool \<Rightarrow> elector \<Rightarrow> elector" where
  "return_as leader e = e\<lparr>el_is_leader := leader, el_pc := Idle\<rparr>"

definition new_lease :: "time \<Rightarrow> elector \<Rightarrow> lease" where
  "new_lease now e =
     \<lparr>le_meta = Some (object_meta_default\<lparr>om_name := Some ''tugboat-scheduler'', om_namespace := Some ''tugboat-system''\<rparr>),
      le_spec = Some \<lparr>le_acquire_time = Some now, le_holder_identity = el_identity e,
        le_lease_duration_seconds = wrap_i64 (int (el_lease_duration_seconds e)), le_lease_transitions = 0,
        le_preferred_holder = [], le_renew_time = Some now, le_strategy = []\<rparr>\<rparr>"

definition renewed_lease :: "time \<Rightarrow> lease \<Rightarrow> lease" where
  "renewed_lease now l = l\<lparr>le_spec := map_option (\<lambda>s. s\<lparr>le_renew_time := Some now\<rparr>) (le_spec l)\<rparr>"

definition acquired_lease :: "time \<Rightarrow> elector \<Rightarrow> lease \<Rightarrow> lease" where
  "acquired_lease now e l =
     (let transitions = unwrap_or 0 (map_option le_lease_transitions (le_spec l)) in
      l\<lparr>le_spec := map_option (\<lambda>s. s\<lparr>le_holder_identity := el_identity e, le_acquire_time := Some now,
          le_renew_time := Some now, le_lease_transitions := i64_add transitions 1,
          le_lease_duration_seconds := wrap_i64 (int (el_lease_duration_seconds e))\<rparr>) (le_spec l)\<rparr>)"

text \<open>The head of the loop of \<^verbatim>\<open>renew_lease\<close> with \<open>k\<close> attempts left.\<close>

definition renew_lease :: "time \<Rightarrow> elector \<Rightarrow> nat \<Rightarrow> lease \<Rightarrow> elector" where
  "renew_lease now e k l =
     (if k = 0 then return_as False e else e\<lparr>el_pc := AwaitRenew (k - 1) (renewed_lease now l)\<rparr>)"

definition try_update_lease :: "time \<Rightarrow> elector \<Rightarrow> lease \<Rightarrow> elector" where
  "try_update_lease now e l =
     (if lease_holder l = Some (el_identity e) then renew_lease now e 5 l
      else if lease_valid now l then return_as False e
      else e\<lparr>el_pc := AwaitAcquire (acquired_lease now e l)\<rparr>)"

definition try_acquire_or_renew :: "elector \<Rightarrow> elector" where
  "try_acquire_or_renew e = e\<lparr>el_pc := AwaitGet\<rparr>"

definition get_answered :: "time \<Rightarrow> elector \<Rightarrow> answer_error + lease option \<Rightarrow> elector" where
  "get_answered now e r = (case r of
     Inr (Some l) \<Rightarrow> try_update_lease now e l
   | Inr None \<Rightarrow> e\<lparr>el_pc := AwaitCreate (new_lease now e)\<rparr>
   | Inl _ \<Rightarrow> return_as False e)"

definition create_answered :: "elector \<Rightarrow> answer_error option \<Rightarrow> elector" where
  "create_answered e r = return_as (r = None) e"

definition renew_answered :: "elector \<Rightarrow> nat \<Rightarrow> answer_error option \<Rightarrow> elector" where
  "renew_answered e k r = (case r of
     None \<Rightarrow> return_as True e
   | Some Conflict \<Rightarrow> e\<lparr>el_pc := AwaitRetryGet k\<rparr>
   | Some OtherFailure \<Rightarrow> return_as False e)"

definition retry_get_answered :: "time \<Rightarrow> elector \<Rightarrow> nat \<Rightarrow> answer_error + lease option \<Rightarrow> elector" where
  "retry_get_answered now e k r = (case r of
     Inr (Some latest) \<Rightarrow>
       if lease_holder latest = Some (el_identity e) then renew_lease now e k latest else return_as False e
   | Inr None \<Rightarrow> return_as False e
   | Inl _ \<Rightarrow> return_as False e)"

definition acquire_answered :: "elector \<Rightarrow> answer_error option \<Rightarrow> elector" where
  "acquire_answered e r = return_as (r = None) e"

section \<open>The lease object of the API server\<close>

text \<open>
  What the lease endpoints of the API server do: a creation fails if the object exists, a replacement
  if it does not exist or has another resource version than the request; a write makes the next
  revision of the database its version.  Writes of other objects increase the revision, too.
\<close>

record registry =
  reg_lease :: "lease option"
  reg_revision :: nat

definition stamped :: "nat \<Rightarrow> lease \<Rightarrow> lease" where
  "stamped r l = l\<lparr>le_meta := Some ((case le_meta l of None \<Rightarrow> object_meta_default | Some m \<Rightarrow> m)
     \<lparr>om_resource_version := Some (nat_to_string r)\<rparr>)\<rparr>"

definition reg_store :: "lease \<Rightarrow> registry \<Rightarrow> registry" where
  "reg_store l r = \<lparr>reg_lease = Some (stamped (reg_revision r + 1) l), reg_revision = reg_revision r + 1\<rparr>"

definition reg_create :: "lease \<Rightarrow> registry \<Rightarrow> answer_error option \<times> registry" where
  "reg_create l r = (case reg_lease r of None \<Rightarrow> (None, reg_store l r) | Some _ \<Rightarrow> (Some Conflict, r))"

definition reg_replace :: "lease \<Rightarrow> registry \<Rightarrow> answer_error option \<times> registry" where
  "reg_replace l r = (case reg_lease r of
     None \<Rightarrow> (Some OtherFailure, r)
   | Some cur \<Rightarrow> if lease_version l = lease_version cur then (None, reg_store l r) else (Some Conflict, r))"

section \<open>Calls and answers\<close>

datatype answer = GotLease "answer_error + lease option" | Wrote "answer_error option"

text \<open>What the API server does with the call an elector waits for.\<close>

definition serve :: "elector_pc \<Rightarrow> registry \<Rightarrow> answer \<times> registry" where
  "serve pc r = (case pc of
     Idle \<Rightarrow> (Wrote (Some OtherFailure), r)
   | AwaitGet \<Rightarrow> (GotLease (Inr (reg_lease r)), r)
   | AwaitRetryGet k \<Rightarrow> (GotLease (Inr (reg_lease r)), r)
   | AwaitCreate l \<Rightarrow> apfst Wrote (reg_create l r)
   | AwaitRenew k l \<Rightarrow> apfst Wrote (reg_replace l r)
   | AwaitAcquire l \<Rightarrow> apfst Wrote (reg_replace l r))"

definition failed_call :: "elector_pc \<Rightarrow> answer" where
  "failed_call pc = (case pc of
     AwaitGet \<Rightarrow> GotLease (Inl OtherFailure)
   | AwaitRetryGet k \<Rightarrow> GotLease (Inl OtherFailure)
   | _ \<Rightarrow> Wrote (Some OtherFailure))"

text \<open>The elector goes on with the answer of its call.\<close>

fun deliver :: "time \<Rightarrow> elector \<Rightarrow> answer \<Rightarrow> elector_pc \<Rightarrow> elector" where
  "deliver now e (GotLease r) AwaitGet = get_answered now e r"
| "deliver now e (GotLease r) (AwaitRetryGet k) = retry_get_answered now e k r"
| "deliver now e (Wrote r) (AwaitCreate l) = create_answered e r"
| "deliver now e (Wrote r) (AwaitRenew k l) = renew_answered e k r"
| "deliver now e (Wrote r) (AwaitAcquire l) = acquire_answered e r"
| "deliver now e _ _ = e"

text \<open>One call of \<^verbatim>\<open>try_acquire_or_renew\<close> with nobody else at the registry and the clock standing still.\<close>

fun quiet_run :: "nat \<Rightarrow> time \<Rightarrow> elector \<Rightarrow> registry \<Rightarrow> elector \<times> registry" where
  "quiet_run 0 now e r = (e, r)"
| "quiet_run (Suc n) now e r =
     (if el_pc e = Idle then (e, r)
      else case serve (el_pc e) r of (a, r') \<Rightarrow> quiet_run n now (deliver now e a (el_pc e)) r')"

section \<open>Several electors\<close>

text \<open>
  \<open>sys_answers\<close> has the answers on their way; \<open>sys_late\<close> the calls whose elector has given up waiting
  and which the API server may still carry out.  The history variable \<open>sys_won\<close> has, for every
  elector, the last lease it stored.
\<close>

record election =
  sys_now :: time
  sys_registry :: registry
  sys_electors :: "elector list"
  sys_answers :: "answer option list"
  sys_late :: "(nat \<times> elector_pc) list"
  sys_won :: "lease option list"

definition election_init :: "time \<Rightarrow> registry \<Rightarrow> elector list \<Rightarrow> election" where
  "election_init t r es = \<lparr>sys_now = t, sys_registry = r, sys_electors = es,
     sys_answers = map (\<lambda>_. None) es, sys_late = [], sys_won = map (\<lambda>_. None) es\<rparr>"

fun written :: "elector_pc \<Rightarrow> lease option" where
  "written (AwaitCreate l) = Some l"
| "written (AwaitRenew k l) = Some l"
| "written (AwaitAcquire l) = Some l"
| "written _ = None"

text \<open>Elector \<open>i\<close>'s call \<open>pc\<close> reaches the API server.\<close>

definition serve_call :: "nat \<Rightarrow> elector_pc \<Rightarrow> election \<Rightarrow> election" where
  "serve_call i pc s = (case serve pc (sys_registry s) of (a, r) \<Rightarrow>
     s\<lparr>sys_registry := r,
       sys_won := (if a = Wrote None then (sys_won s)[i := written pc] else sys_won s)\<rparr>)"

definition begin_round :: "nat \<Rightarrow> election \<Rightarrow> election" where
  "begin_round i s = s\<lparr>sys_electors := (sys_electors s)[i := try_acquire_or_renew (sys_electors s ! i)]\<rparr>"

definition answer_call :: "nat \<Rightarrow> election \<Rightarrow> election" where
  "answer_call i s = (let pc = el_pc (sys_electors s ! i) in
     (serve_call i pc s)\<lparr>sys_answers := (sys_answers s)[i := Some (fst (serve pc (sys_registry s)))]\<rparr>)"

definition receive :: "nat \<Rightarrow> answer \<Rightarrow> election \<Rightarrow> election" where
  "receive i a s = (let e = sys_electors s ! i in
     s\<lparr>sys_electors := (sys_electors s)[i := deliver (sys_now s) e a (el_pc e)],
       sys_answers := (sys_answers s)[i := None]\<rparr>)"

definition abandon :: "nat \<Rightarrow> election \<Rightarrow> election" where
  "abandon i s = s\<lparr>sys_late := (i, el_pc (sys_electors s ! i)) # sys_late s\<rparr>"

text \<open>
  A call fails with its answer lost, with the request lost (\<open>fail\<close>), or with the request still under
  way (\<open>give_up\<close>, then perhaps \<open>late\<close>).
\<close>

inductive election_step :: "election \<Rightarrow> election \<Rightarrow> bool" where
  clock: "t_seconds (sys_now s) \<le> t_seconds t \<Longrightarrow> election_step s (s\<lparr>sys_now := t\<rparr>)"
| round: "i < length (sys_electors s) \<Longrightarrow> el_pc (sys_electors s ! i) = Idle \<Longrightarrow>
    election_step s (begin_round i s)"
| serves: "i < length (sys_electors s) \<Longrightarrow> el_pc (sys_electors s ! i) \<noteq> Idle \<Longrightarrow> sys_answers s ! i = None \<Longrightarrow>
    election_step s (answer_call i s)"
| receives: "i < length (sys_electors s) \<Longrightarrow> sys_answers s ! i = Some a \<Longrightarrow>
    election_step s (receive i a s)"
| fail: "i < length (sys_electors s) \<Longrightarrow> el_pc (sys_electors s ! i) \<noteq> Idle \<Longrightarrow>
    election_step s (receive i (failed_call (el_pc (sys_electors s ! i))) s)"
| give_up: "i < length (sys_electors s) \<Longrightarrow> el_pc (sys_electors s ! i) \<noteq> Idle \<Longrightarrow> sys_answers s ! i = None \<Longrightarrow>
    election_step s (receive i (failed_call (el_pc (sys_electors s ! i))) (abandon i s))"
| other_write: "election_step s (s\<lparr>sys_registry := (sys_registry s)\<lparr>reg_revision := reg_revision (sys_registry s) + 1\<rparr>\<rparr>)"
| late: "(i, pc) \<in> set (sys_late s) \<Longrightarrow>
    election_step s (serve_call i pc (s\<lparr>sys_late := remove1 (i, pc) (sys_late s)\<rparr>))"

inductive election_run :: "election \<Rightarrow> election \<Rightarrow> bool" for s0 where
  start: "election_run s0 s0"
| step: "election_run s0 s \<Longrightarrow> election_step s s' \<Longrightarrow> election_run s0 s'"

inductive_cases election_stepE: "election_step s s'"

end
