(* ===== verification/Election_Correct.thy ===== *)
theory Election_Correct
  imports Leader_Election
begin

text \<open>
  Leader election is safe: an invariant of the electors and the calls under way, kept by every step,
  and its consequences; a shared identity breaks it.  A round ends, and makes a free lease the
  elector's.
\<close>

section \<open>The invariant\<close>

definition registry_version :: "registry \<Rightarrow> string option" where
  "registry_version r = Option.bind (reg_lease r) lease_version"

definition registry_ok :: "registry \<Rightarrow> bool" where
  "registry_ok r = (\<forall>c. reg_lease r = Some c \<longrightarrow> (\<exists>n \<le> reg_revision r. lease_version c = Some (nat_to_string n)))"

text \<open>No elector but \<open>i\<close> has a lease that is still running.\<close>

definition safe_for :: "election \<Rightarrow> nat \<Rightarrow> bool" where
  "safe_for s i = (\<forall>j < length (sys_won s). j \<noteq> i \<longrightarrow>
     (\<forall>L. sys_won s ! j = Some L \<longrightarrow> \<not> lease_valid (sys_now s) L))"

text \<open>A lease read from the registry \<open>r\<close> at some time, and a write that some elector may make.\<close>

definition read_ok :: "registry \<Rightarrow> lease \<Rightarrow> bool" where
  "read_ok r c = (\<exists>n \<le> reg_revision r. lease_version c = Some (nat_to_string n) \<and>
     (registry_version r = lease_version c \<longrightarrow> reg_lease r = Some c))"

definition replace_ok :: "election \<Rightarrow> nat \<Rightarrow> lease \<Rightarrow> bool" where
  "replace_ok s i l = (\<exists>n \<le> reg_revision (sys_registry s). lease_version l = Some (nat_to_string n) \<and>
     (registry_version (sys_registry s) = lease_version l \<longrightarrow> safe_for s i))"

definition holder_ok :: "string \<Rightarrow> lease \<Rightarrow> bool" where
  "holder_ok ident l = (lease_holder l \<noteq> None \<longrightarrow> lease_holder l = Some ident)"

fun call_ok :: "election \<Rightarrow> string \<Rightarrow> nat \<Rightarrow> elector_pc \<Rightarrow> bool" where
  "call_ok s ident i (AwaitCreate l) = holder_ok ident l"
| "call_ok s ident i (AwaitRenew k l) = (holder_ok ident l \<and> replace_ok s i l)"
| "call_ok s ident i (AwaitAcquire l) = (holder_ok ident l \<and> replace_ok s i l)"
| "call_ok s ident i _ = True"

fun answer_ok :: "election \<Rightarrow> answer option \<Rightarrow> bool" where
  "answer_ok s (Some (GotLease (Inr (Some c)))) = read_ok (sys_registry s) c"
| "answer_ok s _ = True"

definition won_ok :: "election \<Rightarrow> string \<Rightarrow> lease \<Rightarrow> bool" where
  "won_ok s ident L = (holder_ok ident L \<and>
     (\<not> lease_valid (sys_now s) L \<or> (\<exists>c. reg_lease (sys_registry s) = Some c \<and> le_spec c = le_spec L)))"

definition election_inv :: "string list \<Rightarrow> election \<Rightarrow> bool" where
  "election_inv ids s = (
     map el_identity (sys_electors s) = ids \<and> length (sys_answers s) = length ids \<and> length (sys_won s) = length ids \<and>
     registry_ok (sys_registry s) \<and>
     (reg_lease (sys_registry s) = None \<longrightarrow> (\<forall>i < length ids. sys_won s ! i = None)) \<and>
     (\<forall>i < length ids. \<forall>L. sys_won s ! i = Some L \<longrightarrow> won_ok s (ids ! i) L) \<and>
     (\<forall>i < length ids. call_ok s (ids ! i) i (el_pc (sys_electors s ! i))) \<and>
     (\<forall>(i, pc) \<in> set (sys_late s). i < length ids \<and> call_ok s (ids ! i) i pc) \<and>
     (\<forall>i < length ids. answer_ok s (sys_answers s ! i)) \<and>
     (\<forall>i < length ids. el_is_leader (sys_electors s ! i) \<or> sys_answers s ! i = Some (Wrote None) \<longrightarrow>
        sys_won s ! i \<noteq> None))"

lemma nat_to_string_inj [simp]: "nat_to_string m = nat_to_string n \<longleftrightarrow> m = n"
  by (metis option.inject parse_digits_nat_to_string)

lemma lease_valid_later: "\<not> lease_valid t l \<Longrightarrow> t_seconds t \<le> t_seconds t' \<Longrightarrow> \<not> lease_valid t' l"
  by (auto simp: lease_valid_def Let_def split: option.splits)

lemma lease_valid_spec: "le_spec c = le_spec l \<Longrightarrow> lease_valid t c = lease_valid t l"
  by (simp add: lease_valid_def)

lemma lease_holder_spec: "le_spec c = le_spec l \<Longrightarrow> lease_holder c = lease_holder l"
  by (simp add: lease_holder_def)

lemma stamped_simps [simp]: "le_spec (stamped r l) = le_spec l"
  "lease_version (stamped r l) = Some (nat_to_string r)"
  by (simp_all add: stamped_def lease_version_def)

lemma written_leases [simp]:
  "lease_version (renewed_lease now l) = lease_version l"
  "lease_version (acquired_lease now e l) = lease_version l"
  "lease_holder (renewed_lease now l) = lease_holder l"
  "lease_holder (acquired_lease now e l) = map_option (\<lambda>_. el_identity e) (le_spec l)"
  "lease_holder (new_lease now e) = Some (el_identity e)"
  by (simp_all add: lease_version_def lease_holder_def renewed_lease_def acquired_lease_def new_lease_def Let_def
    option.map_comp comp_def)

lemma return_as_simps [simp]: "el_pc (return_as b e) = Idle" "el_identity (return_as b e) = el_identity e"
  "el_is_leader (return_as b e) = b"
  by (simp_all add: return_as_def)

lemmas answered_defs = get_answered_def create_answered_def renew_answered_def retry_get_answered_def
  acquire_answered_def try_update_lease_def renew_lease_def

lemma deliver_identity [simp]: "el_identity (deliver now e a pc) = el_identity e"
  by (cases "(now, e, a, pc)" rule: deliver.cases)
    (auto simp: answered_defs split: sum.splits option.splits answer_error.splits)

lemma deliver_leader: "el_is_leader (deliver now e a pc) \<Longrightarrow> el_is_leader e \<or> a = Wrote None"
  by (cases "(now, e, a, pc)" rule: deliver.cases)
    (auto simp: answered_defs split: sum.splits option.splits answer_error.splits if_splits)

text \<open>
  What an elector reads from a current lease justifies its write: the lease is its own, so no other
  elector's last lease is in force, or it has run out.
\<close>

lemma read_justifies_replace:
  assumes inv: "election_inv ids s" and "distinct ids" and i: "i < length ids"
    and read: "read_ok (sys_registry s) c"
    and own: "lease_holder c = Some (ids ! i) \<or> \<not> lease_valid (sys_now s) c"
    and version: "lease_version l = lease_version c"
  shows "replace_ok s i l"
proof -
  obtain n where n: "n \<le> reg_revision (sys_registry s)" "lease_version l = Some (nat_to_string n)"
      "registry_version (sys_registry s) = lease_version c \<Longrightarrow> reg_lease (sys_registry s) = Some c"
    using read version by (auto simp: read_ok_def)
  have "safe_for s i" if now: "reg_lease (sys_registry s) = Some c"
    unfolding safe_for_def
  proof (intro allI impI)
    fix j L assume j: "j < length (sys_won s)" "j \<noteq> i" and L: "sys_won s ! j = Some L"
    then have "won_ok s (ids ! j) L" using inv by (simp add: election_inv_def)
    moreover have "ids ! j \<noteq> ids ! i"
      using assms(2) i j inv by (simp add: election_inv_def nth_eq_iff_index_eq)
    ultimately show "\<not> lease_valid (sys_now s) L"
      using own now lease_valid_spec [of c L] lease_holder_spec [of c L]
      by (auto simp: won_ok_def holder_ok_def)
  qed
  then show ?thesis using n version by (auto simp: replace_ok_def)
qed

lemma deliver_call_ok:
  assumes inv: "election_inv ids s" and "distinct ids" and i: "i < length ids"
    and ident: "el_identity e = ids ! i" and a: "answer_ok s (Some a)" and pc: "el_pc e = pc" "call_ok s (ids ! i) i pc"
  shows "call_ok s (ids ! i) i (el_pc (deliver (sys_now s) e a pc))"
proof -
  have justified: "replace_ok s i (renewed_lease (sys_now s) c) \<or> lease_holder c \<noteq> Some (ids ! i)"
    "replace_ok s i (acquired_lease (sys_now s) e c) \<or> lease_valid (sys_now s) c"
    if "read_ok (sys_registry s) c" for c
    using read_justifies_replace [OF inv \<open>distinct ids\<close> i that, of "renewed_lease (sys_now s) c"]
      read_justifies_replace [OF inv \<open>distinct ids\<close> i that, of "acquired_lease (sys_now s) e c"] by auto
  have renew: "call_ok s (ids ! i) i (el_pc (renew_lease (sys_now s) e k c))"
    if "read_ok (sys_registry s) c" "lease_holder c = Some (ids ! i)" for k c
    using justified(1) [OF that(1)] that(2) by (simp add: renew_lease_def holder_ok_def)
  have acquire: "call_ok s (ids ! i) i (el_pc (try_update_lease (sys_now s) e c))"
    if "read_ok (sys_registry s) c" for c
    using renew [OF that] justified(2) [OF that] ident
    by (auto simp: try_update_lease_def holder_ok_def simp del: One_nat_def)
  show ?thesis
    using a pc ident renew acquire
    by (cases "(sys_now s, e, a, pc)" rule: deliver.cases)
      (auto simp: get_answered_def retry_get_answered_def create_answered_def renew_answered_def
         acquire_answered_def holder_ok_def split: sum.split option.split answer_error.split)
qed

text \<open>The parts of the invariant, for an arbitrary successor state.\<close>

lemma election_invD:
  assumes "election_inv ids s"
  shows "map el_identity (sys_electors s) = ids" "length (sys_electors s) = length ids"
    "length (sys_answers s) = length ids" "length (sys_won s) = length ids" "registry_ok (sys_registry s)"
    "i < length ids \<Longrightarrow> el_identity (sys_electors s ! i) = ids ! i"
    "i < length ids \<Longrightarrow> sys_won s ! i = Some L \<Longrightarrow> won_ok s (ids ! i) L"
    "i < length ids \<Longrightarrow> call_ok s (ids ! i) i (el_pc (sys_electors s ! i))"
    "i < length ids \<Longrightarrow> answer_ok s (sys_answers s ! i)"
  using assms by (auto simp: election_inv_def)

lemma election_invI:
  assumes "map el_identity (sys_electors s) = ids" "length (sys_answers s) = length ids"
    "length (sys_won s) = length ids" "registry_ok (sys_registry s)"
    and "\<And>j. reg_lease (sys_registry s) = None \<Longrightarrow> j < length ids \<Longrightarrow> sys_won s ! j = None"
    and "\<And>j L. j < length ids \<Longrightarrow> sys_won s ! j = Some L \<Longrightarrow> won_ok s (ids ! j) L"
    and "\<And>j. j < length ids \<Longrightarrow> call_ok s (ids ! j) j (el_pc (sys_electors s ! j))"
    and "\<And>j pc. (j, pc) \<in> set (sys_late s) \<Longrightarrow> j < length ids \<and> call_ok s (ids ! j) j pc"
    and "\<And>j. j < length ids \<Longrightarrow> answer_ok s (sys_answers s ! j)"
    and "\<And>j. j < length ids \<Longrightarrow> el_is_leader (sys_electors s ! j) \<or> sys_answers s ! j = Some (Wrote None) \<Longrightarrow>
      sys_won s ! j \<noteq> None"
  shows "election_inv ids s"
  using assms unfolding election_inv_def by (simp add: Ball_def split_paired_All)

lemma election_inv_late:
  "election_inv ids s \<Longrightarrow> (j, pc) \<in> set (sys_late s) \<Longrightarrow> j < length ids \<and> call_ok s (ids ! j) j pc"
  by (auto simp: election_inv_def)

lemma election_inv_leads:
  "election_inv ids s \<Longrightarrow> j < length ids \<Longrightarrow>
   el_is_leader (sys_electors s ! j) \<or> sys_answers s ! j = Some (Wrote None) \<Longrightarrow> sys_won s ! j \<noteq> None"
  by (auto simp: election_inv_def)

lemma election_inv_new:
  "election_inv ids s \<Longrightarrow> reg_lease (sys_registry s) = None \<Longrightarrow> j < length ids \<Longrightarrow> sys_won s ! j = None"
  by (auto simp: election_inv_def)

lemma registry_version_store [simp]: "registry_version (reg_store l r) = Some (nat_to_string (reg_revision r + 1))"
  by (simp add: registry_version_def reg_store_def)

lemma reg_revision_store [simp]: "reg_revision (reg_store l r) = reg_revision r + 1"
  by (simp add: reg_store_def)

lemma replace_ok_bump:
  "replace_ok s i l \<Longrightarrow> sys_registry s' = reg_store l' (sys_registry s) \<Longrightarrow> replace_ok s' i l"
  by (auto simp: replace_ok_def)

lemma read_ok_bump: "read_ok r c \<Longrightarrow> read_ok (reg_store l' r) c"
  by (auto simp: read_ok_def)

lemma call_ok_bump:
  "call_ok s ident i pc \<Longrightarrow> sys_registry s' = reg_store l' (sys_registry s) \<Longrightarrow> call_ok s' ident i pc"
  by (cases pc) (auto intro: replace_ok_bump)

lemma answer_ok_bump:
  "answer_ok s a \<Longrightarrow> sys_registry s' = reg_store l' (sys_registry s) \<Longrightarrow> answer_ok s' a"
  by (cases "(s, a)" rule: answer_ok.cases) (auto intro: read_ok_bump)

lemma registry_ok_store: "registry_ok (reg_store l r)"
  by (simp add: registry_ok_def reg_store_def)

text \<open>A successful write: the call was safe, and the registry has the lease written.\<close>

lemma serve_success:
  assumes inv: "election_inv ids s" and i: "i < length ids" and pc: "call_ok s (ids ! i) i pc"
    and ok: "serve pc (sys_registry s) = (Wrote None, r)"
  shows "\<exists>l. written pc = Some l \<and> r = reg_store l (sys_registry s) \<and> holder_ok (ids ! i) l \<and> safe_for s i"
    (is "\<exists>l. ?P l")
proof -
  have replace: "?P l" if l: "written pc = Some l" "reg_replace l (sys_registry s) = (None, r)"
    "holder_ok (ids ! i) l" "replace_ok s i l" for l
  proof -
    obtain cur where "reg_lease (sys_registry s) = Some cur" "lease_version l = lease_version cur"
        "r = reg_store l (sys_registry s)"
      using l(2) by (auto simp: reg_replace_def split: option.splits if_splits)
    then show ?thesis
      using l election_invD(5) [OF inv] by (auto simp: registry_ok_def replace_ok_def registry_version_def)
  qed
  have create: "?P l" if "written pc = Some l" "reg_create l (sys_registry s) = (None, r)" "holder_ok (ids ! i) l" for l
    using that inv by (auto simp: reg_create_def election_inv_def safe_for_def split: option.splits)
  show ?thesis
    using ok pc replace create by (cases pc) (auto simp: serve_def apfst_def map_prod_def split: prod.splits)
qed

lemma serve_failure: "serve pc r = (a, r') \<Longrightarrow> a \<noteq> Wrote None \<Longrightarrow> r' = r"
  by (cases pc) (auto simp: serve_def reg_create_def reg_replace_def split: option.splits if_splits)

lemma serve_answer:
  assumes "registry_ok (sys_registry s)" and "serve pc (sys_registry s) = (a, r)" and "sys_registry s' = r"
  shows "answer_ok s' (Some a)"
  using assms by (cases pc; cases "reg_lease (sys_registry s)")
    (auto simp: serve_def apfst_def map_prod_def read_ok_def registry_ok_def split: prod.splits)

section \<open>Every step keeps the invariant\<close>

lemma clock_inv:
  assumes inv: "election_inv ids s" and t: "t_seconds (sys_now s) \<le> t_seconds t"
  shows "election_inv ids (s\<lparr>sys_now := t\<rparr>)"
proof -
  let ?s = "s\<lparr>sys_now := t\<rparr>"
  have later: "\<not> lease_valid (sys_now s) L \<Longrightarrow> \<not> lease_valid t L" for L
    using lease_valid_later t by blast
  have "safe_for s i \<Longrightarrow> safe_for ?s i" for i
    using later by (auto simp: safe_for_def)
  then have call: "call_ok s ident i pc \<Longrightarrow> call_ok ?s ident i pc" for ident i pc
    by (cases pc) (auto simp: replace_ok_def)
  have answer: "answer_ok s a \<Longrightarrow> answer_ok ?s a" for a
    by (cases "(s, a)" rule: answer_ok.cases) auto
  have "won_ok s ident L \<Longrightarrow> won_ok ?s ident L" for ident L
    using later by (auto simp: won_ok_def)
  then show ?thesis
    using inv call answer unfolding election_inv_def by (auto 0 3)
qed

lemma serve_call_inv:
  assumes inv: "election_inv ids s" and i: "i < length ids" and pc: "call_ok s (ids ! i) i pc"
  shows "election_inv ids (serve_call i pc s)"
proof (cases "fst (serve pc (sys_registry s)) = Wrote None")
  case False
  obtain a r where "serve pc (sys_registry s) = (a, r)" by (cases "serve pc (sys_registry s)")
  then have "serve_call i pc s = s" using False serve_failure [of pc] by (auto simp: serve_call_def)
  then show ?thesis using inv by simp
next
  case True
  obtain l where l: "written pc = Some l" "serve pc (sys_registry s) = (Wrote None, reg_store l (sys_registry s))"
      "holder_ok (ids ! i) l" "safe_for s i"
    using serve_success [OF inv i pc] True by (metis prod.collapse)
  define s' where "s' = serve_call i pc s"
  have s': "s' = s\<lparr>sys_registry := reg_store l (sys_registry s), sys_won := (sys_won s)[i := Some l]\<rparr>"
    using l by (simp add: s'_def serve_call_def)
  have bump: "sys_registry s' = reg_store l (sys_registry s)"
    by (simp add: s')
  have won: "won_ok s' (ids ! j) L" if "j < length ids" "sys_won s' ! j = Some L" for j L
    using that l i election_invD(4) [OF inv] election_invD(7) [OF inv, of j L]
    by (cases "j = i") (auto simp: s' won_ok_def reg_store_def safe_for_def)
  have won_kept: "sys_won s' ! j \<noteq> None" if "j < length ids" "sys_won s ! j \<noteq> None" for j
    using that election_invD(4) [OF inv] by (cases "j = i") (auto simp: s')
  have same: "sys_electors s' = sys_electors s" "sys_answers s' = sys_answers s" "sys_late s' = sys_late s"
      "length (sys_won s') = length (sys_won s)" "sys_registry s' = reg_store l (sys_registry s)"
      "reg_lease (reg_store l (sys_registry s)) \<noteq> None"
    by (simp_all add: s' reg_store_def)
  have "election_inv ids s'"
  proof (rule election_invI)
    fix j assume j: "j < length ids"
    show "call_ok s' (ids ! j) j (el_pc (sys_electors s' ! j))" "answer_ok s' (sys_answers s' ! j)"
      using j by (auto simp: same intro: call_ok_bump [OF _ bump] answer_ok_bump [OF _ bump] election_invD [OF inv])
    show "sys_won s' ! j \<noteq> None"
      if "el_is_leader (sys_electors s' ! j) \<or> sys_answers s' ! j = Some (Wrote None)"
      using that election_inv_leads [OF inv j] won_kept [OF j] unfolding same by blast
    show "sys_won s' ! j = None" if "reg_lease (sys_registry s') = None"
      using that same by simp
  next
    fix j pc assume "(j, pc) \<in> set (sys_late s')"
    then show "j < length ids \<and> call_ok s' (ids ! j) j pc"
      using election_inv_late [OF inv] call_ok_bump [OF _ bump] by (simp only: same)
  qed (use won registry_ok_store election_invD [OF inv] in \<open>simp_all add: same\<close>)
  then show ?thesis by (simp add: s'_def)
qed

text \<open>Changes of the electors and of the calls under way that leave the registry and the history alone.\<close>

lemma electors_inv:
  assumes inv: "election_inv ids s"
    and same: "sys_now s' = sys_now s" "sys_registry s' = sys_registry s" "sys_won s' = sys_won s"
    and "map el_identity (sys_electors s') = ids" "length (sys_answers s') = length ids"
    and calls: "\<And>j. j < length ids \<Longrightarrow> call_ok s (ids ! j) j (el_pc (sys_electors s' ! j))"
    and late: "\<And>j pc. (j, pc) \<in> set (sys_late s') \<Longrightarrow> j < length ids \<and> call_ok s (ids ! j) j pc"
    and answers: "\<And>j. j < length ids \<Longrightarrow> answer_ok s (sys_answers s' ! j)"
    and leaders: "\<And>j. j < length ids \<Longrightarrow> el_is_leader (sys_electors s' ! j) \<or> sys_answers s' ! j = Some (Wrote None) \<Longrightarrow>
      sys_won s ! j \<noteq> None"
  shows "election_inv ids s'"
proof -
  have safe: "safe_for s' = safe_for s" using same by (simp add: safe_for_def fun_eq_iff)
  have call: "call_ok s' ident i pc = call_ok s ident i pc" for ident i pc
    by (cases pc) (simp_all add: replace_ok_def same safe)
  have answer: "answer_ok s' a = answer_ok s a" for a
    by (cases "(s, a)" rule: answer_ok.cases) (simp_all add: same)
  have won: "won_ok s' ident L = won_ok s ident L" for ident L
    by (simp add: won_ok_def same)
  show ?thesis
    by (rule election_invI)
      (use assms election_invD(4,5,7) [OF inv] election_inv_new [OF inv] in \<open>simp_all add: call answer won same\<close>)
qed

lemma other_write_inv:
  assumes inv: "election_inv ids s"
  shows "election_inv ids (s\<lparr>sys_registry := (sys_registry s)\<lparr>reg_revision := reg_revision (sys_registry s) + 1\<rparr>\<rparr>)"
    (is "election_inv ids ?s")
proof -
  have safe: "safe_for ?s = safe_for s" by (simp add: safe_for_def fun_eq_iff)
  have "read_ok (sys_registry s) c \<Longrightarrow> read_ok (sys_registry ?s) c" for c
    by (force simp: read_ok_def registry_version_def)
  then have answer: "answer_ok s a \<Longrightarrow> answer_ok ?s a" for a
    by (cases "(s, a)" rule: answer_ok.cases) auto
  have call: "call_ok s ident i pc \<Longrightarrow> call_ok ?s ident i pc" for ident i pc
    using safe by (cases pc) (force simp: replace_ok_def registry_version_def)+
  have "registry_ok (sys_registry s) \<Longrightarrow> registry_ok (sys_registry ?s)"
    by (force simp: registry_ok_def)
  then show ?thesis
    using inv answer call by (intro election_invI) (auto simp: election_inv_def won_ok_def)
qed

lemma begin_round_inv:
  assumes inv: "election_inv ids s" and i: "i < length ids"
  shows "election_inv ids (begin_round i s)"
proof (rule electors_inv [OF inv])
  note parts = election_invD [OF inv]
  show "map el_identity (sys_electors (begin_round i s)) = ids"
    using parts i by (simp add: begin_round_def try_acquire_or_renew_def list_eq_iff_nth_eq nth_list_update)
  fix j assume j: "j < length ids"
  show "call_ok s (ids ! j) j (el_pc (sys_electors (begin_round i s) ! j))"
    using parts j by (cases "j = i") (simp_all add: begin_round_def try_acquire_or_renew_def)
  show "sys_won s ! j \<noteq> None"
    if "el_is_leader (sys_electors (begin_round i s) ! j) \<or> sys_answers (begin_round i s) ! j = Some (Wrote None)"
    using that inv j by (cases "j = i") (auto simp: begin_round_def try_acquire_or_renew_def election_inv_def)
qed (use inv in \<open>auto simp: begin_round_def election_inv_def\<close>)

lemma receive_inv:
  assumes inv: "election_inv ids s" and dist: "distinct ids" and i: "i < length ids"
    and a: "answer_ok s (Some a)" and leads: "a = Wrote None \<Longrightarrow> sys_won s ! i \<noteq> None"
  shows "election_inv ids (receive i a s)"
proof (rule electors_inv [OF inv])
  note parts = election_invD [OF inv]
  show "map el_identity (sys_electors (receive i a s)) = ids"
    using parts i by (simp add: receive_def Let_def list_eq_iff_nth_eq nth_list_update)
  fix j assume j: "j < length ids"
  show "call_ok s (ids ! j) j (el_pc (sys_electors (receive i a s) ! j))"
    using parts(2) parts(8) [OF j] j
      deliver_call_ok [OF inv dist i parts(6) [OF i] a refl parts(8) [OF i]]
    by (cases "j = i") (simp_all add: receive_def Let_def)
  show "answer_ok s (sys_answers (receive i a s) ! j)"
    using parts(3) parts(9) [OF j] j by (cases "j = i") (simp_all add: receive_def Let_def)
  show "sys_won s ! j \<noteq> None"
    if "el_is_leader (sys_electors (receive i a s) ! j) \<or> sys_answers (receive i a s) ! j = Some (Wrote None)"
    using that inv j leads deliver_leader [of "sys_now s" "sys_electors s ! i" a "el_pc (sys_electors s ! i)"]
    by (cases "j = i") (auto simp: receive_def Let_def election_inv_def)
qed (use inv in \<open>auto simp: receive_def Let_def election_inv_def\<close>)

lemma serve_leads:
  "serve pc (sys_registry s) = (Wrote None, r) \<Longrightarrow> i < length (sys_won s) \<Longrightarrow> sys_won (serve_call i pc s) ! i \<noteq> None"
  by (cases pc) (auto simp: serve_call_def serve_def apfst_def map_prod_def split: prod.splits)

lemma answer_call_inv:
  assumes inv: "election_inv ids s" and i: "i < length ids"
  shows "election_inv ids (answer_call i s)"
proof -
  define pc s1 where "pc = el_pc (sys_electors s ! i)" and "s1 = serve_call i pc s"
  obtain a r where ar: "serve pc (sys_registry s) = (a, r)" by (cases "serve pc (sys_registry s)")
  have inv1: "election_inv ids s1"
    unfolding s1_def pc_def using serve_call_inv [OF inv i] election_invD(8) [OF inv i] by blast
  have same: "sys_answers s1 = sys_answers s" "sys_registry s1 = r"
    by (simp_all add: s1_def serve_call_def ar)
  have ok: "answer_ok s1 (Some a)" by (rule serve_answer [OF election_invD(5) [OF inv] ar same(2)])
  have s': "answer_call i s = s1\<lparr>sys_answers := (sys_answers s1)[i := Some a]\<rparr>"
    using ar same by (simp add: answer_call_def Let_def s1_def pc_def)
  show ?thesis
    unfolding s'
  proof (rule electors_inv [OF inv1])
    fix j assume j: "j < length ids"
    show "answer_ok s1 (sys_answers (s1\<lparr>sys_answers := (sys_answers s1)[i := Some a]\<rparr>) ! j)"
      using ok j election_invD(3) [OF inv1] election_invD(9) [OF inv1, of j] by (cases "j = i") simp_all
    show "sys_won s1 ! j \<noteq> None"
      if "el_is_leader (sys_electors (s1\<lparr>sys_answers := (sys_answers s1)[i := Some a]\<rparr>) ! j) \<or>
        sys_answers (s1\<lparr>sys_answers := (sys_answers s1)[i := Some a]\<rparr>) ! j = Some (Wrote None)"
      using that j election_inv_leads [OF inv1 j] election_invD(3) [OF inv1] election_invD(4) [OF inv]
        serve_leads [of pc s r i] ar
      by (cases "j = i") (auto simp: s1_def)
  qed (use election_invD [OF inv1] election_inv_late [OF inv1] in auto)
qed

lemma late_inv:
  assumes inv: "election_inv ids s" and sub: "set late \<subseteq> set (sys_late s) \<union> {(i, el_pc (sys_electors s ! i)) | i. i < length ids}"
  shows "election_inv ids (s\<lparr>sys_late := late\<rparr>)"
proof (rule electors_inv [OF inv])
  fix j pc assume "(j, pc) \<in> set (sys_late (s\<lparr>sys_late := late\<rparr>))"
  then show "j < length ids \<and> call_ok s (ids ! j) j pc"
    using sub election_inv_late [OF inv] election_invD(8) [OF inv] by auto
qed (use election_invD [OF inv] election_inv_leads [OF inv] in auto)

lemma abandon_inv: "election_inv ids s \<Longrightarrow> i < length ids \<Longrightarrow> election_inv ids (abandon i s)"
  unfolding abandon_def by (rule late_inv) auto

lemma failed_call_answer: "answer_ok s (Some (failed_call pc))" "failed_call pc \<noteq> Wrote None"
  by (cases pc; simp add: failed_call_def)+

lemma receive_failed_inv:
  "election_inv ids s \<Longrightarrow> distinct ids \<Longrightarrow> i < length ids \<Longrightarrow> election_inv ids (receive i (failed_call pc) s)"
  by (rule receive_inv) (simp_all add: failed_call_answer)

lemma election_step_inv:
  assumes "election_step s s'" and inv: "election_inv ids s" and dist: "distinct ids"
  shows "election_inv ids s'"
  using assms(1)
proof cases
  case (clock t)
  then show ?thesis using clock_inv [OF inv] by simp
next
  case (round i)
  then show ?thesis using begin_round_inv [OF inv] election_invD(2) [OF inv] by simp
next
  case (serves i)
  then show ?thesis using answer_call_inv [OF inv] election_invD(2) [OF inv] by simp
next
  case (receives i a)
  then show ?thesis
    using receive_inv [OF inv dist, of i a] election_invD(2) [OF inv] election_invD(9) [OF inv, of i] election_inv_leads [OF inv, of i] by simp
next
  case (fail i)
  then show ?thesis
    using receive_failed_inv [OF inv dist, of i] election_invD(2) [OF inv] by simp
next
  case (give_up i)
  then show ?thesis
    using receive_failed_inv [OF abandon_inv [OF inv] dist, of i i] election_invD(2) [OF inv] by simp
next
  case other_write
  then show ?thesis using other_write_inv [OF inv] by simp
next
  case (late i pc)
  let ?s = "s\<lparr>sys_late := remove1 (i, pc) (sys_late s)\<rparr>"
  have inv': "election_inv ids ?s"
    by (rule late_inv [OF inv]) (use set_remove1_subset in fastforce)
  have "i < length ids" "call_ok ?s (ids ! i) i pc"
  proof -
    have same: "call_ok ?s (ids ! i) i pc = call_ok s (ids ! i) i pc"
      by (cases pc) (simp_all add: replace_ok_def safe_for_def)
    show "i < length ids" "call_ok ?s (ids ! i) i pc"
      unfolding same using election_inv_late [OF inv late(2)] by simp_all
  qed
  then show ?thesis using serve_call_inv [OF inv'] late(1) by simp
qed

lemma election_init_inv:
  assumes "registry_ok r" and "\<forall>e \<in> set es. el_pc e = Idle \<and> \<not> el_is_leader e"
  shows "election_inv (map el_identity es) (election_init t r es)"
  by (rule election_invI) (use assms in \<open>auto simp: election_init_def\<close>)

lemma election_run_inv:
  assumes "election_run (election_init t r es) s" and "registry_ok r" and "distinct (map el_identity es)"
    and "\<forall>e \<in> set es. el_pc e = Idle \<and> \<not> el_is_leader e"
  shows "election_inv (map el_identity es) s"
  using assms(1)
proof induction
  case start
  show ?case by (rule election_init_inv [OF assms(2,4)])
next
  case (step s s')
  then show ?case using election_step_inv [OF step(2) step(3) assms(3)] by blast
qed

section \<open>Scripted runs\<close>

datatype election_action = Begin nat | Answer nat | Receive nat | Tick nat

fun act :: "election_action \<Rightarrow> election \<Rightarrow> election option" where
  "act (Begin i) s = (if i < length (sys_electors s) \<and> el_pc (sys_electors s ! i) = Idle then Some (begin_round i s) else None)"
| "act (Answer i) s = (if i < length (sys_electors s) \<and> el_pc (sys_electors s ! i) \<noteq> Idle \<and> sys_answers s ! i = None
     then Some (answer_call i s) else None)"
| "act (Receive i) s = (if i < length (sys_electors s) then map_option (\<lambda>a. receive i a s) (sys_answers s ! i) else None)"
| "act (Tick n) s = Some (s\<lparr>sys_now := (sys_now s)\<lparr>t_seconds := t_seconds (sys_now s) + int n\<rparr>\<rparr>)"

fun acts :: "election_action list \<Rightarrow> election \<Rightarrow> election option" where
  "acts [] s = Some s"
| "acts (a # rest) s = Option.bind (act a s) (acts rest)"

definition whole_round :: "nat \<Rightarrow> election_action list" where
  "whole_round i = [Begin i, Answer i, Receive i, Answer i, Receive i]"

lemma act_step: "act a s = Some s' \<Longrightarrow> election_step s s'"
  by (cases a) (auto split: if_splits intro: election_step.intros)

lemma acts_run: "acts script s = Some s' \<Longrightarrow> election_run s0 s \<Longrightarrow> election_run s0 s'"
proof (induction script arbitrary: s)
  case (Cons a rest)
  then obtain y where y: "act a s = Some y" "acts rest y = Some s'" by (auto simp: bind_eq_Some_conv)
  then show ?case using Cons.IH election_run.step [OF Cons.prems(2) act_step] by blast
qed simp

definition epoch :: time where
  "epoch = \<lparr>t_seconds = 0, t_nanos = 0\<rparr>"

definition empty_registry :: registry where
  "empty_registry = \<lparr>reg_lease = None, reg_revision = 0\<rparr>"

lemma empty_registry_ok: "registry_ok empty_registry"
  by (simp add: empty_registry_def registry_ok_def)

text \<open>Elector \<open>m\<close> goes through a round, and elector \<open>n\<close> some seconds later.\<close>

definition two_rounds :: "string \<Rightarrow> nat \<Rightarrow> string \<Rightarrow> election option" where
  "two_rounds m d n = acts (whole_round 0 @ [Tick d] @ whole_round 1)
     (election_init epoch empty_registry [elector_new m 15 10, elector_new n 15 10])"

lemmas script_defs = two_rounds_def whole_round_def election_init_def epoch_def empty_registry_def elector_new_def
  begin_round_def answer_call_def receive_def serve_call_def serve_def reg_create_def reg_replace_def reg_store_def
  try_acquire_or_renew_def answered_defs lease_valid_def lease_holder_def lease_version_def stamped_def new_lease_def
  renewed_lease_def acquired_lease_def return_as_def apfst_def map_prod_def Let_def i64_add_def wrap_i64_def

section \<open>Properties\<close>

lemma won_ok_valid:
  assumes "won_ok s ident L" and "lease_valid (sys_now s) L"
  shows "\<exists>c. reg_lease (sys_registry s) = Some c \<and> le_spec c = le_spec L \<and> lease_holder c = Some ident"
proof -
  have "le_spec L \<noteq> None"
    using assms(2) by (cases "le_spec L") (simp_all add: lease_valid_def)
  then have holder: "lease_holder L = Some ident"
    using assms(1) by (auto simp: won_ok_def holder_ok_def lease_holder_def)
  obtain c where "reg_lease (sys_registry s) = Some c" "le_spec c = le_spec L"
    using assms by (auto simp: won_ok_def)
  then show ?thesis using lease_holder_spec [of c L] holder by simp
qed

text \<open>
  C2: However requests and answers are delayed or lost, at no time do two electors with different
  identities both have a lease that is still running, in the sense of the test by which the others
  decide to wait.
\<close>

theorem running_leases_exclusive:
  assumes "election_run (election_init t r es) s" and "registry_ok r" and "distinct (map el_identity es)"
    and "\<forall>e \<in> set es. el_pc e = Idle \<and> \<not> el_is_leader e"
    and "i < length es" and "j < length es" and "i \<noteq> j"
    and "sys_won s ! i = Some L" and "sys_won s ! j = Some M" and "lease_valid (sys_now s) L"
  shows "\<not> lease_valid (sys_now s) M"
proof
  assume "lease_valid (sys_now s) M"
  then have "el_identity (es ! i) = el_identity (es ! j)"
    using won_ok_valid [of s _ L] won_ok_valid [of s _ M] assms
      election_invD(7) [OF election_run_inv [OF assms(1-4)], of i L]
      election_invD(7) [OF election_run_inv [OF assms(1-4)], of j M] by fastforce
  then show False
    using assms(3,5-7) nth_eq_iff_index_eq [of "map el_identity es" i j] by simp
qed

theorem running_leases_exclusive_witness:
  "\<exists>s L M. two_rounds ''a'' 15 ''b'' = Some s \<and> sys_won s = [Some M, Some L] \<and> lease_valid (sys_now s) L \<and>
     \<not> lease_valid (sys_now s) M"
proof -
  obtain s L M where run: "two_rounds ''a'' 15 ''b'' = Some s"
    and s: "sys_won s = [Some M, Some L]" "lease_valid (sys_now s) L"
    by (simp add: script_defs)
  note reached = acts_run [OF run [unfolded two_rounds_def] election_run.start]
  have "\<not> lease_valid (sys_now s) M"
    by (rule running_leases_exclusive [OF reached empty_registry_ok, of 1 0 L]) (use s in \<open>simp_all add: elector_new_def\<close>)
  then show ?thesis using run s by metis
qed

text \<open>
  C27: An elector that takes itself for the leader has stored a lease, and as long as that lease
  runs it is the one in the registry.
\<close>

theorem leader_holds_lease:
  assumes "election_run (election_init t r es) s" and "registry_ok r" and "distinct (map el_identity es)"
    and "\<forall>e \<in> set es. el_pc e = Idle \<and> \<not> el_is_leader e"
    and "i < length es" and "el_is_leader (sys_electors s ! i)"
  shows "\<exists>L. sys_won s ! i = Some L \<and> (lease_valid (sys_now s) L \<longrightarrow>
    (\<exists>c. reg_lease (sys_registry s) = Some c \<and> le_spec c = le_spec L \<and> lease_holder c = Some (el_identity (es ! i))))"
proof -
  note inv = election_run_inv [OF assms(1-4)]
  obtain L where "sys_won s ! i = Some L"
    using election_inv_leads [OF inv] assms(5,6) by auto
  then show ?thesis
    using won_ok_valid [of s _ L] election_invD(7) [OF inv, of i L] assms(5) by auto
qed

theorem leader_holds_lease_witness:
  "\<exists>s L. two_rounds ''a'' 15 ''b'' = Some s \<and> el_is_leader (sys_electors s ! 1) \<and> sys_won s ! 1 = Some L \<and>
     lease_valid (sys_now s) L \<and>
     (\<exists>c. reg_lease (sys_registry s) = Some c \<and> le_spec c = le_spec L \<and> lease_holder c = Some ''b'')"
proof -
  obtain s L where run: "two_rounds ''a'' 15 ''b'' = Some s"
    and s: "el_is_leader (sys_electors s ! 1)" "sys_won s ! 1 = Some L" "lease_valid (sys_now s) L"
    by (simp add: script_defs)
  note reached = acts_run [OF run [unfolded two_rounds_def] election_run.start]
  show ?thesis
    using leader_holds_lease [OF reached empty_registry_ok, of 1] run s by (simp add: elector_new_def)
qed

text \<open>
  C40: Two schedulers with the same identity both lead, with running leases: the second one takes
  the lease of the first for its own and renews it.  The identity is the configured name of the
  scheduler, which all its replicas share.
\<close>

theorem shared_identity_two_leaders:
  "\<exists>s L M. election_run (election_init epoch empty_registry [elector_new n 15 10, elector_new n 15 10]) s \<and>
     list_all el_is_leader (sys_electors s) \<and>
     sys_won s = [Some L, Some M] \<and> lease_valid (sys_now s) L \<and> lease_valid (sys_now s) M"
proof -
  obtain s L M where run: "two_rounds n 0 n = Some s" and "list_all el_is_leader (sys_electors s)"
    and "sys_won s = [Some L, Some M]" "lease_valid (sys_now s) L" "lease_valid (sys_now s) M"
    by (simp add: script_defs)
  moreover have "election_run (election_init epoch empty_registry [elector_new n 15 10, elector_new n 15 10]) s"
    by (rule acts_run [OF run [unfolded two_rounds_def] election_run.start])
  ultimately show ?thesis by metis
qed

section \<open>A round ends\<close>

fun calls_left :: "elector_pc \<Rightarrow> nat" where
  "calls_left Idle = 0"
| "calls_left (AwaitCreate l) = 1"
| "calls_left (AwaitAcquire l) = 1"
| "calls_left (AwaitRetryGet k) = 2 * k + 1"
| "calls_left (AwaitRenew k l) = 2 * k + 2"
| "calls_left AwaitGet = 11"

text \<open>
  The elector against an arbitrary environment, which has a time and an answer for every call: to a
  read the first, to a write the second.
\<close>

type_synonym environment = "nat \<Rightarrow> time \<times> (answer_error + lease option) \<times> answer_error option"

definition reply :: "elector_pc \<Rightarrow> (answer_error + lease option) \<Rightarrow> answer_error option \<Rightarrow> answer" where
  "reply pc g w = (case pc of AwaitGet \<Rightarrow> GotLease g | AwaitRetryGet k \<Rightarrow> GotLease g | _ \<Rightarrow> Wrote w)"

fun play :: "nat \<Rightarrow> environment \<Rightarrow> elector \<Rightarrow> elector" where
  "play 0 env e = e"
| "play (Suc n) env e =
     (if el_pc e = Idle then e
      else case env n of (t, g, w) \<Rightarrow> play n env (deliver t e (reply (el_pc e) g w) (el_pc e)))"

lemma deliver_calls_left:
  "pc \<noteq> Idle \<Longrightarrow> el_pc e = pc \<Longrightarrow> calls_left (el_pc (deliver t e (reply pc g w) pc)) < calls_left pc"
  by (cases pc) (auto simp: reply_def answered_defs split: sum.splits option.splits answer_error.splits)

lemma play_ends: "calls_left (el_pc e) \<le> n \<Longrightarrow> el_pc (play n env e) = Idle"
proof (induction n arbitrary: e)
  case 0
  then show ?case by (cases "el_pc e") auto
next
  case (Suc n)
  obtain t g w where "env n = (t, g, w)" by (cases "env n")
  then show ?case
    using Suc deliver_calls_left [of "el_pc e" e t g w] by (cases "el_pc e = Idle") auto
qed

lemma play_numeral:
  "play (numeral k) env e =
     (if el_pc e = Idle then e
      else case env (pred_numeral k) of (t, g, w) \<Rightarrow> play (pred_numeral k) env (deliver t e (reply (el_pc e) g w) (el_pc e)))"
  by (simp add: numeral_eq_Suc)

text \<open>
  C29: A call of \<^verbatim>\<open>try_acquire_or_renew\<close> ends after at most eleven API calls, whatever their answers;
  ten may not be enough, when all five renewals meet a conflict.
\<close>

theorem round_ends:
  "el_pc (play 11 env (try_acquire_or_renew e)) = Idle \<and>
   (\<exists>env. el_pc (play 10 env (try_acquire_or_renew e)) \<noteq> Idle)"
proof
  show "el_pc (play 11 env (try_acquire_or_renew e)) = Idle"
    by (rule play_ends) (simp add: try_acquire_or_renew_def)
  have "el_pc (play 10 (\<lambda>_. (epoch, Inr (Some (new_lease epoch e)), Some Conflict)) (try_acquire_or_renew e)) \<noteq> Idle"
    by (simp add: play_numeral reply_def try_acquire_or_renew_def answered_defs lease_holder_def new_lease_def)
  then show "\<exists>env. el_pc (play 10 env (try_acquire_or_renew e)) \<noteq> Idle" by blast
qed

section \<open>Progress\<close>

definition available :: "time \<Rightarrow> elector \<Rightarrow> registry \<Rightarrow> bool" where
  "available now e r = (case reg_lease r of
     None \<Rightarrow> True
   | Some c \<Rightarrow> lease_holder c = Some (el_identity e) \<or> \<not> lease_valid now c)"

lemma quiet_run_numeral:
  "quiet_run (numeral k) now e r =
     (if el_pc e = Idle then (e, r)
      else case serve (el_pc e) r of (a, r') \<Rightarrow> quiet_run (pred_numeral k) now (deliver now e a (el_pc e)) r')"
  by (simp add: numeral_eq_Suc)

lemma replaced_version [simp]: "lease_version (c\<lparr>le_spec := sp\<rparr>) = lease_version c"
  by (simp add: lease_version_def)

lemmas round_defs = serve_def try_acquire_or_renew_def answered_defs reg_create_def reg_replace_def reg_store_def
  renewed_lease_def acquired_lease_def new_lease_def return_as_def Let_def

text \<open>
  C28: With no other elector at the lease, one round makes an elector the leader exactly if there is
  no lease, it has the elector's name or it has run out; the registry then has a lease of the
  elector renewed now, and is otherwise unchanged.
\<close>

theorem election_progress:
  assumes "\<forall>c. reg_lease r = Some c \<longrightarrow> le_spec c \<noteq> None"
    and "quiet_run 11 now (try_acquire_or_renew e) r = (e', r')"
  shows "el_pc e' = Idle \<and> el_is_leader e' = available now e r \<and>
    (if available now e r
     then \<exists>c sp. reg_lease r' = Some c \<and> le_spec c = Some sp \<and> le_holder_identity sp = el_identity e \<and>
       le_renew_time sp = Some now
     else r' = r)"
proof (cases "reg_lease r")
  case None
  then show ?thesis
    using assms(2) by (auto simp: quiet_run_numeral available_def round_defs)
next
  case (Some c)
  then obtain sp where sp: "le_spec c = Some sp" using assms(1) by auto
  consider "lease_holder c = Some (el_identity e)" | "lease_holder c \<noteq> Some (el_identity e)" "lease_valid now c"
    | "lease_holder c \<noteq> Some (el_identity e)" "\<not> lease_valid now c" by blast
  then show ?thesis
    using assms(2) Some sp by cases (auto simp: quiet_run_numeral available_def round_defs lease_holder_def)
qed

theorem election_progress_witness:
  "\<exists>e r. quiet_run 11 epoch (try_acquire_or_renew (elector_new ''a'' 15 10)) empty_registry = (e, r) \<and>
     el_is_leader e \<and> map_option lease_holder (reg_lease r) = Some (Some ''a'')"
proof -
  obtain e r where run: "quiet_run 11 epoch (try_acquire_or_renew (elector_new ''a'' 15 10)) empty_registry = (e, r)"
    by (cases "quiet_run 11 epoch (try_acquire_or_renew (elector_new ''a'' 15 10)) empty_registry")
  then show ?thesis
    using election_progress [OF _ run]
    by (auto simp: empty_registry_def available_def elector_new_def lease_holder_def)
qed

end
