(* ===== verification/Json.thy ===== *)
theory Json
  imports Complex_Main Object_Meta
begin

text \<open>
  JSON values of \<^verbatim>\<open>serde_json\<close> as the API server uses them.  A map is a \<^verbatim>\<open>BTreeMap\<close>: the list of its
  entries in the order of the keys.  A floating point number stands for its value.  Then the JSON
  merge patch and the helpers on objects of \<^verbatim>\<open>tugboat-apiserver/src/endpoints/resource_handlers.rs\<close>.
\<close>

section \<open>Values\<close>

datatype json_number = PosInt nat | NegInt int | Float rat

datatype json =
  JNull
| JBool bool
| JNumber json_number
| JString string
| JArray "json list"
| JObject "(string \<times> json) list"

type_synonym json_map = "(string \<times> json) list"

fun as_object :: "json \<Rightarrow> json_map option" where
  "as_object (JObject m) = Some m"
| "as_object _ = None"

fun as_str :: "json \<Rightarrow> string option" where
  "as_str (JString s) = Some s"
| "as_str _ = None"

fun as_array :: "json \<Rightarrow> json list option" where
  "as_array (JArray xs) = Some xs"
| "as_array _ = None"

abbreviation obj_get :: "json_map \<Rightarrow> string \<Rightarrow> json option" where
  "obj_get \<equiv> map_of"

fun obj_insert :: "string \<Rightarrow> 'v \<Rightarrow> (string \<times> 'v) list \<Rightarrow> (string \<times> 'v) list" where
  "obj_insert k v [] = [(k, v)]"
| "obj_insert k v ((k', v') # m) =
     (if k = k' then (k, v) # m
      else if k < k' then (k, v) # (k', v') # m
      else (k', v') # obj_insert k v m)"

definition obj_remove :: "string \<Rightarrow> (string \<times> 'v) list \<Rightarrow> (string \<times> 'v) list" where
  "obj_remove k m = filter (\<lambda>(k', _). k' \<noteq> k) m"

text \<open>\<^verbatim>\<open>entry(k).or_insert(v)\<close>\<close>

definition obj_or_insert :: "string \<Rightarrow> 'v \<Rightarrow> (string \<times> 'v) list \<Rightarrow> (string \<times> 'v) list" where
  "obj_or_insert k v m = (case map_of m k of Some _ \<Rightarrow> m | None \<Rightarrow> obj_insert k v m)"

text \<open>\<^verbatim>\<open>Value::get\<close> with a string: the member of an object.\<close>

definition value_get :: "string \<Rightarrow> json \<Rightarrow> json option" where
  "value_get k v = Option.bind (as_object v) (\<lambda>m. obj_get m k)"

section \<open>Merge patches\<close>

fun rfc7396_merge_patch :: "json \<Rightarrow> json \<Rightarrow> json" and merge_entries :: "json_map \<Rightarrow> json_map \<Rightarrow> json_map" where
  "rfc7396_merge_patch target (JObject patch_map) =
     JObject (merge_entries (case target of JObject m \<Rightarrow> m | _ \<Rightarrow> []) patch_map)"
| "rfc7396_merge_patch target patch = patch"
| "merge_entries target_map [] = target_map"
| "merge_entries target_map ((key, v) # rest) =
     merge_entries
       (if v = JNull then obj_remove key target_map
        else obj_insert key (rfc7396_merge_patch (case obj_get target_map key of None \<Rightarrow> JNull | Some t \<Rightarrow> t) v) target_map)
       rest"

section \<open>Helpers on objects\<close>

definition generation_tracked_fields :: "json_map \<Rightarrow> json_map" where
  "generation_tracked_fields object =
     filter (\<lambda>(key, _). key \<notin> {''metadata'', ''apiVersion'', ''kind'', ''status''}) object"

definition generation_tracked_fields_changed :: "json_map \<Rightarrow> json_map \<Rightarrow> bool" where
  "generation_tracked_fields_changed current updated \<longleftrightarrow>
     generation_tracked_fields current \<noteq> generation_tracked_fields updated"

definition next_generation :: "int option \<Rightarrow> int option" where
  "next_generation current = Some (i64_sat (max (unwrap_or 0 current) 0 + 1))"

definition preserve_metadata_map :: "json_map \<Rightarrow> string \<Rightarrow> json_map \<Rightarrow> json_map" where
  "preserve_metadata_map current_meta field replacement =
     (case obj_get current_meta field of
        Some (JObject current_field) \<Rightarrow>
          if current_field = [] then replacement
          else
            (let replacement = obj_or_insert ''metadata'' (JObject []) replacement in
             case obj_get replacement ''metadata'' of
               Some (JObject meta_map) \<Rightarrow>
                 (let meta_map = obj_or_insert field (JObject []) meta_map;
                      meta_map = (case obj_get meta_map field of
                        Some (JObject target_map) \<Rightarrow>
                          obj_insert field (JObject (fold (\<lambda>(key, v). obj_or_insert key v) current_field target_map)) meta_map
                      | _ \<Rightarrow> meta_map)
                  in obj_insert ''metadata'' (JObject meta_map) replacement)
             | _ \<Rightarrow> replacement)
      | _ \<Rightarrow> replacement)"

section \<open>Maps\<close>

abbreviation map_sorted :: "(string \<times> 'v) list \<Rightarrow> bool" where
  "map_sorted m \<equiv> sorted_wrt (<) (map fst m)"

fun json_ok :: "json \<Rightarrow> bool" where
  "json_ok (JObject m) \<longleftrightarrow> map_sorted m \<and> (\<forall>(k, v) \<in> set m. json_ok v)"
| "json_ok (JArray vs) \<longleftrightarrow> (\<forall>v \<in> set vs. json_ok v)"
| "json_ok _ \<longleftrightarrow> True"

lemma map_of_insert [simp]:
  "map_sorted m \<Longrightarrow> map_of (obj_insert k v m) = (map_of m)(k \<mapsto> v)"
  by (induction m) (auto simp: fun_eq_iff)

lemma keys_obj_insert: "fst ` set (obj_insert k v m) = insert k (fst ` set m)"
  by (induction k v m rule: obj_insert.induct) (simp_all add: insert_commute)

lemma map_sorted_insert [simp]: "map_sorted m \<Longrightarrow> map_sorted (obj_insert k v m)"
proof (induction m)
  case (Cons p m)
  have "\<forall>y \<in> fst ` set (obj_insert k v m). fst p < y" if "\<not> k < fst p" "fst p \<noteq> k"
    using Cons.prems that by (auto simp: keys_obj_insert)
  then show ?case using Cons by (cases p) auto
qed simp

lemma map_of_remove [simp]: "map_of (obj_remove k m) = (map_of m)(k := None)"
  by (induction m) (auto simp: obj_remove_def fun_eq_iff)

lemma map_sorted_filter: "map_sorted m \<Longrightarrow> map_sorted (filter P m)"
  by (induction m) auto

lemma map_sorted_remove [simp]: "map_sorted m \<Longrightarrow> map_sorted (obj_remove k m)"
  by (simp add: obj_remove_def map_sorted_filter)

lemma map_sorted_distinct: "map_sorted m \<Longrightarrow> distinct (map fst m)"
  by (simp add: strict_sorted_iff)

lemma map_of_filter_keys: "map_of (filter (\<lambda>(k, _). P k) m) k = (if P k then map_of m k else None)"
  by (induction m) auto

text \<open>Maps with the same entries are equal.\<close>

lemma map_eqI:
  assumes "map_sorted m" and "map_sorted m'" and "map_of m = map_of m'"
  shows "m = m'"
proof (rule map_sorted_distinct_set_unique [of fst])
  show "set m = set m'"
    using assms map_of_inject_set [of m m'] by (simp add: map_sorted_distinct)
  show "inj_on fst (set m \<union> set m')"
    using assms(1) \<open>set m = set m'\<close> by (metis distinct_map map_sorted_distinct sup.idem)
qed (use assms in \<open>auto simp: strict_sorted_iff\<close>)

lemma map_of_or_insert:
  "map_sorted m \<Longrightarrow> map_of (obj_or_insert k v m) = (case map_of m k of Some _ \<Rightarrow> map_of m | None \<Rightarrow> (map_of m)(k \<mapsto> v))"
  by (auto simp: obj_or_insert_def split: option.split)

lemma map_sorted_or_insert [simp]: "map_sorted m \<Longrightarrow> map_sorted (obj_or_insert k v m)"
  by (auto simp: obj_or_insert_def split: option.split)

text \<open>The entries of a map inside the metadata of an object.\<close>

definition metadata_map :: "string \<Rightarrow> json_map \<Rightarrow> json_map option" where
  "metadata_map field object =
     Option.bind (obj_get object ''metadata'') (\<lambda>v. Option.bind (value_get field v) as_object)"

lemma fold_or_insert:
  assumes "map_sorted m"
  shows "map_sorted (fold (\<lambda>(k, v). obj_or_insert k v) current m) \<and>
    map_of (fold (\<lambda>(k, v). obj_or_insert k v) current m) = map_of current ++ map_of m"
  using assms
proof (induction current arbitrary: m)
  case (Cons p current)
  obtain k v where p: "p = (k, v)" by (cases p)
  have "map_of current ++ map_of (obj_or_insert k v m) = (map_of current)(k \<mapsto> v) ++ map_of m"
    using Cons.prems by (auto simp: map_of_or_insert map_add_def fun_eq_iff split: option.split)
  then show ?case using Cons.IH [of "obj_or_insert k v m"] Cons.prems by (simp add: p fun_upd_def)
qed simp

lemma as_object_Some: "as_object v = Some m \<longleftrightarrow> v = JObject m"
  by (cases v) auto

text \<open>The metadata of an object, and in it a map, are objects with sorted members if they are there.\<close>

definition metadata_entries :: "string \<Rightarrow> json_map \<Rightarrow> json_map" where
  "metadata_entries field object = unwrap_or [] (metadata_map field object)"

definition metadata_members :: "json_map \<Rightarrow> json_map" where
  "metadata_members object = unwrap_or [] (Option.bind (obj_get object ''metadata'') as_object)"

definition metadata_ok :: "string \<Rightarrow> json_map \<Rightarrow> bool" where
  "metadata_ok field object \<longleftrightarrow>
     map_sorted object \<and> map_sorted (metadata_members object) \<and> map_sorted (metadata_entries field object) \<and>
     is_none_or (\<lambda>v. as_object v \<noteq> None) (obj_get object ''metadata'') \<and>
     is_none_or (\<lambda>v. as_object v \<noteq> None) (obj_get (metadata_members object) field)"

lemma obj_insert_twice [simp]: "obj_insert k v (obj_insert k w m) = obj_insert k v m"
  by (induction m) auto

lemma preserve_metadata_map_eq:
  assumes ok: "metadata_ok field r" and current: "obj_get current_meta field = Some (JObject cf)" "cf \<noteq> []"
  shows "preserve_metadata_map current_meta field r = obj_insert ''metadata''
    (JObject (obj_insert field (JObject (fold (\<lambda>(k, v). obj_or_insert k v) cf (metadata_entries field r))) (metadata_members r))) r"
proof (cases "obj_get r ''metadata''")
  case None
  then show ?thesis
    using ok current
    by (simp add: preserve_metadata_map_def metadata_ok_def metadata_entries_def metadata_map_def metadata_members_def
      obj_or_insert_def Let_def)
next
  case (Some v)
  then obtain meta where v: "v = JObject meta"
    using ok by (auto simp: metadata_ok_def as_object_Some)
  show ?thesis
  proof (cases "obj_get meta field")
    case None
    then show ?thesis
      using Some v ok current
      by (simp add: preserve_metadata_map_def metadata_entries_def metadata_map_def metadata_members_def value_get_def
        metadata_ok_def obj_or_insert_def Let_def)
  next
    case field: (Some w)
    then obtain m where "w = JObject m"
      using ok Some v by (auto simp: metadata_ok_def metadata_members_def as_object_Some)
    then show ?thesis
      using Some v current field
      by (simp add: preserve_metadata_map_def metadata_entries_def metadata_map_def metadata_members_def value_get_def
        obj_or_insert_def Let_def)
  qed
qed

lemma metadata_ok_sorted:
  assumes "metadata_ok field r"
  shows "map_sorted r" "map_sorted (metadata_members r)" "map_sorted (metadata_entries field r)"
  using assms by (auto simp: metadata_ok_def)

lemma metadata_entries_members:
  "metadata_entries f r = unwrap_or [] (Option.bind (obj_get (metadata_members r) f) as_object)"
  by (cases "obj_get r ''metadata''")
    (auto simp: metadata_entries_def metadata_map_def metadata_members_def value_get_def split: option.split bind_split
      intro!: arg_cong [where f = "unwrap_or []"])

lemma metadata_members_insert [simp]: "map_sorted r \<Longrightarrow> metadata_members (obj_insert ''metadata'' (JObject m) r) = m"
  by (simp add: metadata_members_def)

lemma preserve_metadata_entries:
  assumes "metadata_ok field r" and "obj_get current_meta field = Some (JObject cf)"
  shows "map_of (metadata_entries field (preserve_metadata_map current_meta field r)) =
      map_of cf ++ map_of (metadata_entries field r)"
proof (cases "cf = []")
  case True
  then show ?thesis using assms(2) by (simp add: preserve_metadata_map_def)
next
  case False
  have "metadata_entries field (preserve_metadata_map current_meta field r) =
      fold (\<lambda>(k, v). obj_or_insert k v) cf (metadata_entries field r)"
    using metadata_ok_sorted [OF assms(1)]
    by (simp add: preserve_metadata_map_eq [OF assms False] metadata_entries_members [of _ "obj_insert _ _ _"])
  then show ?thesis using fold_or_insert [OF metadata_ok_sorted(3) [OF assms(1)], of cf] by simp
qed

lemma preserve_metadata_other_field:
  assumes "metadata_ok other r" "metadata_ok field r" and "other \<noteq> field"
  shows "metadata_ok other (preserve_metadata_map current_meta field r) \<and>
    metadata_entries other (preserve_metadata_map current_meta field r) = metadata_entries other r"
proof (cases "\<exists>cf. obj_get current_meta field = Some (JObject cf) \<and> cf \<noteq> []")
  case True
  then obtain cf where cf: "obj_get current_meta field = Some (JObject cf)" "cf \<noteq> []" by blast
  let ?r = "preserve_metadata_map current_meta field r"
  have "map_sorted ?r" "map_sorted (metadata_members ?r)" "obj_get (metadata_members ?r) other = obj_get (metadata_members r) other"
    "is_none_or (\<lambda>v. as_object v \<noteq> None) (obj_get ?r ''metadata'')"
    using metadata_ok_sorted [OF assms(2)] assms(3) by (simp_all add: preserve_metadata_map_eq [OF assms(2) cf])
  then show ?thesis
    using assms(1) by (simp add: metadata_ok_def metadata_entries_members)
next
  case False
  then have "preserve_metadata_map current_meta field r = r"
    by (auto simp: preserve_metadata_map_def split: option.split json.split)
  then show ?thesis using assms(1) by simp
qed

lemma preserve_metadata_same_field:
  assumes "metadata_ok field r"
  shows "metadata_ok field (preserve_metadata_map current_meta field r)"
proof (cases "\<exists>cf. obj_get current_meta field = Some (JObject cf) \<and> cf \<noteq> []")
  case True
  then obtain cf where cf: "obj_get current_meta field = Some (JObject cf)" "cf \<noteq> []" by blast
  show ?thesis
    using metadata_ok_sorted [OF assms] fold_or_insert [OF metadata_ok_sorted(3) [OF assms], of cf]
    by (simp add: preserve_metadata_map_eq [OF assms cf] metadata_ok_def metadata_entries_members [of _ "obj_insert _ _ _"])
next
  case False
  then have "preserve_metadata_map current_meta field r = r"
    by (auto simp: preserve_metadata_map_def split: option.split json.split)
  then show ?thesis using assms by simp
qed

section \<open>What a merge patch does\<close>

definition json_members :: "json \<Rightarrow> json_map" where
  "json_members v = (case v of JObject m \<Rightarrow> m | _ \<Rightarrow> [])"

lemma map_sorted_merge: "map_sorted m \<Longrightarrow> map_sorted (merge_entries m pm)"
  by (induction pm arbitrary: m) (auto split: if_splits)

lemma merge_entries_lookup:
  assumes "map_sorted m" and "distinct (map fst pm)"
  shows "map_of (merge_entries m pm) k = (case map_of pm k of
     None \<Rightarrow> map_of m k
   | Some v \<Rightarrow> if v = JNull then None
       else Some (rfc7396_merge_patch (case map_of m k of None \<Rightarrow> JNull | Some t \<Rightarrow> t) v))"
  using assms
proof (induction pm arbitrary: m)
  case (Cons p pm)
  obtain key v where p: "p = (key, v)" by (cases p)
  have "map_of pm key = None" using Cons.prems(2) by (simp add: p map_of_eq_None_iff)
  then show ?case using Cons.IH Cons.prems by (auto simp: p split: option.split)
qed simp

lemma json_ok_members: "json_ok t \<Longrightarrow> map_sorted (json_members t)"
  by (cases t) (auto simp: json_members_def)

lemma merge_patch_object:
  "rfc7396_merge_patch t (JObject pm) = JObject (merge_entries (json_members t) pm)"
  by (simp add: json_members_def)

lemma json_ok_lookup: "json_ok (JObject m) \<Longrightarrow> map_of m k = Some v \<Longrightarrow> json_ok v"
  by (auto dest!: map_of_SomeD)

lemma merge_patch_idempotent:
  "json_ok p \<Longrightarrow> json_ok t \<Longrightarrow> rfc7396_merge_patch (rfc7396_merge_patch t p) p = rfc7396_merge_patch t p"
proof (induction p arbitrary: t)
  case (JObject pm)
  let ?m = "merge_entries (json_members t) pm"
  have sorted: "map_sorted (json_members t)" "distinct (map fst pm)"
    using JObject.prems by (simp_all add: json_ok_members map_sorted_distinct)
  note twice = merge_entries_lookup [OF map_sorted_merge [OF sorted(1)] sorted(2)]
  have "merge_entries ?m pm = ?m"
  proof (rule map_eqI)
    show "map_of (merge_entries ?m pm) = map_of ?m"
    proof
      fix k
      show "map_of (merge_entries ?m pm) k = map_of ?m k"
      proof (cases "map_of pm k")
        case (Some v)
        define old where "old = (case map_of (json_members t) k of None \<Rightarrow> JNull | Some u \<Rightarrow> u)"
        have "json_ok old"
          using JObject.prems(2) by (cases t) (auto simp: old_def json_members_def dest!: map_of_SomeD split: option.split)
        then have "rfc7396_merge_patch (rfc7396_merge_patch old v) v = rfc7396_merge_patch old v"
          using JObject.IH [of "(k, v)" v old] JObject.prems(1) Some by (auto dest!: map_of_SomeD)
        then show ?thesis using Some by (simp add: twice merge_entries_lookup [OF sorted] old_def)
      qed (simp add: twice merge_entries_lookup [OF sorted])
    qed
  qed (use sorted in \<open>simp_all add: map_sorted_merge\<close>)
  then show ?case by (simp only: merge_patch_object) (simp add: json_members_def)
qed simp_all

text \<open>
  C35: A JSON merge patch that is an object gives an object with, for every member of the patch that is
  null, no such member; for every other member of the patch the patched old member; and all other
  members of the target.  Applied again it changes nothing.  Any other patch replaces the target.
\<close>

theorem merge_patch_rfc7396:
  assumes "json_ok target" and "json_ok patch"
  shows "(case patch of
      JObject pm \<Rightarrow> (\<exists>m. rfc7396_merge_patch target patch = JObject m \<and> map_sorted m \<and>
        (\<forall>k. obj_get m k = (case obj_get pm k of
           None \<Rightarrow> obj_get (json_members target) k
         | Some JNull \<Rightarrow> None
         | Some v \<Rightarrow> Some (rfc7396_merge_patch (case obj_get (json_members target) k of None \<Rightarrow> JNull | Some t \<Rightarrow> t) v))))
    | _ \<Rightarrow> rfc7396_merge_patch target patch = patch) \<and>
    rfc7396_merge_patch (rfc7396_merge_patch target patch) patch = rfc7396_merge_patch target patch"
proof (cases patch)
  case (JObject pm)
  have sorted: "map_sorted (json_members target)" "distinct (map fst pm)"
    using assms by (simp_all add: json_ok_members map_sorted_distinct JObject)
  have "obj_get (merge_entries (json_members target) pm) k = (case obj_get pm k of
           None \<Rightarrow> obj_get (json_members target) k
         | Some JNull \<Rightarrow> None
         | Some v \<Rightarrow> Some (rfc7396_merge_patch (case obj_get (json_members target) k of None \<Rightarrow> JNull | Some t \<Rightarrow> t) v))" for k
    unfolding merge_entries_lookup [OF sorted] by (auto split: option.split json.split)
  then show ?thesis
    using merge_patch_idempotent [OF assms(2,1)] map_sorted_merge [OF sorted(1), of pm]
    by (simp add: JObject merge_patch_object del: rfc7396_merge_patch.simps(1))
qed (use merge_patch_idempotent [OF assms(2,1)] in simp_all)

theorem merge_patch_rfc7396_witness:
  "rfc7396_merge_patch (JObject [(''a'', JString ''b''), (''c'', JBool True)])
     (JObject [(''a'', JNull), (''d'', JObject [(''e'', JBool False), (''f'', JNull)])]) =
   JObject [(''c'', JBool True), (''d'', JObject [(''e'', JBool False)])] \<and>
   rfc7396_merge_patch (JObject [(''c'', JBool True), (''d'', JObject [(''e'', JBool False)])])
     (JObject [(''a'', JNull), (''d'', JObject [(''e'', JBool False), (''f'', JNull)])]) =
   JObject [(''c'', JBool True), (''d'', JObject [(''e'', JBool False)])]"
  using merge_patch_rfc7396 [of "JObject [(''a'', JString ''b''), (''c'', JBool True)]"
    "JObject [(''a'', JNull), (''d'', JObject [(''e'', JBool False), (''f'', JNull)])]"]
  by (simp add: obj_remove_def)

end
