(* ===== verification/Etcd.thy ===== *)
theory Etcd
  imports Object_Meta
begin

text \<open>
  The interface of the etcd client that \<^verbatim>\<open>tugboat-resource-store\<close> calls.  etcd is not part of the
  repository: a client is a record of functions over an arbitrary state, and the locale
  \<open>etcd_client\<close> has what the store relies on, the documented key-value semantics.  Every call takes
  effect at one moment on a database with one revision counter; other clients may change the
  database before and after that moment, and a failed call may or may not have taken effect.
\<close>

section \<open>Requests and responses\<close>

type_synonym bytes = string

record key_value =
  kv_key :: string
  kv_value :: bytes
  kv_create_revision :: int
  kv_mod_revision :: int
  kv_version :: int

datatype compare_op = ModRevisionEq string int | CreateRevisionEq string int

datatype txn_op = OpPut string bytes | OpGet string | OpDelete string

datatype op_response = RespPut | RespGet "key_value list" | RespDelete "key_value list"

record txn_response =
  tr_succeeded :: bool
  tr_revision :: "int option"
  tr_responses :: "op_response list"

record get_response =
  gr_revision :: "int option"
  gr_kvs :: "key_value list"

datatype etcd_error = EtcdError string

record 's etcd =
  et_get :: "string \<Rightarrow> 's \<Rightarrow> (etcd_error + get_response) \<times> 's"
  et_get_prefix :: "string \<Rightarrow> nat option \<Rightarrow> 's \<Rightarrow> (etcd_error + get_response) \<times> 's"
  et_delete :: "string \<Rightarrow> 's \<Rightarrow> (etcd_error + key_value list) \<times> 's"
  et_txn :: "compare_op list \<Rightarrow> txn_op list \<Rightarrow> txn_op list \<Rightarrow> 's \<Rightarrow> (etcd_error + txn_response) \<times> 's"

section \<open>The database\<close>

text \<open>The key-value pairs in the order of their keys, and the revision of the last change.\<close>

record mvcc =
  mv_kvs :: "key_value list"
  mv_revision :: int

definition mv_empty :: mvcc where
  "mv_empty = \<lparr>mv_kvs = [], mv_revision = 1\<rparr>"

definition lookup_kv :: "string \<Rightarrow> key_value list \<Rightarrow> key_value option" where
  "lookup_kv k kvs = find (\<lambda>kv. kv_key kv = k) kvs"

abbreviation mv_find :: "mvcc \<Rightarrow> string \<Rightarrow> key_value option" where
  "mv_find db k \<equiv> lookup_kv k (mv_kvs db)"

definition fresh_kv :: "string \<Rightarrow> bytes \<Rightarrow> int \<Rightarrow> key_value" where
  "fresh_kv k v r = \<lparr>kv_key = k, kv_value = v, kv_create_revision = r, kv_mod_revision = r, kv_version = 1\<rparr>"

fun put_kv :: "string \<Rightarrow> bytes \<Rightarrow> int \<Rightarrow> key_value list \<Rightarrow> key_value list" where
  "put_kv k v r [] = [fresh_kv k v r]"
| "put_kv k v r (x # xs) =
     (if kv_key x = k then x\<lparr>kv_value := v, kv_mod_revision := r, kv_version := kv_version x + 1\<rparr> # xs
      else if k < kv_key x then fresh_kv k v r # x # xs
      else x # put_kv k v r xs)"

definition delete_kv :: "string \<Rightarrow> key_value list \<Rightarrow> key_value list" where
  "delete_kv k kvs = filter (\<lambda>kv. kv_key kv \<noteq> k) kvs"

definition mod_revision_of :: "mvcc \<Rightarrow> string \<Rightarrow> int" where
  "mod_revision_of db k = (case mv_find db k of None \<Rightarrow> 0 | Some kv \<Rightarrow> kv_mod_revision kv)"

definition create_revision_of :: "mvcc \<Rightarrow> string \<Rightarrow> int" where
  "create_revision_of db k = (case mv_find db k of None \<Rightarrow> 0 | Some kv \<Rightarrow> kv_create_revision kv)"

fun compare_holds :: "mvcc \<Rightarrow> compare_op \<Rightarrow> bool" where
  "compare_holds db (ModRevisionEq k r) \<longleftrightarrow> mod_revision_of db k = r"
| "compare_holds db (CreateRevisionEq k r) \<longleftrightarrow> create_revision_of db k = r"

definition option_list :: "'a option \<Rightarrow> 'a list" where
  "option_list x = (case x of None \<Rightarrow> [] | Some y \<Rightarrow> [y])"

fun run_op :: "int \<Rightarrow> txn_op \<Rightarrow> key_value list \<Rightarrow> op_response \<times> key_value list" where
  "run_op r (OpPut k v) kvs = (RespPut, put_kv k v r kvs)"
| "run_op r (OpGet k) kvs = (RespGet (option_list (lookup_kv k kvs)), kvs)"
| "run_op r (OpDelete k) kvs = (RespDelete (option_list (lookup_kv k kvs)), delete_kv k kvs)"

fun run_ops :: "int \<Rightarrow> txn_op list \<Rightarrow> key_value list \<Rightarrow> op_response list \<times> key_value list" where
  "run_ops r [] kvs = ([], kvs)"
| "run_ops r (op # ops) kvs =
     (let (resp, kvs') = run_op r op kvs; (resps, kvs'') = run_ops r ops kvs' in (resp # resps, kvs''))"

fun is_write :: "op_response \<Rightarrow> bool" where
  "is_write RespPut = True"
| "is_write (RespGet _) = False"
| "is_write (RespDelete kvs) = (kvs \<noteq> [])"

definition mvcc_txn :: "compare_op list \<Rightarrow> txn_op list \<Rightarrow> txn_op list \<Rightarrow> mvcc \<Rightarrow> txn_response \<times> mvcc" where
  "mvcc_txn cs th el db =
     (let ok = list_all (compare_holds db) cs;
          (resps, kvs) = run_ops (mv_revision db + 1) (if ok then th else el) (mv_kvs db);
          r = (if list_ex is_write resps then mv_revision db + 1 else mv_revision db)
      in (\<lparr>tr_succeeded = ok, tr_revision = Some r, tr_responses = resps\<rparr>, \<lparr>mv_kvs = kvs, mv_revision = r\<rparr>))"

definition mvcc_get :: "string \<Rightarrow> mvcc \<Rightarrow> get_response" where
  "mvcc_get k db = \<lparr>gr_revision = Some (mv_revision db), gr_kvs = option_list (mv_find db k)\<rparr>"

definition has_prefix :: "string \<Rightarrow> string \<Rightarrow> bool" where
  "has_prefix p s \<longleftrightarrow> take (length p) s = p"

definition mvcc_get_prefix :: "string \<Rightarrow> nat option \<Rightarrow> mvcc \<Rightarrow> get_response" where
  "mvcc_get_prefix p limit db =
     (let kvs = filter (\<lambda>kv. has_prefix p (kv_key kv)) (mv_kvs db)
      in \<lparr>gr_revision = Some (mv_revision db),
          gr_kvs = (case limit of None \<Rightarrow> kvs | Some n \<Rightarrow> if n = 0 then kvs else take n kvs)\<rparr>)"

definition mvcc_delete :: "string \<Rightarrow> mvcc \<Rightarrow> key_value list \<times> mvcc" where
  "mvcc_delete k db = (option_list (mv_find db k), snd (mvcc_txn [] [OpDelete k] [] db))"

section \<open>What changes of the database keep\<close>

definition mvcc_ok :: "mvcc \<Rightarrow> bool" where
  "mvcc_ok db \<longleftrightarrow> sorted_wrt (<) (map kv_key (mv_kvs db)) \<and> 0 < mv_revision db \<and>
     (\<forall>kv \<in> set (mv_kvs db). 0 < kv_create_revision kv \<and> kv_create_revision kv \<le> kv_mod_revision kv \<and>
        kv_mod_revision kv \<le> mv_revision db \<and> 0 < kv_version kv)"

text \<open>The databases that transactions of any clients can lead to.\<close>

inductive evolves :: "mvcc \<Rightarrow> mvcc \<Rightarrow> bool" for db where
  evolves_refl [intro]: "evolves db db"
| evolves_step [intro]: "evolves db db' \<Longrightarrow> evolves db (snd (mvcc_txn cs th el db'))"

lemma evolves_txn: "mvcc_txn cs th el db = (t, db') \<Longrightarrow> evolves db db'"
  by (metis evolves_refl evolves_step snd_conv)

lemma evolves_trans: "evolves b c \<Longrightarrow> evolves a b \<Longrightarrow> evolves a c"
  by (induction rule: evolves.induct) auto

lemma lookup_kv_simps [simp]:
  "lookup_kv k [] = None"
  "lookup_kv k (x # xs) = (if kv_key x = k then Some x else lookup_kv k xs)"
  by (simp_all add: lookup_kv_def)

lemma lookup_kv_key: "lookup_kv k kvs = Some kv \<Longrightarrow> kv_key kv = k \<and> kv \<in> set kvs"
  by (induction kvs) (auto split: if_splits)

lemma lookup_kv_in: "lookup_kv k kvs = None \<longleftrightarrow> k \<notin> kv_key ` set kvs"
  by (induction kvs) auto

lemma lookup_sorted_less:
  "sorted_wrt (<) (map kv_key xs) \<Longrightarrow> \<forall>x \<in> set xs. k < kv_key x \<Longrightarrow> lookup_kv k xs = None"
  by (auto simp: lookup_kv_in)

lemma lookup_put_kv:
  assumes "sorted_wrt (<) (map kv_key kvs)"
  shows "lookup_kv k' (put_kv k v r kvs) =
    (if k' = k then Some (case lookup_kv k kvs of None \<Rightarrow> fresh_kv k v r
       | Some kv \<Rightarrow> kv\<lparr>kv_value := v, kv_mod_revision := r, kv_version := kv_version kv + 1\<rparr>)
     else lookup_kv k' kvs)"
  using assms
proof (induction kvs)
  case (Cons x xs)
  have "lookup_kv k xs = None" if "k < kv_key x"
    using Cons.prems that by (auto simp: lookup_kv_in)
  then show ?case using Cons by (auto simp: fresh_kv_def)
qed (simp add: fresh_kv_def)

lemma set_put_kv:
  "kv \<in> set (put_kv k v r kvs) \<Longrightarrow> kv \<in> set kvs \<or> kv = fresh_kv k v r \<or>
     (\<exists>old \<in> set kvs. kv = old\<lparr>kv_value := v, kv_mod_revision := r, kv_version := kv_version old + 1\<rparr>)"
  by (induction kvs) (auto split: if_splits)

lemma keys_put_kv: "kv_key ` set (put_kv k v r kvs) = insert k (kv_key ` set kvs)"
  by (induction kvs) (auto simp: fresh_kv_def)

lemma sorted_put_kv:
  "sorted_wrt (<) (map kv_key kvs) \<Longrightarrow> sorted_wrt (<) (map kv_key (put_kv k v r kvs))"
proof (induction kvs)
  case (Cons x xs)
  have "\<forall>y \<in> kv_key ` set (put_kv k v r xs). kv_key x < y" if "\<not> k < kv_key x" "kv_key x \<noteq> k"
    using Cons.prems that by (auto simp: keys_put_kv)
  then show ?case using Cons by (auto simp: fresh_kv_def)
qed (simp add: fresh_kv_def)

lemma lookup_delete_kv: "lookup_kv k' (delete_kv k kvs) = (if k' = k then None else lookup_kv k' kvs)"
  by (induction kvs) (auto simp: delete_kv_def)

lemma sorted_delete_kv: "sorted_wrt (<) (map kv_key kvs) \<Longrightarrow> sorted_wrt (<) (map kv_key (delete_kv k kvs))"
  by (induction kvs) (auto simp: delete_kv_def)

definition entries_ok :: "int \<Rightarrow> key_value list \<Rightarrow> bool" where
  "entries_ok r kvs \<longleftrightarrow> sorted_wrt (<) (map kv_key kvs) \<and>
     (\<forall>kv \<in> set kvs. 0 < kv_create_revision kv \<and> kv_create_revision kv \<le> kv_mod_revision kv \<and>
        kv_mod_revision kv \<le> r \<and> 0 < kv_version kv)"

lemma mvcc_ok_iff: "mvcc_ok db \<longleftrightarrow> entries_ok (mv_revision db) (mv_kvs db) \<and> 0 < mv_revision db"
  by (auto simp: mvcc_ok_def entries_ok_def)

lemma entries_ok_mono: "entries_ok r kvs \<Longrightarrow> r \<le> r' \<Longrightarrow> entries_ok r' kvs"
  by (fastforce simp: entries_ok_def)

lemma run_op_ok:
  assumes "entries_ok r kvs" and "0 < r"
  shows "entries_ok r (snd (run_op r op kvs))"
proof (cases op)
  case (OpPut k v)
  have "0 < kv_create_revision kv \<and> kv_create_revision kv \<le> kv_mod_revision kv \<and> kv_mod_revision kv \<le> r \<and> 0 < kv_version kv"
    if "kv \<in> set (put_kv k v r kvs)" for kv
    using set_put_kv [OF that] assms by (fastforce simp: entries_ok_def fresh_kv_def)
  then show ?thesis using assms OpPut by (simp add: entries_ok_def sorted_put_kv)
next
  case (OpDelete k)
  then show ?thesis using assms by (simp add: entries_ok_def sorted_delete_kv) (simp add: delete_kv_def)
qed (use assms in simp)

lemma run_ops_ok: "entries_ok r kvs \<Longrightarrow> 0 < r \<Longrightarrow> entries_ok r (snd (run_ops r ops kvs))"
proof (induction ops arbitrary: kvs)
  case (Cons op ops)
  have "entries_ok r (snd (run_ops r ops (snd (run_op r op kvs))))"
    using Cons.prems run_op_ok by (intro Cons.IH) auto
  then show ?case by (auto simp: Let_def split: prod.splits)
qed simp

lemma delete_kv_absent: "lookup_kv k kvs = None \<Longrightarrow> delete_kv k kvs = kvs"
  by (induction kvs) (auto simp: delete_kv_def split: if_splits)

lemma run_ops_unwritten:
  "\<not> list_ex is_write (fst (run_ops r ops kvs)) \<Longrightarrow> snd (run_ops r ops kvs) = kvs"
proof (induction ops arbitrary: kvs)
  case (Cons op ops)
  show ?case
  proof (cases op)
    case (OpDelete k)
    then show ?thesis
      using Cons.prems Cons.IH [of kvs] by (cases "lookup_kv k kvs")
        (auto simp: delete_kv_absent option_list_def Let_def split: prod.splits)
  qed (use Cons.prems Cons.IH [of kvs] in \<open>auto simp: Let_def split: prod.splits\<close>)
qed simp

lemma mvcc_txn_revision: "mv_revision db \<le> mv_revision (snd (mvcc_txn cs th el db))"
  by (simp add: mvcc_txn_def Let_def split: prod.split)

lemma mvcc_txn_ok: "mvcc_ok db \<Longrightarrow> mvcc_ok (snd (mvcc_txn cs th el db))"
proof -
  assume ok: "mvcc_ok db"
  let ?ops = "if list_all (compare_holds db) cs then th else el"
  obtain resps kvs where run: "run_ops (mv_revision db + 1) ?ops (mv_kvs db) = (resps, kvs)" by fastforce
  have e: "entries_ok (mv_revision db + 1) (mv_kvs db)" "0 < mv_revision db"
    using ok entries_ok_mono [of "mv_revision db" "mv_kvs db" "mv_revision db + 1"] by (auto simp: mvcc_ok_iff)
  show ?thesis
  proof (cases "list_ex is_write resps")
    case True
    then show ?thesis
      using run_ops_ok [of "mv_revision db + 1" "mv_kvs db" ?ops] e run
      by (simp add: mvcc_txn_def mvcc_ok_iff Let_def)
  next
    case False
    then show ?thesis
      using run_ops_unwritten [of "mv_revision db + 1" ?ops "mv_kvs db"] ok run
      by (simp add: mvcc_txn_def mvcc_ok_iff Let_def)
  qed
qed

lemma evolves_ok: "evolves db db' \<Longrightarrow> mvcc_ok db \<Longrightarrow> mvcc_ok db'"
  by (induction rule: evolves.induct) (auto intro: mvcc_txn_ok)

lemma evolves_revision: "evolves db db' \<Longrightarrow> mv_revision db \<le> mv_revision db'"
  by (induction rule: evolves.induct) (auto intro: order_trans mvcc_txn_revision)

text \<open>A key keeps its entry, loses it, or has an entry of the new revision.\<close>

lemma run_op_lookup:
  assumes "sorted_wrt (<) (map kv_key kvs)"
  shows "lookup_kv k (snd (run_op r op kvs)) \<in> {lookup_kv k kvs, None} \<union> {Some kv | kv. kv_mod_revision kv = r}"
  using assms by (cases op) (auto simp: lookup_put_kv lookup_delete_kv fresh_kv_def split: option.split)

lemma run_ops_lookup:
  "entries_ok r kvs \<Longrightarrow> 0 < r \<Longrightarrow>
   lookup_kv k (snd (run_ops r ops kvs)) \<in> {lookup_kv k kvs, None} \<union> {Some kv | kv. kv_mod_revision kv = r}"
proof (induction ops arbitrary: kvs)
  case (Cons op ops)
  let ?kvs = "snd (run_op r op kvs)"
  have "entries_ok r ?kvs" using Cons.prems by (rule run_op_ok)
  then have "lookup_kv k (snd (run_ops r ops ?kvs)) \<in> {lookup_kv k ?kvs, None} \<union> {Some kv | kv. kv_mod_revision kv = r}"
    using Cons by blast
  moreover have "lookup_kv k ?kvs \<in> {lookup_kv k kvs, None} \<union> {Some kv | kv. kv_mod_revision kv = r}"
    using Cons.prems by (intro run_op_lookup) (simp add: entries_ok_def)
  ultimately show ?case by (auto simp: Let_def split: prod.splits)
qed simp

lemma mvcc_txn_mod_revision:
  assumes "mvcc_ok db"
  shows "mod_revision_of (snd (mvcc_txn cs th el db)) k \<in> {mod_revision_of db k, 0, mv_revision db + 1}"
proof -
  let ?ops = "if list_all (compare_holds db) cs then th else el"
  have "entries_ok (mv_revision db + 1) (mv_kvs db)" "0 < mv_revision db + 1"
    using assms entries_ok_mono [of "mv_revision db" "mv_kvs db" "mv_revision db + 1"] by (auto simp: mvcc_ok_iff)
  from run_ops_lookup [OF this, of k ?ops] show ?thesis
    by (auto simp: mvcc_txn_def mod_revision_of_def Let_def split: prod.split)
qed

lemma mod_revision_le: "mvcc_ok db \<Longrightarrow> mod_revision_of db k \<le> mv_revision db"
  by (auto simp: mvcc_ok_def mod_revision_of_def split: option.split dest!: lookup_kv_key)

lemma stale_stays_stale:
  assumes "evolves db db'" and "mvcc_ok db" and "0 < r" and "r \<le> mv_revision db" and "mod_revision_of db k \<noteq> r"
  shows "mod_revision_of db' k \<noteq> r"
  using assms
proof (induction rule: evolves.induct)
  case (evolves_step db' cs th el)
  have "mvcc_ok db'" using evolves_step.hyps evolves_step.prems(1) by (rule evolves_ok)
  moreover have "mv_revision db \<le> mv_revision db'" using evolves_step.hyps by (rule evolves_revision)
  ultimately show ?case
    using mvcc_txn_mod_revision [of db' cs th el k] evolves_step by auto
qed simp

text \<open>An entry of a revision is the only one its key ever has with that revision.\<close>

lemma run_ops_Cons:
  "run_ops r (op # ops) kvs =
     (fst (run_op r op kvs) # fst (run_ops r ops (snd (run_op r op kvs))), snd (run_ops r ops (snd (run_op r op kvs))))"
  by (simp add: Let_def case_prod_beta)

lemma run_op_same_revision:
  assumes "sorted_wrt (<) (map kv_key kvs)" and "lookup_kv k (snd (run_op r op kvs)) = Some kv" and "kv_mod_revision kv \<noteq> r"
  shows "lookup_kv k kvs = Some kv"
  using assms by (cases op) (auto simp: lookup_put_kv lookup_delete_kv fresh_kv_def split: if_splits option.splits)

lemma run_ops_same_revision:
  assumes "entries_ok r kvs" and "0 < r" and "lookup_kv k (snd (run_ops r ops kvs)) = Some kv" and "kv_mod_revision kv \<noteq> r"
  shows "lookup_kv k kvs = Some kv"
  using assms
proof (induction ops arbitrary: kvs)
  case (Cons op ops)
  have "lookup_kv k (snd (run_ops r ops (snd (run_op r op kvs)))) = Some kv"
    using Cons.prems(3) by (simp only: run_ops_Cons snd_conv)
  then have "lookup_kv k (snd (run_op r op kvs)) = Some kv"
    using Cons.IH run_op_ok [OF Cons.prems(1,2)] Cons.prems(2,4) by blast
  then show ?case
    using Cons.prems(1,4) run_op_same_revision [of kvs k r op kv] by (simp add: entries_ok_def)
qed simp

lemma evolves_same_revision:
  assumes "evolves db db'" and "mvcc_ok db" and "r \<le> mv_revision db"
    and "mv_find db' k = Some kv" and "kv_mod_revision kv = r"
  shows "mv_find db k = Some kv"
  using assms
proof (induction rule: evolves.induct)
  case (evolves_step db' cs th el)
  let ?ops = "if list_all (compare_holds db') cs then th else el"
  have ok: "mvcc_ok db'" using evolves_step.hyps evolves_step.prems(1) by (rule evolves_ok)
  have e: "entries_ok (mv_revision db' + 1) (mv_kvs db')" "0 < mv_revision db' + 1"
    using ok entries_ok_mono [of "mv_revision db'" "mv_kvs db'" "mv_revision db' + 1"] by (auto simp: mvcc_ok_iff)
  have r: "kv_mod_revision kv \<noteq> mv_revision db' + 1"
    using evolves_revision [OF evolves_step.hyps] evolves_step.prems by simp
  have "lookup_kv k (snd (run_ops (mv_revision db' + 1) ?ops (mv_kvs db'))) = Some kv"
    using evolves_step.prems(3) by (auto simp: mvcc_txn_def Let_def split: prod.splits)
  then have "mv_find db' k = Some kv" using run_ops_same_revision [OF e _ r] by blast
  then show ?case using evolves_step by blast
qed simp

text \<open>A transaction of puts.\<close>

definition updated_kv :: "key_value option \<Rightarrow> string \<Rightarrow> bytes \<Rightarrow> int \<Rightarrow> key_value" where
  "updated_kv old k v r = (case old of None \<Rightarrow> fresh_kv k v r
     | Some kv \<Rightarrow> kv\<lparr>kv_value := v, kv_mod_revision := r, kv_version := kv_version kv + 1\<rparr>)"

lemma updated_kv_simps [simp]:
  "kv_value (updated_kv old k v r) = v" "kv_mod_revision (updated_kv old k v r) = r"
  by (simp_all add: updated_kv_def fresh_kv_def split: option.split)

lemma run_puts:
  assumes "sorted_wrt (<) (map kv_key kvs)" and "distinct (map fst ps)"
  shows "fst (run_ops r (map (\<lambda>(k, v). OpPut k v) ps) kvs) = replicate (length ps) RespPut"
    and "lookup_kv k (snd (run_ops r (map (\<lambda>(k, v). OpPut k v) ps) kvs)) =
      (case map_of ps k of None \<Rightarrow> lookup_kv k kvs | Some v \<Rightarrow> Some (updated_kv (lookup_kv k kvs) k v r))"
proof -
  have "fst (run_ops r (map (\<lambda>(k, v). OpPut k v) ps) kvs) = replicate (length ps) RespPut \<and>
    lookup_kv k (snd (run_ops r (map (\<lambda>(k, v). OpPut k v) ps) kvs)) =
      (case map_of ps k of None \<Rightarrow> lookup_kv k kvs | Some v \<Rightarrow> Some (updated_kv (lookup_kv k kvs) k v r))"
    using assms
  proof (induction ps arbitrary: kvs)
    case (Cons p ps)
    obtain k' v' where p: "p = (k', v')" by fastforce
    let ?kvs = "put_kv k' v' r kvs"
    have "map_of ps k' = None" using Cons.prems(2) by (simp add: p map_of_eq_None_iff)
    moreover have "fst (run_ops r (map (\<lambda>(k, v). OpPut k v) ps) ?kvs) = replicate (length ps) RespPut \<and>
      lookup_kv k (snd (run_ops r (map (\<lambda>(k, v). OpPut k v) ps) ?kvs)) =
        (case map_of ps k of None \<Rightarrow> lookup_kv k ?kvs | Some v \<Rightarrow> Some (updated_kv (lookup_kv k ?kvs) k v r))"
      using Cons.prems by (intro Cons.IH) (simp_all add: sorted_put_kv)
    moreover have "lookup_kv k ?kvs = (if k = k' then Some (updated_kv (lookup_kv k kvs) k v' r) else lookup_kv k kvs)"
      using Cons.prems(1) by (simp add: lookup_put_kv updated_kv_def)
    ultimately show ?case by (auto simp: p run_ops_Cons simp del: run_ops.simps(2) split: option.split)
  qed simp
  then show "fst (run_ops r (map (\<lambda>(k, v). OpPut k v) ps) kvs) = replicate (length ps) RespPut"
    and "lookup_kv k (snd (run_ops r (map (\<lambda>(k, v). OpPut k v) ps) kvs)) =
      (case map_of ps k of None \<Rightarrow> lookup_kv k kvs | Some v \<Rightarrow> Some (updated_kv (lookup_kv k kvs) k v r))"
    by simp_all
qed

lemma run_gets: "snd (run_ops r (map OpGet ks) kvs) = kvs" "\<not> list_ex is_write (fst (run_ops r (map OpGet ks) kvs))"
  by (induction ks) (auto simp: Let_def split: prod.splits)

text \<open>A transaction of puts guarded by comparisons, with reads otherwise, as the store sends it.\<close>

lemma guarded_puts:
  assumes ok: "mvcc_ok db" and ps: "ps \<noteq> []" "distinct (map fst ps)"
    and run: "mvcc_txn cs (map (\<lambda>(k, v). OpPut k v) ps) (map OpGet ks) db = (t, db')"
  shows "tr_succeeded t \<longleftrightarrow> list_all (compare_holds db) cs"
    and "\<not> tr_succeeded t \<Longrightarrow> db' = db"
    and "tr_succeeded t \<Longrightarrow> tr_revision t = Some (mv_revision db + 1) \<and> mv_revision db' = mv_revision db + 1"
    and "tr_succeeded t \<Longrightarrow> mv_find db' k =
      (case map_of ps k of None \<Rightarrow> mv_find db k | Some v \<Rightarrow> Some (updated_kv (mv_find db k) k v (mv_revision db + 1)))"
proof -
  have sorted: "sorted_wrt (<) (map kv_key (mv_kvs db))" using ok by (simp add: mvcc_ok_def)
  note puts = run_puts [OF sorted ps(2), where r = "mv_revision db + 1"]
  have w: "list_ex is_write (replicate (length ps) RespPut)" using ps(1) by (cases ps) auto
  show "tr_succeeded t \<longleftrightarrow> list_all (compare_holds db) cs"
    using run by (auto simp: mvcc_txn_def Let_def split: prod.splits)
  then show "\<not> tr_succeeded t \<Longrightarrow> db' = db"
    using run run_gets [of "mv_revision db + 1" ks "mv_kvs db"]
    by (auto simp: mvcc_txn_def Let_def split: prod.splits)
  show "tr_succeeded t \<Longrightarrow> tr_revision t = Some (mv_revision db + 1) \<and> mv_revision db' = mv_revision db + 1"
    and "tr_succeeded t \<Longrightarrow> mv_find db' k =
      (case map_of ps k of None \<Rightarrow> mv_find db k | Some v \<Rightarrow> Some (updated_kv (mv_find db k) k v (mv_revision db + 1)))"
    using run puts(1) puts(2) [where k = k] w by (auto simp: mvcc_txn_def Let_def split: prod.splits)
qed

section \<open>The contract of a client\<close>

locale etcd_client =
  fixes E :: "'s etcd" and database :: "'s \<Rightarrow> mvcc"
  assumes database_ok: "mvcc_ok (database s)"
    and get_ok: "et_get E k s = (Inr r, s') \<Longrightarrow>
      \<exists>db. evolves (database s) db \<and> r = mvcc_get k db \<and> evolves db (database s')"
    and get_failed: "et_get E k s = (Inl e, s') \<Longrightarrow> evolves (database s) (database s')"
    and get_prefix_ok: "et_get_prefix E p n s = (Inr r, s') \<Longrightarrow>
      \<exists>db. evolves (database s) db \<and> r = mvcc_get_prefix p n db \<and> evolves db (database s')"
    and get_prefix_failed: "et_get_prefix E p n s = (Inl e, s') \<Longrightarrow> evolves (database s) (database s')"
    and delete_ok: "et_delete E k s = (Inr d, s') \<Longrightarrow>
      \<exists>db db'. evolves (database s) db \<and> mvcc_delete k db = (d, db') \<and> evolves db' (database s')"
    and delete_failed: "et_delete E k s = (Inl e, s') \<Longrightarrow> evolves (database s) (database s')"
    and txn_ok: "et_txn E cs th el s = (Inr t, s') \<Longrightarrow>
      \<exists>db db'. evolves (database s) db \<and> mvcc_txn cs th el db = (t, db') \<and> evolves db' (database s')"
    and txn_failed: "et_txn E cs th el s = (Inl e, s') \<Longrightarrow> evolves (database s) (database s')"
begin

lemma evolved_ok: "evolves (database s) db \<Longrightarrow> mvcc_ok db"
  using evolves_ok database_ok by blast

end

text \<open>A client that is alone with its database and whose calls do not fail.\<close>

typedef mvcc_db = "{db. mvcc_ok db}"
proof
  show "mv_empty \<in> {db. mvcc_ok db}" by (simp add: mvcc_ok_def mv_empty_def)
qed

setup_lifting type_definition_mvcc_db

lift_definition db_txn :: "compare_op list \<Rightarrow> txn_op list \<Rightarrow> txn_op list \<Rightarrow> mvcc_db \<Rightarrow> mvcc_db"
  is "\<lambda>cs th el db. snd (mvcc_txn cs th el db)"
  by (rule mvcc_txn_ok)

lift_definition db_empty :: mvcc_db is mv_empty
  by (simp add: mvcc_ok_def mv_empty_def)

definition local_etcd :: "mvcc_db etcd" where
  "local_etcd =
     \<lparr>et_get = (\<lambda>k s. (Inr (mvcc_get k (Rep_mvcc_db s)), s)),
      et_get_prefix = (\<lambda>p n s. (Inr (mvcc_get_prefix p n (Rep_mvcc_db s)), s)),
      et_delete = (\<lambda>k s. (Inr (fst (mvcc_delete k (Rep_mvcc_db s))), db_txn [] [OpDelete k] [] s)),
      et_txn = (\<lambda>cs th el s. (Inr (fst (mvcc_txn cs th el (Rep_mvcc_db s))), db_txn cs th el s))\<rparr>"

lemma Rep_db_txn: "Rep_mvcc_db (db_txn cs th el s) = snd (mvcc_txn cs th el (Rep_mvcc_db s))"
  by (rule db_txn.rep_eq)

interpretation local_client: etcd_client local_etcd Rep_mvcc_db
proof
  show "mvcc_ok (Rep_mvcc_db s)" for s using Rep_mvcc_db [of s] by simp
qed (auto simp: local_etcd_def Rep_db_txn mvcc_delete_def intro!: exI)

end
