(* ===== verification/Resource_Api.thy ===== *)
theory Resource_Api
  imports Prelude
begin

text \<open>
  The table of API resources (\<^verbatim>\<open>tugboat-resources/src/resource_api.rs\<close>): for every kind its group,
  version, names, scope and the operations that discovery advertises.
\<close>

section \<open>Scopes, operations and descriptors\<close>

datatype resource_scope = Cluster | Namespaced

definition is_cluster_scoped :: "resource_scope \<Rightarrow> bool" where
  "is_cluster_scoped s \<longleftrightarrow> s = Cluster"

definition is_namespaced :: "resource_scope \<Rightarrow> bool" where
  "is_namespaced s \<longleftrightarrow> s = Namespaced"

record resource_operations =
  op_create :: bool
  op_list :: bool
  op_read :: bool
  op_patch :: bool
  op_update :: bool
  op_delete :: bool
  op_status_patch :: bool
  op_status_update :: bool

definition has_status_subresource :: "resource_operations \<Rightarrow> bool" where
  "has_status_subresource ops \<longleftrightarrow> op_status_patch ops \<or> op_status_update ops"

definition resource_verbs :: "resource_operations \<Rightarrow> string list" where
  "resource_verbs ops =
     (if op_create ops then [''create''] else []) @ (if op_delete ops then [''delete''] else []) @
     (if op_read ops then [''get''] else []) @ (if op_list ops then [''list''] else []) @
     (if op_patch ops then [''patch''] else []) @ (if op_update ops then [''update''] else []) @
     (if op_list ops then [''watch''] else [])"

definition status_verbs :: "resource_operations \<Rightarrow> string list" where
  "status_verbs ops =
     (if op_status_patch ops then [''patch''] else []) @ (if op_status_update ops then [''update''] else [])"

record resource_descriptor =
  rd_group :: string
  rd_version :: string
  rd_kind :: string
  rd_plural :: string
  rd_singular :: string
  rd_scope :: resource_scope
  rd_operations :: resource_operations

section \<open>Operation sets\<close>

definition cluster_default_ops :: resource_operations where
  "cluster_default_ops = \<lparr>op_create = True, op_list = True, op_read = True, op_patch = False, op_update = False, op_delete = False, op_status_patch = False, op_status_update = False\<rparr>"

definition cluster_status_ops :: resource_operations where
  "cluster_status_ops = cluster_default_ops\<lparr>op_status_patch := True, op_status_update := True\<rparr>"

definition namespaced_default_ops :: resource_operations where
  "namespaced_default_ops = \<lparr>op_create = True, op_list = True, op_read = True, op_patch = False, op_update = False, op_delete = False, op_status_patch = False, op_status_update = False\<rparr>"

definition namespaced_status_ops :: resource_operations where
  "namespaced_status_ops = namespaced_default_ops\<lparr>op_status_patch := True, op_status_update := True\<rparr>"

definition node_ops :: resource_operations where
  "node_ops = cluster_default_ops\<lparr>op_patch := True, op_update := True, op_delete := True, op_status_patch := True, op_status_update := True\<rparr>"

definition persistent_volume_ops :: resource_operations where
  "persistent_volume_ops = cluster_default_ops\<lparr>op_patch := True, op_update := True, op_delete := True, op_status_patch := True, op_status_update := True\<rparr>"

definition persistent_volume_claim_ops :: resource_operations where
  "persistent_volume_claim_ops = namespaced_default_ops\<lparr>op_patch := True, op_update := True, op_delete := True, op_status_patch := True, op_status_update := True\<rparr>"

definition snapshot_resource_ops :: resource_operations where
  "snapshot_resource_ops = namespaced_default_ops\<lparr>op_patch := True, op_update := True, op_delete := True, op_status_patch := True, op_status_update := True\<rparr>"

definition cluster_snapshot_resource_ops :: resource_operations where
  "cluster_snapshot_resource_ops = cluster_default_ops\<lparr>op_patch := True, op_update := True, op_delete := True, op_status_patch := True, op_status_update := True\<rparr>"

definition secret_ops :: resource_operations where
  "secret_ops = namespaced_default_ops\<lparr>op_patch := True, op_update := True, op_delete := True\<rparr>"

definition service_account_ops :: resource_operations where
  "service_account_ops = namespaced_default_ops\<lparr>op_patch := True, op_update := True, op_delete := True\<rparr>"

definition configmap_ops :: resource_operations where
  "configmap_ops = namespaced_default_ops\<lparr>op_patch := True, op_update := True, op_delete := True\<rparr>"

definition storage_class_ops :: resource_operations where
  "storage_class_ops = cluster_default_ops\<lparr>op_delete := True\<rparr>"

definition ship_ops :: resource_operations where
  "ship_ops = namespaced_default_ops\<lparr>op_patch := True, op_update := True, op_status_patch := True, op_status_update := True\<rparr>"

definition lease_ops :: resource_operations where
  "lease_ops = namespaced_default_ops\<lparr>op_patch := True, op_update := True, op_delete := True\<rparr>"

definition workload_ops :: resource_operations where
  "workload_ops = namespaced_default_ops\<lparr>op_patch := True, op_update := True, op_delete := True, op_status_patch := True, op_status_update := True\<rparr>"

definition cluster_rbac_ops :: resource_operations where
  "cluster_rbac_ops = cluster_default_ops\<lparr>op_patch := True, op_update := True, op_delete := True\<rparr>"

definition namespaced_rbac_ops :: resource_operations where
  "namespaced_rbac_ops = namespaced_default_ops\<lparr>op_patch := True, op_update := True, op_delete := True\<rparr>"

definition crd_ops :: resource_operations where
  "crd_ops = cluster_default_ops\<lparr>op_patch := True, op_update := True, op_delete := True, op_status_patch := True, op_status_update := True\<rparr>"

section \<open>Descriptors\<close>

definition custom_resource_definition_descriptor :: resource_descriptor where
  "custom_resource_definition_descriptor = \<lparr>rd_group = ''apiextensions'', rd_version = ''v1'', rd_kind = ''CustomResourceDefinition'',
     rd_plural = ''customresourcedefinitions'', rd_singular = ''customresourcedefinition'', rd_scope = Cluster, rd_operations = crd_ops\<rparr>"

definition config_map_descriptor :: resource_descriptor where
  "config_map_descriptor = \<lparr>rd_group = ''core'', rd_version = ''v1'', rd_kind = ''ConfigMap'',
     rd_plural = ''configmaps'', rd_singular = ''configmap'', rd_scope = Namespaced, rd_operations = configmap_ops\<rparr>"

definition namespace_descriptor :: resource_descriptor where
  "namespace_descriptor = \<lparr>rd_group = ''core'', rd_version = ''v1'', rd_kind = ''Namespace'',
     rd_plural = ''namespaces'', rd_singular = ''namespace'', rd_scope = Cluster, rd_operations = cluster_default_ops\<rparr>"

definition network_class_descriptor :: resource_descriptor where
  "network_class_descriptor = \<lparr>rd_group = ''core'', rd_version = ''v1'', rd_kind = ''NetworkClass'',
     rd_plural = ''networkclasses'', rd_singular = ''networkclass'', rd_scope = Namespaced, rd_operations = namespaced_status_ops\<rparr>"

definition cluster_network_class_descriptor :: resource_descriptor where
  "cluster_network_class_descriptor = \<lparr>rd_group = ''core'', rd_version = ''v1'', rd_kind = ''ClusterNetworkClass'',
     rd_plural = ''clusternetworkclasses'', rd_singular = ''clusternetworkclass'', rd_scope = Cluster, rd_operations = cluster_status_ops\<rparr>"

definition node_descriptor :: resource_descriptor where
  "node_descriptor = \<lparr>rd_group = ''core'', rd_version = ''v1'', rd_kind = ''Node'',
     rd_plural = ''nodes'', rd_singular = ''node'', rd_scope = Cluster, rd_operations = node_ops\<rparr>"

definition persistent_volume_descriptor :: resource_descriptor where
  "persistent_volume_descriptor = \<lparr>rd_group = ''core'', rd_version = ''v1'', rd_kind = ''PersistentVolume'',
     rd_plural = ''persistentvolumes'', rd_singular = ''persistentvolume'', rd_scope = Cluster, rd_operations = persistent_volume_ops\<rparr>"

definition persistent_volume_claim_descriptor :: resource_descriptor where
  "persistent_volume_claim_descriptor = \<lparr>rd_group = ''core'', rd_version = ''v1'', rd_kind = ''PersistentVolumeClaim'',
     rd_plural = ''persistentvolumeclaims'', rd_singular = ''persistentvolumeclaim'', rd_scope = Namespaced, rd_operations = persistent_volume_claim_ops\<rparr>"

definition secret_descriptor :: resource_descriptor where
  "secret_descriptor = \<lparr>rd_group = ''core'', rd_version = ''v1'', rd_kind = ''Secret'',
     rd_plural = ''secrets'', rd_singular = ''secret'', rd_scope = Namespaced, rd_operations = secret_ops\<rparr>"

definition service_account_descriptor :: resource_descriptor where
  "service_account_descriptor = \<lparr>rd_group = ''core'', rd_version = ''v1'', rd_kind = ''ServiceAccount'',
     rd_plural = ''serviceaccounts'', rd_singular = ''serviceaccount'', rd_scope = Namespaced, rd_operations = service_account_ops\<rparr>"

definition runtime_class_descriptor :: resource_descriptor where
  "runtime_class_descriptor = \<lparr>rd_group = ''core'', rd_version = ''v1'', rd_kind = ''RuntimeClass'',
     rd_plural = ''runtimeclasses'', rd_singular = ''runtimeclass'', rd_scope = Cluster, rd_operations = storage_class_ops\<rparr>"

definition storage_class_descriptor :: resource_descriptor where
  "storage_class_descriptor = \<lparr>rd_group = ''core'', rd_version = ''v1'', rd_kind = ''StorageClass'',
     rd_plural = ''storageclasses'', rd_singular = ''storageclass'', rd_scope = Cluster, rd_operations = storage_class_ops\<rparr>"

definition ship_descriptor :: resource_descriptor where
  "ship_descriptor = \<lparr>rd_group = ''core'', rd_version = ''v1'', rd_kind = ''Ship'',
     rd_plural = ''ships'', rd_singular = ''ship'', rd_scope = Namespaced, rd_operations = ship_ops\<rparr>"

definition ship_class_descriptor :: resource_descriptor where
  "ship_class_descriptor = \<lparr>rd_group = ''core'', rd_version = ''v1'', rd_kind = ''ShipClass'',
     rd_plural = ''shipclasses'', rd_singular = ''shipclass'', rd_scope = Cluster, rd_operations = cluster_default_ops\<rparr>"

definition ship_snapshot_descriptor :: resource_descriptor where
  "ship_snapshot_descriptor = \<lparr>rd_group = ''snapshot'', rd_version = ''v1'', rd_kind = ''ShipSnapshot'',
     rd_plural = ''shipsnapshots'', rd_singular = ''shipsnapshot'', rd_scope = Namespaced, rd_operations = snapshot_resource_ops\<rparr>"

definition deployment_descriptor :: resource_descriptor where
  "deployment_descriptor = \<lparr>rd_group = ''apps'', rd_version = ''v1'', rd_kind = ''Deployment'',
     rd_plural = ''deployments'', rd_singular = ''deployment'', rd_scope = Namespaced, rd_operations = workload_ops\<rparr>"

definition replica_set_descriptor :: resource_descriptor where
  "replica_set_descriptor = \<lparr>rd_group = ''apps'', rd_version = ''v1'', rd_kind = ''ReplicaSet'',
     rd_plural = ''replicasets'', rd_singular = ''replicaset'', rd_scope = Namespaced, rd_operations = workload_ops\<rparr>"

definition fleet_descriptor :: resource_descriptor where
  "fleet_descriptor = \<lparr>rd_group = ''apps'', rd_version = ''v1'', rd_kind = ''Fleet'',
     rd_plural = ''fleets'', rd_singular = ''fleet'', rd_scope = Namespaced, rd_operations = workload_ops\<rparr>"

definition cluster_role_descriptor :: resource_descriptor where
  "cluster_role_descriptor = \<lparr>rd_group = ''authorization'', rd_version = ''v1'', rd_kind = ''ClusterRole'',
     rd_plural = ''clusterroles'', rd_singular = ''clusterrole'', rd_scope = Cluster, rd_operations = cluster_rbac_ops\<rparr>"

definition cluster_role_binding_descriptor :: resource_descriptor where
  "cluster_role_binding_descriptor = \<lparr>rd_group = ''authorization'', rd_version = ''v1'', rd_kind = ''ClusterRoleBinding'',
     rd_plural = ''clusterrolebindings'', rd_singular = ''clusterrolebinding'', rd_scope = Cluster, rd_operations = cluster_rbac_ops\<rparr>"

definition role_descriptor :: resource_descriptor where
  "role_descriptor = \<lparr>rd_group = ''authorization'', rd_version = ''v1'', rd_kind = ''Role'',
     rd_plural = ''roles'', rd_singular = ''role'', rd_scope = Namespaced, rd_operations = namespaced_rbac_ops\<rparr>"

definition role_binding_descriptor :: resource_descriptor where
  "role_binding_descriptor = \<lparr>rd_group = ''authorization'', rd_version = ''v1'', rd_kind = ''RoleBinding'',
     rd_plural = ''rolebindings'', rd_singular = ''rolebinding'', rd_scope = Namespaced, rd_operations = namespaced_rbac_ops\<rparr>"

definition lease_descriptor :: resource_descriptor where
  "lease_descriptor = \<lparr>rd_group = ''coordination'', rd_version = ''v1'', rd_kind = ''Lease'',
     rd_plural = ''leases'', rd_singular = ''lease'', rd_scope = Namespaced, rd_operations = lease_ops\<rparr>"

definition volume_snapshot_descriptor :: resource_descriptor where
  "volume_snapshot_descriptor = \<lparr>rd_group = ''snapshot'', rd_version = ''v1'', rd_kind = ''VolumeSnapshot'',
     rd_plural = ''volumesnapshots'', rd_singular = ''volumesnapshot'', rd_scope = Namespaced, rd_operations = snapshot_resource_ops\<rparr>"

definition volume_snapshot_content_descriptor :: resource_descriptor where
  "volume_snapshot_content_descriptor = \<lparr>rd_group = ''snapshot'', rd_version = ''v1'', rd_kind = ''VolumeSnapshotContent'',
     rd_plural = ''volumesnapshotcontents'', rd_singular = ''volumesnapshotcontent'', rd_scope = Cluster, rd_operations = cluster_snapshot_resource_ops\<rparr>"

definition volume_snapshot_class_descriptor :: resource_descriptor where
  "volume_snapshot_class_descriptor = \<lparr>rd_group = ''snapshot'', rd_version = ''v1'', rd_kind = ''VolumeSnapshotClass'',
     rd_plural = ''volumesnapshotclasses'', rd_singular = ''volumesnapshotclass'', rd_scope = Cluster, rd_operations = cluster_snapshot_resource_ops\<rparr>"

definition all_resource_descriptors :: "resource_descriptor list" where
  "all_resource_descriptors = [
     custom_resource_definition_descriptor, cluster_role_descriptor, cluster_role_binding_descriptor,
     deployment_descriptor, fleet_descriptor, cluster_network_class_descriptor,
     config_map_descriptor, namespace_descriptor, node_descriptor,
     persistent_volume_descriptor, network_class_descriptor, persistent_volume_claim_descriptor,
     replica_set_descriptor, role_descriptor, role_binding_descriptor,
     runtime_class_descriptor, secret_descriptor, service_account_descriptor,
     ship_descriptor, ship_class_descriptor, storage_class_descriptor,
     lease_descriptor, volume_snapshot_descriptor, volume_snapshot_content_descriptor,
     volume_snapshot_class_descriptor, ship_snapshot_descriptor]"

lemmas descriptor_defs = custom_resource_definition_descriptor_def config_map_descriptor_def namespace_descriptor_def network_class_descriptor_def
  cluster_network_class_descriptor_def node_descriptor_def persistent_volume_descriptor_def persistent_volume_claim_descriptor_def
  secret_descriptor_def service_account_descriptor_def runtime_class_descriptor_def storage_class_descriptor_def
  ship_descriptor_def ship_class_descriptor_def ship_snapshot_descriptor_def deployment_descriptor_def
  replica_set_descriptor_def fleet_descriptor_def cluster_role_descriptor_def cluster_role_binding_descriptor_def
  role_descriptor_def role_binding_descriptor_def lease_descriptor_def volume_snapshot_descriptor_def
  volume_snapshot_content_descriptor_def volume_snapshot_class_descriptor_def

lemmas operation_defs = cluster_default_ops_def cluster_status_ops_def namespaced_default_ops_def namespaced_status_ops_def
  node_ops_def persistent_volume_ops_def persistent_volume_claim_ops_def snapshot_resource_ops_def
  cluster_snapshot_resource_ops_def secret_ops_def service_account_ops_def configmap_ops_def
  storage_class_ops_def ship_ops_def lease_ops_def workload_ops_def
  cluster_rbac_ops_def namespaced_rbac_ops_def crd_ops_def

end
