(* ===== verification/Store.thy ===== *)
theory Store
  imports Etcd Resource_Api
begin

text \<open>
  \<^verbatim>\<open>ResourceStore\<close> (\<^verbatim>\<open>tugboat-resource-store/src/lib.rs\<close>) over an etcd client, and its serializers
  (\<^verbatim>\<open>serializer/\<close>).  A resource type has a descriptor, access to its metadata and the protobuf encoding
  of the library prost, which are parameters; every operation takes the client and its state and
  returns a value or an error with the new state.
\<close>

section \<open>Errors and resource types\<close>

datatype store_error =
  UnsupportedType
| ProtobufDeserialization
| FieldMissing string
| InvalidField string string
| EtcdFailure etcd_error
| OptimisticLockFailed int

record 'a resource_type =
  rt_descriptor :: resource_descriptor
  rt_meta :: "'a \<Rightarrow> object_meta option"
  rt_set_meta :: "object_meta option \<Rightarrow> 'a \<Rightarrow> 'a"
  rt_encode :: "'a \<Rightarrow> bytes"
  rt_decode :: "bytes \<Rightarrow> 'a option"

definition type_meta_of :: "resource_descriptor \<Rightarrow> type_meta" where
  "type_meta_of d = \<lparr>tm_kind = Some (rd_kind d),
     tm_api_version = Some (if rd_group d = ''core'' \<or> rd_group d = [] then rd_version d
       else rd_group d @ ''/'' @ rd_version d)\<rparr>"

definition is_supported :: "type_meta \<Rightarrow> bool" where
  "is_supported tm = (case tm_api_version tm of
     None \<Rightarrow> False
   | Some api_version \<Rightarrow>
       (case split_once (CHR ''/'') api_version of
          None \<Rightarrow> True
        | Some (grp, _) \<Rightarrow> CHR ''.'' \<notin> set grp))"

definition serialize :: "'a resource_type \<Rightarrow> 'a \<Rightarrow> store_error + bytes" where
  "serialize T v = (if is_supported (type_meta_of (rt_descriptor T)) then Inr (rt_encode T v) else Inl UnsupportedType)"

definition deserialize :: "'a resource_type \<Rightarrow> bytes \<Rightarrow> store_error + 'a" where
  "deserialize T b =
     (if is_supported (type_meta_of (rt_descriptor T))
      then (case rt_decode T b of None \<Rightarrow> Inl ProtobufDeserialization | Some v \<Rightarrow> Inr v)
      else Inl UnsupportedType)"

section \<open>Contents and keys\<close>

record 'a content_data =
  cd_data :: 'a
  cd_revision :: int

definition apply_revision :: "'a resource_type \<Rightarrow> 'a content_data \<Rightarrow> 'a" where
  "apply_revision T c =
     (let rev = int_to_string (cd_revision c) in
      rt_set_meta T (Some (case rt_meta T (cd_data c) of
        None \<Rightarrow> object_meta_default\<lparr>om_resource_version := Some rev\<rparr>
      | Some m \<Rightarrow> m\<lparr>om_resource_version := Some rev\<rparr>)) (cd_data c))"

definition base_path :: string where
  "base_path = ''/tugboat/registry''"

definition create_key :: "resource_descriptor \<Rightarrow> string option \<Rightarrow> string \<Rightarrow> store_error + string" where
  "create_key d ns n =
     (if is_cluster_scoped (rd_scope d)
      then Inr (base_path @ ''/'' @ rd_group d @ ''/'' @ rd_plural d @ ''/'' @ n)
      else case ns of
        None \<Rightarrow> Inl (FieldMissing ''metadata.namespace'')
      | Some x \<Rightarrow> Inr (base_path @ ''/'' @ rd_group d @ ''/'' @ rd_plural d @ ''/'' @ x @ ''/'' @ n))"

definition create_watch_key :: "resource_descriptor \<Rightarrow> string option \<Rightarrow> string" where
  "create_watch_key d ns = (case ns of
     Some x \<Rightarrow> base_path @ ''/'' @ rd_group d @ ''/'' @ rd_plural d @ ''/'' @ x @ ''/''
   | None \<Rightarrow> base_path @ ''/'' @ rd_group d @ ''/'' @ rd_plural d @ ''/'')"

definition create_custom_key :: "string \<Rightarrow> string \<Rightarrow> string option \<Rightarrow> string \<Rightarrow> string" where
  "create_custom_key grp plural ns n = (case ns of
     Some x \<Rightarrow> base_path @ ''/'' @ grp @ ''/'' @ plural @ ''/'' @ x @ ''/'' @ n
   | None \<Rightarrow> base_path @ ''/'' @ grp @ ''/'' @ plural @ ''/'' @ n)"

definition create_custom_watch_key :: "string \<Rightarrow> string \<Rightarrow> string option \<Rightarrow> string" where
  "create_custom_watch_key grp plural ns = (case ns of
     Some x \<Rightarrow> base_path @ ''/'' @ grp @ ''/'' @ plural @ ''/'' @ x @ ''/''
   | None \<Rightarrow> base_path @ ''/'' @ grp @ ''/'' @ plural @ ''/'')"

section \<open>Writing\<close>

record put_request =
  pr_key :: string
  pr_bytes :: bytes
  pr_expected_revision :: "int option"

definition prepare_put_inner :: "'a resource_type \<Rightarrow> 'a \<Rightarrow> store_error + put_request" where
  "prepare_put_inner T v = (case rt_meta T v of
     None \<Rightarrow> Inl (FieldMissing ''metadata'')
   | Some meta \<Rightarrow>
       (case om_name meta of
          None \<Rightarrow> Inl (FieldMissing ''metadata.name'')
        | Some name \<Rightarrow>
            (case (case om_resource_version meta of
                     None \<Rightarrow> Inr None
                   | Some rv \<Rightarrow> (case parse_i64 rv of
                       None \<Rightarrow> Inl (InvalidField ''metadata.resourceVersion'' ''must be a valid integer'')
                     | Some r \<Rightarrow> Inr (Some r))) of
               Inl e \<Rightarrow> Inl e
             | Inr expected \<Rightarrow>
                 (case create_key (rt_descriptor T) (om_namespace meta) name of
                    Inl e \<Rightarrow> Inl e
                  | Inr key \<Rightarrow>
                      (case serialize T v of
                         Inl e \<Rightarrow> Inl e
                       | Inr bs \<Rightarrow> Inr \<lparr>pr_key = key, pr_bytes = bs, pr_expected_revision = expected\<rparr>)))))"

definition put_many :: "'s etcd \<Rightarrow> put_request list \<Rightarrow> 's \<Rightarrow> (store_error + int) \<times> 's" where
  "put_many E requests s =
     (if requests = [] then (Inr 0, s)
      else
        (let first_expected = (case filter_map pr_expected_revision requests of [] \<Rightarrow> 0 | r # _ \<Rightarrow> r);
             compares = filter_map (\<lambda>q. map_option (ModRevisionEq (pr_key q)) (pr_expected_revision q)) requests;
             puts = map (\<lambda>q. OpPut (pr_key q) (pr_bytes q)) requests;
             conflict_reads = map (\<lambda>q. OpGet (pr_key q)) (filter (\<lambda>q. pr_expected_revision q \<noteq> None) requests)
         in case et_txn E compares puts conflict_reads s of
              (Inl e, s') \<Rightarrow> (Inl (EtcdFailure e), s')
            | (Inr response, s') \<Rightarrow>
                if \<not> tr_succeeded response then (Inl (OptimisticLockFailed first_expected), s')
                else (Inr (unwrap_or 0 (tr_revision response)), s')))"

definition put :: "'s etcd \<Rightarrow> 'a resource_type \<Rightarrow> 'a \<Rightarrow> 's \<Rightarrow> (store_error + 'a content_data) \<times> 's" where
  "put E T v s = (case prepare_put_inner T v of
     Inl e \<Rightarrow> (Inl e, s)
   | Inr request \<Rightarrow>
       (case put_many E [request] s of
          (Inl e, s') \<Rightarrow> (Inl e, s')
        | (Inr r, s') \<Rightarrow> (Inr \<lparr>cd_data = v, cd_revision = r\<rparr>, s')))"

definition put_if_not_exists :: "'s etcd \<Rightarrow> 'a resource_type \<Rightarrow> 'a \<Rightarrow> 's \<Rightarrow> (store_error + 'a content_data option) \<times> 's" where
  "put_if_not_exists E T v s = (case rt_meta T v of
     None \<Rightarrow> (Inl (FieldMissing ''metadata''), s)
   | Some meta \<Rightarrow>
       (case om_name meta of
          None \<Rightarrow> (Inl (FieldMissing ''metadata.name''), s)
        | Some name \<Rightarrow>
            (case create_key (rt_descriptor T) (om_namespace meta) name of
               Inl e \<Rightarrow> (Inl e, s)
             | Inr key \<Rightarrow>
                 (case serialize T v of
                    Inl e \<Rightarrow> (Inl e, s)
                  | Inr bs \<Rightarrow>
                      (case et_txn E [CreateRevisionEq key 0] [OpPut key bs] [] s of
                         (Inl e, s') \<Rightarrow> (Inl (EtcdFailure e), s')
                       | (Inr res, s') \<Rightarrow>
                           if (case tr_responses res of RespPut # _ \<Rightarrow> True | _ \<Rightarrow> False) \<and> tr_succeeded res
                           then (Inr (Some \<lparr>cd_data = v, cd_revision = unwrap_or 0 (tr_revision res)\<rparr>), s')
                           else (Inr None, s'))))))"

section \<open>Reading and deleting\<close>

definition first_content :: "(bytes \<Rightarrow> store_error + 'a) \<Rightarrow> key_value list \<Rightarrow> store_error + 'a content_data option" where
  "first_content decode kvs = (case kvs of
     [] \<Rightarrow> Inr None
   | kv # _ \<Rightarrow>
       (case decode (kv_value kv) of
          Inl e \<Rightarrow> Inl e
        | Inr v \<Rightarrow> Inr (Some \<lparr>cd_data = v, cd_revision = kv_mod_revision kv\<rparr>)))"

fun all_contents :: "(bytes \<Rightarrow> store_error + 'a) \<Rightarrow> key_value list \<Rightarrow> store_error + 'a content_data list" where
  "all_contents decode [] = Inr []"
| "all_contents decode (kv # kvs) =
     (case decode (kv_value kv) of
        Inl e \<Rightarrow> Inl e
      | Inr v \<Rightarrow>
          (case all_contents decode kvs of
             Inl e \<Rightarrow> Inl e
           | Inr cs \<Rightarrow> Inr (\<lparr>cd_data = v, cd_revision = kv_mod_revision kv\<rparr> # cs)))"

definition get :: "'s etcd \<Rightarrow> 'a resource_type \<Rightarrow> string option \<Rightarrow> string \<Rightarrow> 's \<Rightarrow> (store_error + 'a content_data option) \<times> 's" where
  "get E T ns n s = (case create_key (rt_descriptor T) ns n of
     Inl e \<Rightarrow> (Inl e, s)
   | Inr key \<Rightarrow>
       (case et_get E key s of
          (Inl e, s') \<Rightarrow> (Inl (EtcdFailure e), s')
        | (Inr res, s') \<Rightarrow> (first_content (deserialize T) (gr_kvs res), s')))"

definition list_with_revision ::
  "'s etcd \<Rightarrow> 'a resource_type \<Rightarrow> string option \<Rightarrow> nat option \<Rightarrow> 's \<Rightarrow> (store_error + ('a content_data list \<times> int)) \<times> 's" where
  "list_with_revision E T ns limit s =
     (case et_get_prefix E (create_watch_key (rt_descriptor T) ns) limit s of
        (Inl e, s') \<Rightarrow> (Inl (EtcdFailure e), s')
      | (Inr res, s') \<Rightarrow>
          (case all_contents (deserialize T) (gr_kvs res) of
             Inl e \<Rightarrow> (Inl e, s')
           | Inr cs \<Rightarrow> (Inr (cs, unwrap_or 0 (gr_revision res)), s')))"

definition list_resources ::
  "'s etcd \<Rightarrow> 'a resource_type \<Rightarrow> string option \<Rightarrow> nat option \<Rightarrow> 's \<Rightarrow> (store_error + 'a content_data list) \<times> 's" where
  "list_resources E T ns limit s = (case list_with_revision E T ns limit s of
     (Inl e, s') \<Rightarrow> (Inl e, s') | (Inr (cs, _), s') \<Rightarrow> (Inr cs, s'))"

definition delete :: "'s etcd \<Rightarrow> 'a resource_type \<Rightarrow> string option \<Rightarrow> string \<Rightarrow> 's \<Rightarrow> (store_error + 'a content_data option) \<times> 's" where
  "delete E T ns n s = (case create_key (rt_descriptor T) ns n of
     Inl e \<Rightarrow> (Inl e, s)
   | Inr key \<Rightarrow>
       (case et_delete E key s of
          (Inl e, s') \<Rightarrow> (Inl (EtcdFailure e), s')
        | (Inr prev, s') \<Rightarrow> (first_content (deserialize T) prev, s')))"

section \<open>Custom resources\<close>

text \<open>The envelope of a custom resource is encoded by prost without the check of the type.\<close>

record 'c envelope_codec =
  ec_encode :: "'c \<Rightarrow> bytes"
  ec_decode :: "bytes \<Rightarrow> 'c option"

definition decode_envelope :: "'c envelope_codec \<Rightarrow> bytes \<Rightarrow> store_error + 'c" where
  "decode_envelope C b = (case ec_decode C b of None \<Rightarrow> Inl ProtobufDeserialization | Some v \<Rightarrow> Inr v)"

definition put_custom ::
  "'s etcd \<Rightarrow> 'c envelope_codec \<Rightarrow> string \<Rightarrow> string \<Rightarrow> string option \<Rightarrow> string \<Rightarrow> 'c \<Rightarrow> int option \<Rightarrow> 's \<Rightarrow> (store_error + int) \<times> 's" where
  "put_custom E C grp plural ns n envelope expected s =
     put_many E [\<lparr>pr_key = create_custom_key grp plural ns n, pr_bytes = ec_encode C envelope,
       pr_expected_revision = expected\<rparr>] s"

definition get_custom ::
  "'s etcd \<Rightarrow> 'c envelope_codec \<Rightarrow> string \<Rightarrow> string \<Rightarrow> string option \<Rightarrow> string \<Rightarrow> 's \<Rightarrow> (store_error + 'c content_data option) \<times> 's" where
  "get_custom E C grp plural ns n s = (case et_get E (create_custom_key grp plural ns n) s of
     (Inl e, s') \<Rightarrow> (Inl (EtcdFailure e), s')
   | (Inr res, s') \<Rightarrow> (first_content (decode_envelope C) (gr_kvs res), s'))"

definition list_custom ::
  "'s etcd \<Rightarrow> 'c envelope_codec \<Rightarrow> string \<Rightarrow> string \<Rightarrow> string option \<Rightarrow> 's \<Rightarrow> (store_error + 'c content_data list) \<times> 's" where
  "list_custom E C grp plural ns s = (case et_get_prefix E (create_custom_watch_key grp plural ns) None s of
     (Inl e, s') \<Rightarrow> (Inl (EtcdFailure e), s')
   | (Inr res, s') \<Rightarrow> (all_contents (decode_envelope C) (gr_kvs res), s'))"

definition delete_custom ::
  "'s etcd \<Rightarrow> string \<Rightarrow> string \<Rightarrow> string option \<Rightarrow> string \<Rightarrow> int option \<Rightarrow> 's \<Rightarrow> (store_error + bool) \<times> 's" where
  "delete_custom E grp plural ns n expected s =
     (let key = create_custom_key grp plural ns n in
      case expected of
        None \<Rightarrow>
          (case et_delete E key s of
             (Inl e, s') \<Rightarrow> (Inl (EtcdFailure e), s')
           | (Inr prev, s') \<Rightarrow> (Inr (0 < length prev), s'))
      | Some r \<Rightarrow>
          (case et_txn E [ModRevisionEq key r] [OpDelete key] [] s of
             (Inl e, s') \<Rightarrow> (Inl (EtcdFailure e), s')
           | (Inr res, s') \<Rightarrow>
               if \<not> tr_succeeded res then (Inl (OptimisticLockFailed r), s')
               else (Inr (case filter_map (\<lambda>op. case op of RespDelete kvs \<Rightarrow> Some (0 < length kvs) | _ \<Rightarrow> None)
                            (tr_responses res) of [] \<Rightarrow> False | b # _ \<Rightarrow> b), s')))"

section \<open>What a write does to the database\<close>

text \<open>The effect of a write of several objects at the moment it takes place.\<close>

definition put_many_effect :: "put_request list \<Rightarrow> store_error + int \<Rightarrow> mvcc \<Rightarrow> mvcc \<Rightarrow> bool" where
  "put_many_effect qs res db db' \<longleftrightarrow> (case res of
     Inr r \<Rightarrow>
       (\<forall>q \<in> set qs. \<forall>e. pr_expected_revision q = Some e \<longrightarrow> mod_revision_of db (pr_key q) = e) \<and>
       r = mv_revision db + 1 \<and> mv_revision db' = r \<and>
       (\<forall>k. mv_find db' k = (case map_of (map (\<lambda>q. (pr_key q, pr_bytes q)) qs) k of
          None \<Rightarrow> mv_find db k | Some b \<Rightarrow> Some (updated_kv (mv_find db k) k b r)))
   | Inl (OptimisticLockFailed _) \<Rightarrow>
       (\<exists>q \<in> set qs. \<exists>e. pr_expected_revision q = Some e \<and> mod_revision_of db (pr_key q) \<noteq> e) \<and> db' = db
   | Inl _ \<Rightarrow> True)"

lemma expected_compares:
  "list_all (compare_holds db) (filter_map (\<lambda>q. map_option (ModRevisionEq (pr_key q)) (pr_expected_revision q)) qs) \<longleftrightarrow>
   (\<forall>q \<in> set qs. \<forall>e. pr_expected_revision q = Some e \<longrightarrow> mod_revision_of db (pr_key q) = e)"
  by (force simp: list_all_iff set_filter_map)

context etcd_client
begin

lemma put_many_takes_effect:
  assumes "qs \<noteq> []" and "distinct (map pr_key qs)" and "put_many E qs s = (res, s')"
  shows "\<exists>db db'. evolves (database s) db \<and> evolves db db' \<and> put_many_effect qs res db db' \<and> evolves db' (database s')"
proof -
  define cs where "cs = filter_map (\<lambda>q. map_option (ModRevisionEq (pr_key q)) (pr_expected_revision q)) qs"
  define ps where "ps = map (\<lambda>q. (pr_key q, pr_bytes q)) qs"
  define ks where "ks = map pr_key (filter (\<lambda>q. pr_expected_revision q \<noteq> None) qs)"
  define puts where "puts = map (\<lambda>(k, v). OpPut k v) ps"
  define gets where "gets = map OpGet ks"
  define lock where "lock = (case filter_map pr_expected_revision qs of [] \<Rightarrow> 0 | r # _ \<Rightarrow> r)"
  have call: "put_many E qs s = (case et_txn E cs puts gets s of
      (Inl e, s') \<Rightarrow> (Inl (EtcdFailure e), s')
    | (Inr t, s') \<Rightarrow> if \<not> tr_succeeded t then (Inl (OptimisticLockFailed lock), s')
                     else (Inr (unwrap_or 0 (tr_revision t)), s'))"
    unfolding put_many_def cs_def ps_def ks_def puts_def gets_def lock_def
    using assms(1) by (simp add: Let_def comp_def)
  obtain out s1 where txn: "et_txn E cs puts gets s = (out, s1)" by fastforce
  have s1: "s1 = s'" using assms(3) call txn by (auto split: sum.splits if_splits)
  show ?thesis
  proof (cases out)
    case (Inl e)
    then have "res = Inl (EtcdFailure e)" using assms(3) call txn by simp
    moreover have "evolves (database s) (database s')" using txn_failed txn Inl s1 by blast
    ultimately show ?thesis by (auto simp: put_many_effect_def)
  next
    case (Inr t)
    then obtain db db' where ev: "evolves (database s) db" "evolves db' (database s')"
      and run: "mvcc_txn cs (map (\<lambda>(k, v). OpPut k v) ps) (map OpGet ks) db = (t, db')"
      using txn_ok [of cs puts gets s t s'] txn s1 by (auto simp: puts_def gets_def)
    have ps: "ps \<noteq> []" "distinct (map fst ps)" using assms(1,2) by (simp_all add: ps_def comp_def)
    note g = guarded_puts [OF evolved_ok [OF ev(1)] ps run]
    have res: "res = (if tr_succeeded t then Inr (unwrap_or 0 (tr_revision t)) else Inl (OptimisticLockFailed lock))"
      using assms(3) call txn Inr by (auto split: if_splits)
    have "put_many_effect qs res db db'"
    proof (cases "tr_succeeded t")
      case True
      then show ?thesis
        using res g(1,3) g(4) by (simp add: put_many_effect_def cs_def expected_compares flip: ps_def)
    next
      case False
      then show ?thesis using res g(1,2) by (auto simp: put_many_effect_def cs_def expected_compares)
    qed
    then show ?thesis using ev evolves_txn [OF run] by blast
  qed
qed

lemma put_takes_effect:
  assumes "put E T v s = (Inr c, s')"
  shows "cd_data c = v \<and> (\<exists>q db db'. prepare_put_inner T v = Inr q \<and> evolves (database s) db \<and> evolves db db' \<and>
    put_many_effect [q] (Inr (cd_revision c)) db db' \<and> evolves db' (database s'))"
proof -
  obtain q where q: "prepare_put_inner T v = Inr q"
    using assms by (cases "prepare_put_inner T v") (auto simp: put_def)
  obtain r where r: "put_many E [q] s = (Inr r, s')" "c = \<lparr>cd_data = v, cd_revision = r\<rparr>"
    using assms q by (auto simp: put_def split: sum.splits prod.splits)
  have "\<exists>db db'. evolves (database s) db \<and> evolves db db' \<and> put_many_effect [q] (Inr r) db db' \<and> evolves db' (database s')"
    using put_many_takes_effect [of "[q]" s "Inr r" s'] r(1) by simp
  then show ?thesis using q r(2) by auto
qed

lemma put_same_version_once:
  assumes first: "put E T v s1 = (Inr c, s2)" and later: "evolves (database s2) (database s3)"
    and q1: "prepare_put_inner T v = Inr q1" "pr_expected_revision q1 = Some r" and r: "0 < r"
    and q2: "prepare_put_inner T w = Inr q2" "pr_key q2 = pr_key q1" "pr_expected_revision q2 = Some r"
  shows "\<exists>e s4. put E T w s3 = (Inl e, s4)"
proof (rule ccontr)
  assume "\<not> ?thesis"
  then obtain d s4 where second: "put E T w s3 = (Inr d, s4)" by (metis obj_sumE surj_pair)
  from put_takes_effect [OF first] q1 obtain db db'
    where ev: "evolves (database s1) db" "evolves db db'" "evolves db' (database s2)"
      and m: "mod_revision_of db (pr_key q1) = r" and r': "mv_revision db' = mv_revision db + 1"
      and new: "mod_revision_of db' (pr_key q1) = mv_revision db + 1"
    by (auto simp: put_many_effect_def mod_revision_of_def)
  have ok: "mvcc_ok db" using ev(1) by (rule evolved_ok)
  then have ok': "mvcc_ok db'" using ev(2) evolves_ok by blast
  have le: "r \<le> mv_revision db" using mod_revision_le [OF ok, of "pr_key q1"] m by simp
  from put_takes_effect [OF second] q2 obtain db2
    where ev2: "evolves (database s3) db2" and m2: "mod_revision_of db2 (pr_key q1) = r"
    by (auto simp: put_many_effect_def)
  have "evolves db' db2" using ev(3) later ev2 evolves_trans by blast
  moreover have "r \<le> mv_revision db'" "mod_revision_of db' (pr_key q1) \<noteq> r" using le r' new by simp_all
  ultimately have "mod_revision_of db2 (pr_key q1) \<noteq> r"
    using stale_stays_stale ok' r by blast
  then show False using m2 by blast
qed

lemma get_takes_effect:
  assumes "get E T ns n s = (Inr (Some c), s')"
  shows "\<exists>k db kv. create_key (rt_descriptor T) ns n = Inr k \<and> evolves (database s) db \<and> mv_find db k = Some kv \<and>
    deserialize T (kv_value kv) = Inr (cd_data c) \<and> kv_mod_revision kv = cd_revision c \<and> evolves db (database s')"
proof -
  obtain k where k: "create_key (rt_descriptor T) ns n = Inr k"
    using assms by (cases "create_key (rt_descriptor T) ns n") (auto simp: get_def)
  obtain res where res: "et_get E k s = (Inr res, s')" "first_content (deserialize T) (gr_kvs res) = Inr (Some c)"
    using assms k by (auto simp: get_def split: sum.splits prod.splits)
  obtain db where db: "evolves (database s) db" "res = mvcc_get k db" "evolves db (database s')"
    using get_ok [OF res(1)] by blast
  show ?thesis
    using res(2) k db by (auto simp: first_content_def mvcc_get_def option_list_def split: option.splits sum.splits)
qed

lemma read_of_written_revision:
  assumes put: "put E T v s1 = (Inr c, s2)" and later: "evolves (database s2) (database s3)"
    and get: "get E T ns n s3 = (Inr (Some d), s4)" and q: "prepare_put_inner T v = Inr q"
    and key: "create_key (rt_descriptor T) ns n = Inr (pr_key q)"
    and rev: "cd_revision d = cd_revision c" and codec: "rt_decode T (rt_encode T v) = Some v"
  shows "cd_data d = v"
proof -
  from put_takes_effect [OF put] q obtain db db'
    where ev: "evolves (database s1) db" "evolves db db'" "evolves db' (database s2)"
      and r: "mv_revision db' = cd_revision c"
      and f: "mv_find db' (pr_key q) = Some (updated_kv (mv_find db (pr_key q)) (pr_key q) (pr_bytes q) (cd_revision c))"
    by (auto simp: put_many_effect_def)
  have ok': "mvcc_ok db'" using ev evolved_ok evolves_ok by blast
  from get_takes_effect [OF get] key obtain db2 kv
    where g: "evolves (database s3) db2" "mv_find db2 (pr_key q) = Some kv" "deserialize T (kv_value kv) = Inr (cd_data d)"
      "kv_mod_revision kv = cd_revision d"
    by auto
  have "evolves db' db2" using ev(3) later g(1) evolves_trans by blast
  then have "mv_find db' (pr_key q) = Some kv"
    using evolves_same_revision [of db' db2 "cd_revision c" "pr_key q" kv] ok' r g(2,4) rev by simp
  then have "kv_value kv = pr_bytes q" using f by auto
  moreover have "serialize T v = Inr (pr_bytes q)"
    using q by (auto simp: prepare_put_inner_def split: option.splits sum.splits)
  ultimately show ?thesis
    using g(3) codec by (auto simp: serialize_def deserialize_def split: if_splits)
qed

lemma put_if_not_exists_takes_effect:
  assumes "put_if_not_exists E T v s = (Inr res, s')"
  shows "\<exists>m n k db db'. rt_meta T v = Some m \<and> om_name m = Some n \<and> create_key (rt_descriptor T) (om_namespace m) n = Inr k \<and>
    evolves (database s) db \<and> evolves db' (database s') \<and>
    (case res of
       Some c \<Rightarrow> mv_find db k = None \<and> c = \<lparr>cd_data = v, cd_revision = mv_revision db + 1\<rparr> \<and>
         (\<forall>k'. mv_find db' k' = (if k' = k then Some (fresh_kv k (rt_encode T v) (mv_revision db + 1)) else mv_find db k'))
     | None \<Rightarrow> mv_find db k \<noteq> None \<and> db' = db)"
proof -
  obtain m n k bs where v: "rt_meta T v = Some m" "om_name m = Some n"
    "create_key (rt_descriptor T) (om_namespace m) n = Inr k" "serialize T v = Inr bs"
    using assms by (auto simp: put_if_not_exists_def split: option.splits sum.splits)
  obtain t where t: "et_txn E [CreateRevisionEq k 0] [OpPut k bs] [] s = (Inr t, s')"
    and res: "res = (if (case tr_responses t of RespPut # _ \<Rightarrow> True | _ \<Rightarrow> False) \<and> tr_succeeded t
      then Some \<lparr>cd_data = v, cd_revision = unwrap_or 0 (tr_revision t)\<rparr> else None)"
    using assms v by (auto simp: put_if_not_exists_def split: sum.splits prod.splits if_splits)
  obtain db db' where ev: "evolves (database s) db" "evolves db' (database s')"
    and run: "mvcc_txn [CreateRevisionEq k 0] [OpPut k bs] [] db = (t, db')"
    using txn_ok [OF t] by blast
  have ok: "mvcc_ok db" using ev(1) by (rule evolved_ok)
  have absent: "create_revision_of db k = 0 \<longleftrightarrow> mv_find db k = None"
    using ok by (auto simp: mvcc_ok_def create_revision_of_def split: option.split dest!: lookup_kv_key)
  have bs: "bs = rt_encode T v" using v(4) by (simp add: serialize_def split: if_splits)
  have sorted: "sorted_wrt (<) (map kv_key (mv_kvs db))" using ok by (simp add: mvcc_ok_def)
  have "case res of
       Some c \<Rightarrow> mv_find db k = None \<and> c = \<lparr>cd_data = v, cd_revision = mv_revision db + 1\<rparr> \<and>
         (\<forall>k'. mv_find db' k' = (if k' = k then Some (fresh_kv k (rt_encode T v) (mv_revision db + 1)) else mv_find db k'))
     | None \<Rightarrow> mv_find db k \<noteq> None \<and> db' = db"
    using run res absent lookup_put_kv [OF sorted, of _ k bs "mv_revision db + 1"]
    by (auto simp: mvcc_txn_def bs Let_def split: if_splits)
  then show ?thesis using v ev by blast
qed

lemma all_contents_list:
  "all_contents decode kvs = Inr cs \<Longrightarrow>
   list_all2 (\<lambda>c kv. decode (kv_value kv) = Inr (cd_data c) \<and> cd_revision c = kv_mod_revision kv) cs kvs"
  by (induction kvs arbitrary: cs) (auto split: sum.splits)

lemma list_takes_effect:
  assumes "list_with_revision E T ns None s = (Inr (cs, r), s')"
  shows "\<exists>db. evolves (database s) db \<and> evolves db (database s') \<and> r = mv_revision db \<and>
    list_all2 (\<lambda>c kv. deserialize T (kv_value kv) = Inr (cd_data c) \<and> cd_revision c = kv_mod_revision kv) cs
      (filter (\<lambda>kv. has_prefix (create_watch_key (rt_descriptor T) ns) (kv_key kv)) (mv_kvs db)) \<and>
    (\<forall>c \<in> set cs. cd_revision c \<le> r)"
proof -
  obtain res where res: "et_get_prefix E (create_watch_key (rt_descriptor T) ns) None s = (Inr res, s')"
    and cs: "all_contents (deserialize T) (gr_kvs res) = Inr cs" and r: "r = unwrap_or 0 (gr_revision res)"
    using assms by (auto simp: list_with_revision_def split: sum.splits prod.splits)
  obtain db where db: "evolves (database s) db" "res = mvcc_get_prefix (create_watch_key (rt_descriptor T) ns) None db"
    "evolves db (database s')"
    using get_prefix_ok [OF res] by blast
  let ?kvs = "filter (\<lambda>kv. has_prefix (create_watch_key (rt_descriptor T) ns) (kv_key kv)) (mv_kvs db)"
  have l: "list_all2 (\<lambda>c kv. deserialize T (kv_value kv) = Inr (cd_data c) \<and> cd_revision c = kv_mod_revision kv) cs ?kvs"
    using all_contents_list [OF cs] by (simp add: db(2) mvcc_get_prefix_def)
  have "cd_revision c \<le> mv_revision db" if "c \<in> set cs" for c
  proof -
    obtain i where i: "i < length cs" "c = cs ! i" using \<open>c \<in> set cs\<close> by (auto simp: in_set_conv_nth)
    have len: "i < length ?kvs" using l i(1) by (simp add: list_all2_lengthD)
    have "cd_revision c = kv_mod_revision (?kvs ! i)" using list_all2_nthD [OF l i(1)] i(2) by simp
    moreover have "?kvs ! i \<in> set (mv_kvs db)" using nth_mem [OF len] by simp
    ultimately show ?thesis using evolved_ok [OF db(1)] by (auto simp: mvcc_ok_def)
  qed
  then show ?thesis using db l r by (auto simp: mvcc_get_prefix_def)
qed

end

end
