(* ===== verification/Api_Responses.thy ===== *)
theory Api_Responses
  imports Json Store
begin

text \<open>
  The responses of the API server (\<^verbatim>\<open>tugboat-apiserver/src/data/\<close>): status objects, lists and tables,
  and the field and label selectors of list requests (\<^verbatim>\<open>endpoints/selector/\<close>).
\<close>

section \<open>Status responses\<close>

text \<open>The type and metadata of a status response are constant.\<close>

record status_response =
  sr_message :: string
  sr_reason :: string
  sr_code :: nat
  sr_details :: "json option"

definition with_all :: "string \<Rightarrow> string \<Rightarrow> nat \<Rightarrow> json option \<Rightarrow> status_response" where
  "with_all message reason code details =
     \<lparr>sr_message = message, sr_reason = reason, sr_code = code, sr_details = details\<rparr>"

definition bad_request :: "string \<Rightarrow> json option \<Rightarrow> status_response" where
  "bad_request message details = with_all message ''BadRequest'' 400 details"

definition unauthorized :: "string \<Rightarrow> json option \<Rightarrow> status_response" where
  "unauthorized message details = with_all message ''Unauthorized'' 401 details"

definition forbidden :: "string \<Rightarrow> json option \<Rightarrow> status_response" where
  "forbidden message details = with_all message ''Forbidden'' 403 details"

definition not_found :: "string \<Rightarrow> json option \<Rightarrow> status_response" where
  "not_found message details = with_all message ''NotFound'' 404 details"

definition conflict :: "string \<Rightarrow> json option \<Rightarrow> status_response" where
  "conflict message details = with_all message ''Conflict'' 409 details"

definition internal_error :: "string \<Rightarrow> json option \<Rightarrow> status_response" where
  "internal_error message details = with_all message ''InternalError'' 500 details"

definition json_int :: "int \<Rightarrow> json" where
  "json_int i = JNumber (if 0 \<le> i then PosInt (nat i) else NegInt i)"

definition from_store_error :: "store_error \<Rightarrow> status_response" where
  "from_store_error e = (case e of
     UnsupportedType \<Rightarrow> bad_request ''Invalid resource type'' None
   | ProtobufDeserialization \<Rightarrow> internal_error ''Failed to deserialize protobuf'' None
   | FieldMissing _ \<Rightarrow> bad_request ''Missing required field'' None
   | InvalidField field reason \<Rightarrow>
       bad_request ''Invalid field value'' (Some (JObject [(''field'', JString field), (''reason'', JString reason)]))
   | EtcdFailure _ \<Rightarrow> internal_error ''Etcd access error'' None
   | OptimisticLockFailed revision \<Rightarrow>
       conflict ''Resources are conflicted'' (Some (JObject [(''revision'', json_int revision)])))"

definition from_json_error :: "string \<Rightarrow> status_response" where
  "from_json_error e = internal_error ''Failed to serialize to JSON'' (Some (JObject [(''error'', JString e)]))"

lemmas status_defs = with_all_def bad_request_def unauthorized_def forbidden_def not_found_def conflict_def
  internal_error_def from_json_error_def

section \<open>Lists and tables\<close>

fun collect_values :: "('e + 'a) list \<Rightarrow> 'e + 'a list" where
  "collect_values [] = Inr []"
| "collect_values (Inl e # xs) = Inl e"
| "collect_values (Inr x # xs) = (case collect_values xs of Inl e \<Rightarrow> Inl e | Inr ys \<Rightarrow> Inr (x # ys))"

record resource_list =
  rl_type_meta :: type_meta
  rl_object_meta :: object_meta
  rl_items :: "json list"

definition from_raw_items :: "json list \<Rightarrow> resource_list" where
  "from_raw_items items =
     \<lparr>rl_type_meta = \<lparr>tm_kind = Some ''List'', tm_api_version = Some ''v1''\<rparr>,
      rl_object_meta = object_meta_default, rl_items = items\<rparr>"

definition from_serializable :: "('a \<Rightarrow> string + json) \<Rightarrow> 'a list \<Rightarrow> status_response + resource_list" where
  "from_serializable to_json items = (case collect_values (map to_json items) of
     Inr vs \<Rightarrow> Inr (from_raw_items vs)
   | Inl _ \<Rightarrow> Inl (internal_error ''Failed to serialize data'' None))"

text \<open>\<^verbatim>\<open>Value::pointer\<close> with the names of members.\<close>

fun pointer :: "json \<Rightarrow> string list \<Rightarrow> json option" where
  "pointer v [] = Some v"
| "pointer v (k # ks) = Option.bind (value_get k v) (\<lambda>w. pointer w ks)"

record table_column_definition =
  tc_name :: string
  tc_type :: string
  tc_format :: "string option"
  tc_description :: string
  tc_priority :: int

record table_row =
  tr_cells :: "json list"
  tr_object :: json

record table =
  tb_type_meta :: type_meta
  tb_object_meta :: object_meta
  tb_column_definitions :: "table_column_definition list"
  tb_rows :: "table_row list"

definition column :: "string \<Rightarrow> string \<Rightarrow> string option \<Rightarrow> string \<Rightarrow> table_column_definition" where
  "column name ty format description =
     \<lparr>tc_name = name, tc_type = ty, tc_format = format, tc_description = description, tc_priority = 0\<rparr>"

definition table_columns :: "bool \<Rightarrow> string option \<Rightarrow> table_column_definition list" where
  "table_columns include_namespace kind =
     [column ''Name'' ''string'' (Some ''name'') ''Resource name''] @
     (if include_namespace then [column ''Namespace'' ''string'' None ''Resource namespace''] else []) @
     (if kind = Some ''Ship'' then [column ''Class'' ''string'' None ''Ship Class'', column ''Node'' ''string'' None ''Node'']
      else if kind = Some ''Deployment'' \<or> kind = Some ''ReplicaSet'' then
        [column ''Replicas'' ''integer'' None ''Desired replicas'', column ''Available'' ''integer'' None ''Available replicas'']
      else []) @
     [column ''Created'' ''string'' None ''Creation timestamp'']"

definition item_has_namespace :: "json \<Rightarrow> bool" where
  "item_has_namespace item = is_some_and (\<lambda>v. v \<noteq> JNull) (pointer item [''metadata'', ''namespace''])"

definition table_cells :: "json \<Rightarrow> bool \<Rightarrow> string option \<Rightarrow> json list" where
  "table_cells item include_namespace kind =
     [unwrap_or JNull (pointer item [''metadata'', ''name''])] @
     (if include_namespace then [unwrap_or JNull (pointer item [''metadata'', ''namespace''])] else []) @
     (if kind = Some ''Ship'' then
        [unwrap_or JNull (pointer item [''spec'', ''shipClass'']), unwrap_or JNull (pointer item [''spec'', ''nodeName''])]
      else if kind = Some ''Deployment'' \<or> kind = Some ''ReplicaSet'' then
        [unwrap_or (json_int 1) (pointer item [''spec'', ''replicas'']),
         unwrap_or (json_int 0) (pointer item [''status'', ''readyReplicas''])]
      else []) @
     [unwrap_or JNull (pointer item [''metadata'', ''creationTimestamp''])]"

definition table_from_raw_items :: "json list \<Rightarrow> table" where
  "table_from_raw_items items =
     (let include_namespace = list_ex item_has_namespace items;
          kind = (case items of [] \<Rightarrow> None | i # _ \<Rightarrow> Option.bind (pointer i [''kind'']) as_str)
      in \<lparr>tb_type_meta = \<lparr>tm_kind = Some ''Table'', tm_api_version = Some ''meta.k8s.io/v1''\<rparr>,
          tb_object_meta = object_meta_default,
          tb_column_definitions = table_columns include_namespace kind,
          tb_rows = map (\<lambda>item. \<lparr>tr_cells = table_cells item include_namespace kind, tr_object = item\<rparr>) items\<rparr>)"

text \<open>
  In a table of resources every row has exactly one cell for every column, and the rows have the
  objects of the list in their order.
\<close>

lemma table_rectangular:
  "list_all (\<lambda>row. length (tr_cells row) = length (tb_column_definitions (table_from_raw_items items)))
     (tb_rows (table_from_raw_items items)) \<and>
   map tr_object (tb_rows (table_from_raw_items items)) = items"
  by (simp add: table_from_raw_items_def table_cells_def table_columns_def Let_def list_all_iff comp_def)

section \<open>Selectors\<close>

datatype api_selector = SelEqual string string | SelNotEqual string string

fun split_char :: "char \<Rightarrow> string \<Rightarrow> string list" where
  "split_char c [] = [[]]"
| "split_char c (x # xs) =
     (if x = c then [] # split_char c xs
      else case split_char c xs of [] \<Rightarrow> [[x]] | w # ws \<Rightarrow> (x # w) # ws)"

fun split_once_str :: "string \<Rightarrow> string \<Rightarrow> (string \<times> string) option" where
  "split_once_str p s =
     (case strip_prefix p s of
        Some rest \<Rightarrow> Some ([], rest)
      | None \<Rightarrow> (case s of [] \<Rightarrow> None | x # xs \<Rightarrow> map_option (apfst (Cons x)) (split_once_str p xs)))"

declare split_once_str.simps [simp del]

definition parse_fragment :: "string \<Rightarrow> status_response + api_selector" where
  "parse_fragment fragment =
     (case split_once_str ''!='' fragment of
        Some (key, v) \<Rightarrow>
          if key = [] then Inl (bad_request ''Invalid selector format: key must not be empty'' None)
          else Inr (SelNotEqual key v)
      | None \<Rightarrow>
          (case split_once (CHR ''='') fragment of
             Some (key, v) \<Rightarrow>
               if key = [] then Inl (bad_request ''Invalid selector format: key must not be empty'' None)
               else Inr (SelEqual key v)
           | None \<Rightarrow> Inl (bad_request
               ''Invalid selector format: must be key=value or key!=value, separated by commas'' None)))"

definition try_parse :: "string \<Rightarrow> status_response + api_selector list" where
  "try_parse s = collect_values (map parse_fragment (split_char (CHR '','') s))"

datatype field_selector = FieldEqual "string list" string | FieldNotEqual "string list" string

fun field_selector_from :: "api_selector \<Rightarrow> field_selector" where
  "field_selector_from (SelEqual key v) = FieldEqual (split_char (CHR ''.'') key) v"
| "field_selector_from (SelNotEqual key v) = FieldNotEqual (split_char (CHR ''.'') key) v"

fun follow :: "json \<Rightarrow> string list \<Rightarrow> json option" where
  "follow v [] = Some v"
| "follow v (k # route) = Option.bind (as_object v) (\<lambda>obj. Option.bind (obj_get obj k) (\<lambda>data. follow data route))"

definition is_match :: "field_selector \<Rightarrow> json \<Rightarrow> bool" where
  "is_match sel v =
     (let (key, expected, is_equal) = (case sel of FieldEqual k e \<Rightarrow> (k, e, True) | FieldNotEqual k e \<Rightarrow> (k, e, False)) in
      case follow v key of
        None \<Rightarrow> if is_equal then expected = [] else expected \<noteq> []
      | Some w \<Rightarrow>
          if is_equal then as_str w = Some expected \<or> (expected = [] \<and> w = JNull)
          else as_str w \<noteq> Some expected)"

fun is_label_match :: "api_selector \<Rightarrow> object_meta \<Rightarrow> bool" where
  "is_label_match (SelEqual key v) meta = (case map_of (om_labels meta) key of None \<Rightarrow> False | Some a \<Rightarrow> a = v)"
| "is_label_match (SelNotEqual key v) meta = (case map_of (om_labels meta) key of None \<Rightarrow> True | Some a \<Rightarrow> a \<noteq> v)"

definition filter_by_field_selector :: "('a \<Rightarrow> string + json) \<Rightarrow> api_selector list \<Rightarrow> 'a list \<Rightarrow> 'a list" where
  "filter_by_field_selector to_json sels =
     filter (\<lambda>x. case to_json x of Inl _ \<Rightarrow> False | Inr v \<Rightarrow> list_all (\<lambda>sel. is_match (field_selector_from sel) v) sels)"

definition filter_by_label_selector :: "('a \<Rightarrow> object_meta option) \<Rightarrow> api_selector list \<Rightarrow> 'a list \<Rightarrow> 'a list" where
  "filter_by_label_selector meta sels =
     filter (\<lambda>x. case meta x of None \<Rightarrow> False | Some m \<Rightarrow> list_all (\<lambda>sel. is_label_match sel m) sels)"

definition filter_by_selector ::
  "('a \<Rightarrow> string + json) \<Rightarrow> ('a \<Rightarrow> object_meta option) \<Rightarrow> api_selector list option \<Rightarrow> api_selector list option \<Rightarrow> 'a list \<Rightarrow> 'a list" where
  "filter_by_selector to_json meta fs ls xs = (case fs of
     None \<Rightarrow> (case ls of None \<Rightarrow> xs | Some l \<Rightarrow> filter_by_label_selector meta l xs)
   | Some f \<Rightarrow> (case ls of
       None \<Rightarrow> filter_by_field_selector to_json f xs
     | Some l \<Rightarrow> filter_by_field_selector to_json f (filter_by_label_selector meta l xs)))"

section \<open>What selectors accept\<close>

fun selector_text :: "api_selector \<Rightarrow> string" where
  "selector_text (SelEqual key v) = key @ ''='' @ v"
| "selector_text (SelNotEqual key v) = key @ ''!='' @ v"

fun selector_key :: "api_selector \<Rightarrow> string" where
  "selector_key (SelEqual key v) = key"
| "selector_key (SelNotEqual key v) = key"

fun join_char :: "char \<Rightarrow> string list \<Rightarrow> string" where
  "join_char c [] = []"
| "join_char c [w] = w"
| "join_char c (w # ws) = w @ c # join_char c ws"

lemma split_char_nonempty [simp]: "split_char c s \<noteq> []"
  by (induction s) (auto split: list.split)

lemma join_char_Cons:
  "join_char c ((x # w) # ws) = x # join_char c (w # ws)"
  "ws \<noteq> [] \<Longrightarrow> join_char c ([] # ws) = c # join_char c ws"
  by (cases ws; simp)+

lemma join_split_char: "join_char c (split_char c s) = s"
proof (induction s)
  case (Cons x s)
  then show ?case
    by (cases "split_char c s") (auto simp: join_char_Cons)
qed simp

lemma split_once_str_eq: "split_once_str p s = Some (a, b) \<Longrightarrow> s = a @ p @ b"
proof (induction s arbitrary: a)
  case Nil
  then show ?case
    by (subst (asm) split_once_str.simps) (auto simp: strip_prefix_eq_Some split: option.splits)
next
  case (Cons x s)
  then show ?case
    by (subst (asm) split_once_str.simps) (auto simp: strip_prefix_eq_Some split: option.splits)
qed

lemma parse_fragment_text: "parse_fragment f = Inr sel \<Longrightarrow> selector_text sel = f \<and> selector_key sel \<noteq> []"
  by (auto simp: parse_fragment_def split_once_eq_Some split: option.splits if_splits prod.splits
    dest: split_once_str_eq)

lemma collect_values_Inr: "collect_values (map f xs) = Inr ys \<longleftrightarrow> list_all2 (\<lambda>x y. f x = Inr y) xs ys"
proof (induction xs arbitrary: ys)
  case (Cons x xs)
  then show ?case by (cases "f x"; cases "collect_values (map f xs)") (auto simp: list_all2_Cons1)
qed auto

text \<open>
  A selector that parses has the text of the request: written out again, the requirements give
  the request, and none has an empty key.
\<close>

theorem selector_parse_print:
  assumes "try_parse s = Inr sels"
  shows "join_char (CHR '','') (map selector_text sels) = s \<and> list_all (\<lambda>sel. selector_key sel \<noteq> []) sels"
proof -
  have "list_all2 (\<lambda>f sel. parse_fragment f = Inr sel) (split_char (CHR '','') s) sels"
    using assms by (simp add: try_parse_def collect_values_Inr)
  then have "map selector_text sels = split_char (CHR '','') s \<and> list_all (\<lambda>sel. selector_key sel \<noteq> []) sels"
    by (induction rule: list_all2_induct) (auto dest: parse_fragment_text)
  then show ?thesis by (simp add: join_split_char)
qed

theorem selector_parse_print_witness:
  "join_char (CHR '','') (map selector_text [SelEqual ''a'' ''1'', SelNotEqual ''b.c'' ''x'']) = ''a=1,b.c!=x''"
proof -
  have "try_parse ''a=1,b.c!=x'' = Inr [SelEqual ''a'' ''1'', SelNotEqual ''b.c'' ''x'']" by code_simp
  from selector_parse_print [OF this] show ?thesis by (rule conjunct1)
qed

text \<open>Field requirements are complementary, except that both accept a null field for the empty value.\<close>

lemma field_selector_complement:
  "is_match (FieldNotEqual key expected) v \<longleftrightarrow>
     \<not> is_match (FieldEqual key expected) v \<or> (expected = [] \<and> follow v key = Some JNull)"
  by (auto simp: is_match_def split: option.split)

lemma label_selector_complement: "is_label_match (SelNotEqual key v) meta \<longleftrightarrow> \<not> is_label_match (SelEqual key v) meta"
  by (simp split: option.split)

lemma filter_by_selector_iff:
  "x \<in> set (filter_by_selector to_json meta fs ls xs) \<longleftrightarrow>
     x \<in> set xs \<and>
     (\<forall>f. fs = Some f \<longrightarrow> (\<exists>v. to_json x = Inr v \<and> (\<forall>sel \<in> set f. is_match (field_selector_from sel) v))) \<and>
     (\<forall>l. ls = Some l \<longrightarrow> (\<exists>m. meta x = Some m \<and> (\<forall>sel \<in> set l. is_label_match sel m)))"
  by (cases fs; cases ls)
    (auto simp: filter_by_selector_def filter_by_field_selector_def filter_by_label_selector_def list_all_iff
      split: option.splits sum.splits)

end
