(* ===== verification/Api_Handlers.thy ===== *)
theory Api_Handlers
  imports Api_Responses
begin

text \<open>
  The generic resource handlers of the API server
  (\<^verbatim>\<open>tugboat-apiserver/src/endpoints/resource_handlers.rs\<close>, the macros of \<^verbatim>\<open>endpoints/utils.rs\<close>, and
  \<^verbatim>\<open>operator.rs\<close>) over the resource store.  A resource type adds to that of the store the JSON
  conversion that serde derives and the validator of the type.  The time, the UUID and the random
  part of a generated name are arguments.
\<close>

section \<open>Resource types\<close>

record 'a api_type =
  at_resource :: "'a resource_type"
  at_to_json :: "'a \<Rightarrow> string + json"
  at_from_json :: "json \<Rightarrow> string + 'a"
  at_set_type_meta :: "type_meta \<Rightarrow> 'a \<Rightarrow> 'a"
  at_validate :: "'a \<Rightarrow> bool"

abbreviation at_descriptor :: "'a api_type \<Rightarrow> resource_descriptor" where
  "at_descriptor T \<equiv> rt_descriptor (at_resource T)"

abbreviation at_meta :: "'a api_type \<Rightarrow> 'a \<Rightarrow> object_meta option" where
  "at_meta T \<equiv> rt_meta (at_resource T)"

abbreviation at_set_meta :: "'a api_type \<Rightarrow> object_meta option \<Rightarrow> 'a \<Rightarrow> 'a" where
  "at_set_meta T \<equiv> rt_set_meta (at_resource T)"

datatype 'a modify_response = Created 'a | Updated 'a

section \<open>Failing calls\<close>

text \<open>The operator \<^verbatim>\<open>?\<close> on a result, on one with a JSON error, and on a call of the store.\<close>

definition try_result :: "'e + 'a \<Rightarrow> ('a \<Rightarrow> 'e + 'b) \<Rightarrow> 'e + 'b" where
  "try_result r f = (case r of Inl e \<Rightarrow> Inl e | Inr x \<Rightarrow> f x)"

definition json_result :: "string + 'a \<Rightarrow> status_response + 'a" where
  "json_result r = (case r of Inl e \<Rightarrow> Inl (from_json_error e) | Inr x \<Rightarrow> Inr x)"

definition try_store ::
  "(store_error + 'a) \<times> 's \<Rightarrow> ('a \<Rightarrow> 's \<Rightarrow> (status_response + 'b) \<times> 's) \<Rightarrow> (status_response + 'b) \<times> 's" where
  "try_store call f = (case call of (Inl e, s) \<Rightarrow> (Inl (from_store_error e), s) | (Inr x, s) \<Rightarrow> f x s)"

definition try_pure ::
  "status_response + 'a \<Rightarrow> ('a \<Rightarrow> 's \<Rightarrow> (status_response + 'b) \<times> 's) \<Rightarrow> 's \<Rightarrow> (status_response + 'b) \<times> 's" where
  "try_pure r f s = (case r of Inl e \<Rightarrow> (Inl e, s) | Inr x \<Rightarrow> f x s)"

lemmas try_defs = try_result_def json_result_def try_store_def try_pure_def

section \<open>Checks\<close>

definition to_object :: "json \<Rightarrow> string \<Rightarrow> status_response + json_map" where
  "to_object v ctx = (case v of
     JObject m \<Rightarrow> Inr m
   | _ \<Rightarrow> Inl (internal_error (ctx @ '' is not a JSON object'') None))"

definition resource_identity :: "string option \<Rightarrow> string \<Rightarrow> json" where
  "resource_identity ns n = (case ns of
     Some x \<Rightarrow> JObject [(''name'', JString n), (''namespace'', JString x)]
   | None \<Rightarrow> JObject [(''name'', JString n)])"

definition validate_resource :: "'a api_type \<Rightarrow> 'a \<Rightarrow> status_response + unit" where
  "validate_resource T v =
     (if at_validate T v then Inr ()
      else Inl (bad_request (''Invalid '' @ rd_kind (at_descriptor T) @ '' resource'') None))"

definition name_mismatch :: "string option \<Rightarrow> string \<Rightarrow> status_response + unit" where
  "name_mismatch actual expected_name = (case actual of
     Some actual_name \<Rightarrow>
       if actual_name \<noteq> expected_name
       then Inl (bad_request
         (''metadata.name must match resource name in URL: expected \"'' @ expected_name @ ''\", got \"'' @ actual_name @ ''\"'')
         (Some (JObject [(''name'', JString expected_name), (''providedName'', JString actual_name)])))
       else Inr ()
   | None \<Rightarrow> Inr ())"

definition validate_resource_name :: "'a api_type \<Rightarrow> 'a \<Rightarrow> string \<Rightarrow> status_response + unit" where
  "validate_resource_name T v expected_name = name_mismatch (meta_name (at_meta T v)) expected_name"

definition validate_patch_name :: "json_map \<Rightarrow> string \<Rightarrow> status_response + unit" where
  "validate_patch_name patch expected_name =
     name_mismatch (Option.bind (Option.bind (obj_get patch ''metadata'') (value_get ''name'')) as_str) expected_name"

definition resource_not_found :: "'a api_type \<Rightarrow> string option \<Rightarrow> string \<Rightarrow> status_response" where
  "resource_not_found T ns n =
     not_found (rd_kind (at_descriptor T) @ '' not found'') (Some (resource_identity ns n))"

definition ensure_namespace_exists ::
  "'s etcd \<Rightarrow> 'n resource_type \<Rightarrow> string \<Rightarrow> 's \<Rightarrow> (status_response + unit) \<times> 's" where
  "ensure_namespace_exists E N ns s =
     try_store (get E N None ns s) (\<lambda>found s.
       (if found \<noteq> None then Inr ()
        else Inl (not_found (''namespaces \"'' @ ns @ ''\" not found'') (Some (JObject [(''name'', JString ns)]))), s))"

section \<open>Creation\<close>

definition apply_namespace :: "object_meta \<Rightarrow> string \<Rightarrow> object_meta" where
  "apply_namespace meta ns = meta\<lparr>om_namespace := Some ns\<rparr>"

definition apply_uid :: "string \<Rightarrow> time \<Rightarrow> object_meta \<Rightarrow> object_meta" where
  "apply_uid uuid now meta = meta\<lparr>om_uid := Some uuid, om_creation_timestamp := Some now,
     om_generation := Some 1, om_resource_version := None\<rparr>"

definition generate :: "string \<Rightarrow> string \<Rightarrow> string" where
  "generate name_base sample = name_base @ sample"

fun create_generated ::
  "'s etcd \<Rightarrow> 'a api_type \<Rightarrow> object_meta \<Rightarrow> string \<Rightarrow> 'a \<Rightarrow> string list \<Rightarrow> 's \<Rightarrow> (status_response + 'a modify_response) \<times> 's" where
  "create_generated E T meta generate_name object [] s = (Inl (conflict ''Generate name failed'' None), s)"
| "create_generated E T meta generate_name object (sample # samples) s =
     try_store
       (put_if_not_exists E (at_resource T)
         (at_set_meta T (Some (meta\<lparr>om_name := Some (generate generate_name sample)\<rparr>)) object) s)
       (\<lambda>created s. case created of
          Some data \<Rightarrow> (Inr (Created (apply_revision (at_resource T) data)), s)
        | None \<Rightarrow> create_generated E T meta generate_name object samples s)"

definition create_object ::
  "'s etcd \<Rightarrow> 'a api_type \<Rightarrow> string \<Rightarrow> time \<Rightarrow> (nat \<Rightarrow> string) \<Rightarrow> object_meta \<Rightarrow> 'a \<Rightarrow> 's \<Rightarrow> (status_response + 'a modify_response) \<times> 's" where
  "create_object E T uuid now samples object_meta object s =
     (let object = at_set_type_meta T (type_meta_of (at_descriptor T)) object;
          meta = apply_uid uuid now object_meta
      in if om_name meta \<noteq> None
         then try_store (put_if_not_exists E (at_resource T) (at_set_meta T (Some meta) object) s)
           (\<lambda>created s. case created of
              Some data \<Rightarrow> (Inr (Created (apply_revision (at_resource T) data)), s)
            | None \<Rightarrow> (Inl (conflict ''Specified name already exists'' None), s))
         else case om_generate_name meta of
           None \<Rightarrow> (Inl (bad_request ''metadata.generateName is required'' None), s)
         | Some generate_name \<Rightarrow> create_generated E T meta generate_name object (map samples [0..<5]) s)"

definition extract_object_meta :: "'a api_type \<Rightarrow> 'a \<Rightarrow> status_response + object_meta" where
  "extract_object_meta T v = (case at_meta T v of
     Some meta \<Rightarrow> Inr meta
   | None \<Rightarrow> Inl (bad_request ''metadata is required'' None))"

definition check_namespace_absent :: "object_meta \<Rightarrow> status_response + unit" where
  "check_namespace_absent meta =
     (if om_namespace meta \<noteq> None then Inl (bad_request ''metadata.namespace cannot be set'' None) else Inr ())"

definition create_cluster ::
  "'s etcd \<Rightarrow> 'a api_type \<Rightarrow> string \<Rightarrow> time \<Rightarrow> (nat \<Rightarrow> string) \<Rightarrow> 'a \<Rightarrow> 's \<Rightarrow> (status_response + 'a modify_response) \<times> 's" where
  "create_cluster E T uuid now samples object s =
     try_pure (extract_object_meta T object) (\<lambda>meta.
     try_pure (check_namespace_absent meta) (\<lambda>_.
     try_pure (validate_resource T object) (\<lambda>_.
     create_object E T uuid now samples meta object))) s"

definition create_namespaced ::
  "'s etcd \<Rightarrow> 'n resource_type \<Rightarrow> 'a api_type \<Rightarrow> string \<Rightarrow> time \<Rightarrow> (nat \<Rightarrow> string) \<Rightarrow> 'a \<Rightarrow> string \<Rightarrow> 's \<Rightarrow>
   (status_response + 'a modify_response) \<times> 's" where
  "create_namespaced E N T uuid now samples object ns s =
     (case ensure_namespace_exists E N ns s of
        (Inl e, s) \<Rightarrow> (Inl e, s)
      | (Inr _, s) \<Rightarrow>
          try_pure (extract_object_meta T object) (\<lambda>meta.
          try_pure (validate_resource T object) (\<lambda>_.
          create_object E T uuid now samples (apply_namespace meta ns) object)) s)"

section \<open>Reading and deleting\<close>

text \<open>What the handlers begin with: the current object with its revision, or the answer 404.\<close>

definition with_current ::
  "'s etcd \<Rightarrow> 'a api_type \<Rightarrow> string option \<Rightarrow> string \<Rightarrow> ('a \<Rightarrow> 's \<Rightarrow> (status_response + 'b) \<times> 's) \<Rightarrow> 's \<Rightarrow> (status_response + 'b) \<times> 's" where
  "with_current E T ns n f s =
     try_store (get E (at_resource T) ns n s) (\<lambda>found s. case found of
       Some data \<Rightarrow> f (apply_revision (at_resource T) data) s
     | None \<Rightarrow> (Inl (resource_not_found T ns n), s))"

definition read_resource ::
  "'s etcd \<Rightarrow> 'a api_type \<Rightarrow> string option \<Rightarrow> string \<Rightarrow> 's \<Rightarrow> (status_response + 'a) \<times> 's" where
  "read_resource E T ns n = with_current E T ns n (\<lambda>current s. (Inr current, s))"

definition list_handler ::
  "'s etcd \<Rightarrow> 'a api_type \<Rightarrow> string option \<Rightarrow> string option \<Rightarrow> string option \<Rightarrow> 's \<Rightarrow> (status_response + resource_list) \<times> 's" where
  "list_handler E T field_selector label_selector ns s =
     (let parse = (\<lambda>sel. case sel of None \<Rightarrow> Inr None | Some text \<Rightarrow> map_sum id Some (try_parse text)) in
      try_pure (parse field_selector) (\<lambda>fs.
      try_pure (parse label_selector) (\<lambda>ls s.
      try_store (Store.list_resources E (at_resource T) ns None s) (\<lambda>cs s.
        (from_serializable (at_to_json T)
           (filter_by_selector (at_to_json T) (at_meta T) fs ls (map (apply_revision (at_resource T)) cs)), s)))) s)"

text \<open>Writing an object only if it has changed.\<close>

definition put_if_changed ::
  "'s etcd \<Rightarrow> 'a api_type \<Rightarrow> 'a \<Rightarrow> 'a \<Rightarrow> ('a \<Rightarrow> 'b) \<Rightarrow> 's \<Rightarrow> (status_response + 'b) \<times> 's" where
  "put_if_changed E T current new wrap s =
     (if current \<noteq> new
      then try_store (put E (at_resource T) new s) (\<lambda>data s. (Inr (wrap (apply_revision (at_resource T) data)), s))
      else (Inr (wrap new), s))"

definition pending_delete :: "'a api_type \<Rightarrow> time \<Rightarrow> 'a \<Rightarrow> 'a" where
  "pending_delete T now current = at_set_meta T (snd (mark_for_deletion now (at_meta T current))) current"

definition delete_resource ::
  "'s etcd \<Rightarrow> 'a api_type \<Rightarrow> time \<Rightarrow> string option \<Rightarrow> string \<Rightarrow> 's \<Rightarrow> (status_response + 'a) \<times> 's" where
  "delete_resource E T now ns n = with_current E T ns n (\<lambda>current s.
     if has_finalizers (at_meta T current)
     then put_if_changed E T current (pending_delete T now current) id s
     else try_store (delete E (at_resource T) ns n s) (\<lambda>found s. case found of
         Some data \<Rightarrow> (Inr (apply_revision (at_resource T) data), s)
       | None \<Rightarrow> (Inl (resource_not_found T ns n), s)))"

section \<open>Updates\<close>

record replace_options =
  ro_preserve_status :: bool
  ro_use_client_resource_version :: bool
  ro_update_generation :: bool

definition replace_options_default :: replace_options where
  "replace_options_default =
     \<lparr>ro_preserve_status = False, ro_use_client_resource_version = False, ro_update_generation = False\<rparr>"

definition client_version :: "json option \<Rightarrow> string option" where
  "client_version patch_metadata = Option.bind (Option.bind patch_metadata (value_get ''resourceVersion'')) as_str"

definition enforced_meta :: "replace_options \<Rightarrow> object_meta \<Rightarrow> json option \<Rightarrow> bool \<Rightarrow> object_meta \<Rightarrow> object_meta" where
  "enforced_meta options current_meta patch_metadata content_changed updated_meta =
     updated_meta\<lparr>
       om_name := om_name current_meta,
       om_namespace := om_namespace current_meta,
       om_uid := om_uid current_meta,
       om_generation := (if ro_update_generation options \<and> content_changed
         then next_generation (om_generation current_meta) else om_generation current_meta),
       om_creation_timestamp := om_creation_timestamp current_meta,
       om_deletion_timestamp := om_deletion_timestamp current_meta,
       om_resource_version := (if ro_use_client_resource_version options
         then client_version patch_metadata
         else om_resource_version current_meta)\<rparr>"

definition enforce_metadata :: "'a api_type \<Rightarrow> 'a \<Rightarrow> replace_options \<Rightarrow> json option \<Rightarrow> bool \<Rightarrow> 'a \<Rightarrow> 'a" where
  "enforce_metadata T current options patch_metadata content_changed updated =
     (case (at_meta T current, at_meta T updated) of
        (Some current_meta, Some updated_meta) \<Rightarrow>
          at_set_meta T (Some (enforced_meta options current_meta patch_metadata content_changed updated_meta)) updated
      | _ \<Rightarrow> updated)"

text \<open>The fields of an update that come from the current object.\<close>

definition restore_type :: "json_map \<Rightarrow> json_map \<Rightarrow> json_map" where
  "restore_type current_obj obj =
     (let obj = (case obj_get current_obj ''apiVersion'' of Some v \<Rightarrow> obj_insert ''apiVersion'' v obj | None \<Rightarrow> obj)
      in case obj_get current_obj ''kind'' of Some v \<Rightarrow> obj_insert ''kind'' v obj | None \<Rightarrow> obj)"

definition restore_status :: "json_map \<Rightarrow> json_map \<Rightarrow> json_map" where
  "restore_status current_obj obj = (case obj_get current_obj ''status'' of
     Some status \<Rightarrow> obj_insert ''status'' status obj
   | None \<Rightarrow> obj_remove ''status'' obj)"

definition patched_object :: "replace_options \<Rightarrow> json_map \<Rightarrow> json_map \<Rightarrow> json_map" where
  "patched_object options current_obj merged_obj =
     (let obj = restore_type current_obj merged_obj
      in if ro_preserve_status options then restore_status current_obj obj else obj)"

definition apply_patch :: "'a api_type \<Rightarrow> 'a \<Rightarrow> replace_options \<Rightarrow> json_map \<Rightarrow> status_response + 'a" where
  "apply_patch T current options patch =
     try_result (json_result (at_to_json T current)) (\<lambda>current_value.
     try_result (to_object current_value ''current resource'') (\<lambda>current_obj.
     try_result (to_object (rfc7396_merge_patch (JObject current_obj) (JObject patch)) ''patched resource'') (\<lambda>merged_obj.
     try_result (json_result (at_from_json T (JObject (patched_object options current_obj merged_obj)))) (\<lambda>updated.
     Inr (enforce_metadata T current options (obj_get patch ''metadata'')
       (generation_tracked_fields_changed current_obj merged_obj) updated)))))"

definition replaced_object :: "replace_options \<Rightarrow> json_map \<Rightarrow> json_map \<Rightarrow> json_map" where
  "replaced_object options current_obj replacement_obj =
     (let obj = patched_object options current_obj replacement_obj
      in case obj_get current_obj ''metadata'' of
           Some (JObject current_meta) \<Rightarrow>
             preserve_metadata_map current_meta ''labels'' (preserve_metadata_map current_meta ''annotations'' obj)
         | _ \<Rightarrow> obj)"

definition apply_replacement :: "'a api_type \<Rightarrow> 'a \<Rightarrow> replace_options \<Rightarrow> 'a \<Rightarrow> status_response + 'a" where
  "apply_replacement T current options replacement =
     try_result (json_result (at_to_json T current)) (\<lambda>current_value.
     try_result (to_object current_value ''current resource'') (\<lambda>current_obj.
     try_result (json_result (at_to_json T replacement)) (\<lambda>replacement_value.
     try_result (to_object replacement_value ''replacement resource'') (\<lambda>replacement_obj.
     let new_obj = replaced_object options current_obj replacement_obj in
     try_result (json_result (at_from_json T (JObject new_obj))) (\<lambda>updated.
     Inr (enforce_metadata T current options (obj_get replacement_obj ''metadata'')
       (generation_tracked_fields current_obj \<noteq> generation_tracked_fields new_obj) updated))))))"

definition apply_status_update :: "'a api_type \<Rightarrow> 'a \<Rightarrow> replace_options \<Rightarrow> json \<Rightarrow> status_response + 'a" where
  "apply_status_update T current options status =
     try_result (json_result (at_to_json T current)) (\<lambda>current_value.
     try_result (to_object current_value ''current resource'') (\<lambda>current_obj.
     try_result (json_result (at_from_json T (JObject (obj_insert ''status'' status current_obj)))) (\<lambda>updated.
     Inr (enforce_metadata T current options None False updated))))"

definition bump_generation :: "'a api_type \<Rightarrow> 'a \<Rightarrow> 'a" where
  "bump_generation T v = (case at_meta T v of
     Some meta \<Rightarrow> at_set_meta T (Some (meta\<lparr>om_generation := next_generation (om_generation meta)\<rparr>)) v
   | None \<Rightarrow> v)"

definition replace_resource ::
  "'s etcd \<Rightarrow> 'a api_type \<Rightarrow> string option \<Rightarrow> string \<Rightarrow> 'a \<Rightarrow> replace_options \<Rightarrow> 's \<Rightarrow> (status_response + 'a modify_response) \<times> 's" where
  "replace_resource E T ns n replacement options = with_current E T ns n (\<lambda>current.
     try_pure (validate_resource_name T replacement n) (\<lambda>_.
     try_pure (apply_replacement T current options replacement) (\<lambda>replaced.
     try_pure (validate_resource T replaced) (\<lambda>_.
     put_if_changed E T current replaced Updated))))"

definition patch_resource_with_validation ::
  "'s etcd \<Rightarrow> 'a api_type \<Rightarrow> string option \<Rightarrow> string \<Rightarrow> json_map \<Rightarrow> replace_options \<Rightarrow> ('a \<Rightarrow> status_response + unit) \<Rightarrow>
   's \<Rightarrow> (status_response + 'a modify_response) \<times> 's" where
  "patch_resource_with_validation E T ns n patch options validate =
     try_pure (validate_patch_name patch n) (\<lambda>_.
     with_current E T ns n (\<lambda>current.
     try_pure (apply_patch T current options patch) (\<lambda>patched.
     try_pure (validate patched) (\<lambda>_.
     put_if_changed E T current patched Updated))))"

definition patch_resource ::
  "'s etcd \<Rightarrow> 'a api_type \<Rightarrow> string option \<Rightarrow> string \<Rightarrow> json_map \<Rightarrow> replace_options \<Rightarrow> 's \<Rightarrow> (status_response + 'a modify_response) \<times> 's" where
  "patch_resource E T ns n patch options =
     patch_resource_with_validation E T ns n patch options (validate_resource T)"

definition status_patch_resource ::
  "'s etcd \<Rightarrow> 'a api_type \<Rightarrow> string option \<Rightarrow> string \<Rightarrow> json_map \<Rightarrow> 's \<Rightarrow> (status_response + 'a modify_response) \<times> 's" where
  "status_patch_resource E T ns n patch s =
     (if \<not> list_all (\<lambda>(key, _). key = ''status'') patch
      then (Inl (bad_request ''PATCH /status must contain only status field.'' None), s)
      else with_current E T ns n (\<lambda>current.
        try_pure (apply_patch T current replace_options_default patch) (\<lambda>patched.
        try_pure (validate_resource T patched) (\<lambda>_.
        put_if_changed E T current patched Updated))) s)"

definition status_replace_resource ::
  "'s etcd \<Rightarrow> 'a api_type \<Rightarrow> string option \<Rightarrow> string \<Rightarrow> 'a \<Rightarrow> 's \<Rightarrow> (status_response + 'a modify_response) \<times> 's" where
  "status_replace_resource E T ns n replacement = with_current E T ns n (\<lambda>current.
     try_pure (json_result (at_to_json T replacement)) (\<lambda>replacement_value.
     let status = unwrap_or JNull (value_get ''status'' replacement_value) in
     try_pure (apply_status_update T current replace_options_default status) (\<lambda>replaced.
     try_pure (validate_resource T replaced) (\<lambda>_.
     put_if_changed E T current replaced Updated))))"

end
