(* ===== verification/Api_Effects.thy ===== *)
theory Api_Effects
  imports Api_Handlers
begin

text \<open>
  What the resource handlers do to the database while other clients are at work between their calls:
  an update is an atomic read-modify-write of one object, a creation takes a free key, a deletion
  removes one key.  The lemmas hold for every client with the contract of \<open>etcd_client\<close>.
\<close>

section \<open>Updates as one step\<close>

text \<open>The metadata of an object of the type is a field of it.\<close>

definition meta_field :: "'a resource_type \<Rightarrow> bool" where
  "meta_field R \<longleftrightarrow> (\<forall>m v. rt_meta R (rt_set_meta R m v) = m)"

text \<open>The object has a name, and its name and namespace give the key.\<close>

definition own_key :: "'a resource_type \<Rightarrow> string \<Rightarrow> 'a \<Rightarrow> bool" where
  "own_key R k v \<longleftrightarrow> (\<exists>m n. rt_meta R v = Some m \<and> om_name m = Some n \<and> create_key (rt_descriptor R) (om_namespace m) n = Inr k)"

text \<open>The object that a read in state \<open>s\<close> returns, if any, is stored under its own key.\<close>

definition read_own_key :: "'s etcd \<Rightarrow> 'a api_type \<Rightarrow> string option \<Rightarrow> string \<Rightarrow> string \<Rightarrow> 's \<Rightarrow> bool" where
  "read_own_key E T ns n k s \<longleftrightarrow> (\<forall>c s'. get E (at_resource T) ns n s = (Inr (Some c), s') \<longrightarrow> own_key (at_resource T) k (cd_data c))"

text \<open>
  All update handlers read the current object, compute a new one from it and write it if it differs.
\<close>

definition update_resource ::
  "'s etcd \<Rightarrow> 'a api_type \<Rightarrow> string option \<Rightarrow> string \<Rightarrow> ('a \<Rightarrow> status_response + 'a) \<Rightarrow> 's \<Rightarrow> (status_response + 'a modify_response) \<times> 's" where
  "update_resource E T ns n f = with_current E T ns n (\<lambda>current. try_pure (f current) (\<lambda>new. put_if_changed E T current new Updated))"

definition validated :: "('a \<Rightarrow> status_response + unit) \<Rightarrow> status_response + 'a \<Rightarrow> status_response + 'a" where
  "validated check r = try_result r (\<lambda>v. try_result (check v) (\<lambda>_. Inr v))"

lemma validated_Inr: "validated check r = Inr v \<longleftrightarrow> r = Inr v \<and> check v = Inr ()"
  by (cases r) (auto simp: validated_def try_result_def split: sum.splits)

lemma try_pure_validated:
  "try_pure r (\<lambda>v. try_pure (check v) (\<lambda>_. g v)) = try_pure (validated check r) g"
  by (auto simp: validated_def try_pure_def try_result_def fun_eq_iff split: sum.split)

lemma try_pure_try_result: "try_pure r (\<lambda>x. try_pure (h x) g) = try_pure (try_result r h) g"
  by (auto simp: try_pure_def try_result_def fun_eq_iff split: sum.split)

lemma replace_as_update:
  "replace_resource E T ns n replacement options = update_resource E T ns n (\<lambda>current.
     try_result (validate_resource_name T replacement n) (\<lambda>_.
       validated (validate_resource T) (apply_replacement T current options replacement)))"
  by (simp add: replace_resource_def update_resource_def try_pure_validated try_pure_try_result)

lemma patch_as_update:
  "patch_resource_with_validation E T ns n patch options check = try_pure (validate_patch_name patch n) (\<lambda>_.
     update_resource E T ns n (\<lambda>current. validated check (apply_patch T current options patch)))"
  by (simp add: patch_resource_with_validation_def update_resource_def try_pure_validated)

lemma status_patch_as_update:
  "list_all (\<lambda>(key, _). key = ''status'') patch \<Longrightarrow> status_patch_resource E T ns n patch s =
     update_resource E T ns n (\<lambda>current. validated (validate_resource T) (apply_patch T current replace_options_default patch)) s"
  by (simp add: status_patch_resource_def update_resource_def try_pure_validated)

lemma status_replace_as_update:
  "status_replace_resource E T ns n replacement = update_resource E T ns n (\<lambda>current.
     try_result (json_result (at_to_json T replacement)) (\<lambda>v.
       validated (validate_resource T)
         (apply_status_update T current replace_options_default (unwrap_or JNull (value_get ''status'' v)))))"
  by (simp add: status_replace_resource_def update_resource_def try_pure_validated try_pure_try_result Let_def)

text \<open>The effect of an update with the function \<open>f\<close> on the object with key \<open>k\<close>, at one moment.\<close>

definition atomic_update :: "'a api_type \<Rightarrow> string \<Rightarrow> ('a \<Rightarrow> status_response + 'a) \<Rightarrow> 'a \<Rightarrow> mvcc \<Rightarrow> mvcc \<Rightarrow> bool" where
  "atomic_update T k f v db db' \<longleftrightarrow> (\<exists>kv old current new.
     mv_find db k = Some kv \<and> deserialize (at_resource T) (kv_value kv) = Inr old \<and>
     current = apply_revision (at_resource T) \<lparr>cd_data = old, cd_revision = kv_mod_revision kv\<rparr> \<and> f current = Inr new \<and>
     (if new = current then v = new \<and> db' = db
      else v = apply_revision (at_resource T) \<lparr>cd_data = new, cd_revision = mv_revision db + 1\<rparr> \<and>
        mv_revision db' = mv_revision db + 1 \<and>
        (\<forall>k'. mv_find db' k' = (if k' = k then Some (updated_kv (Some kv) k (rt_encode (at_resource T) new) (mv_revision db + 1))
           else mv_find db k'))))"

lemma atomic_update_changed:
  assumes "mv_find db k = Some kv" and "deserialize (at_resource T) (kv_value kv) = Inr old"
    and "f (apply_revision (at_resource T) \<lparr>cd_data = old, cd_revision = kv_mod_revision kv\<rparr>) = Inr new"
    and "new \<noteq> apply_revision (at_resource T) \<lparr>cd_data = old, cd_revision = kv_mod_revision kv\<rparr>"
    and "mv_revision db' = mv_revision db + 1"
    and "\<forall>k'. mv_find db' k' = (if k' = k then Some (updated_kv (Some kv) k (rt_encode (at_resource T) new) (mv_revision db + 1))
           else mv_find db k')"
  shows "atomic_update T k f (apply_revision (at_resource T) \<lparr>cd_data = new, cd_revision = mv_revision db + 1\<rparr>) db db'"
  using assms by (simp add: atomic_update_def)

text \<open>
  A function that leaves the name, the namespace and the resource version alone, or takes the latter
  from the client, who knows it since before the call.
\<close>

definition keeps_identity :: "'a api_type \<Rightarrow> int \<Rightarrow> ('a \<Rightarrow> status_response + 'a) \<Rightarrow> bool" where
  "keeps_identity T known f \<longleftrightarrow> (\<forall>current new cm nm. f current = Inr new \<longrightarrow> at_meta T current = Some cm \<longrightarrow> at_meta T new = Some nm \<longrightarrow>
     om_name nm = om_name cm \<and> om_namespace nm = om_namespace cm \<and>
     (om_resource_version nm = om_resource_version cm \<or>
      (\<exists>w r. om_resource_version nm = Some w \<and> parse_i64 w = Some r \<and> 0 < r \<and> r \<le> known)))"

lemma apply_revision_meta:
  "meta_field R \<Longrightarrow> rt_meta R (apply_revision R c) =
     Some ((case rt_meta R (cd_data c) of None \<Rightarrow> object_meta_default | Some m \<Rightarrow> m)\<lparr>om_resource_version := Some (int_to_string (cd_revision c))\<rparr>)"
  by (simp add: apply_revision_def meta_field_def Let_def split: option.split)

lemma prepare_put_innerD:
  assumes "prepare_put_inner R v = Inr q"
  obtains m n where "rt_meta R v = Some m" "om_name m = Some n" "create_key (rt_descriptor R) (om_namespace m) n = Inr (pr_key q)"
    "pr_bytes q = rt_encode R v"
    "pr_expected_revision q = (case om_resource_version m of None \<Rightarrow> None | Some w \<Rightarrow> parse_i64 w)"
    "\<forall>w. om_resource_version m = Some w \<longrightarrow> parse_i64 w \<noteq> None"
  using assms by (auto simp: prepare_put_inner_def serialize_def split: option.splits sum.splits if_splits)

lemma identity_request:
  assumes field: "meta_field R" and R: "R = at_resource T" and keeps: "keeps_identity T known f" and new: "f (apply_revision R c) = Inr new"
    and own: "own_key R k (cd_data c)" and q: "prepare_put_inner R new = Inr q"
    and i64: "0 < cd_revision c" "cd_revision c \<le> i64_max"
  shows "pr_key q = k \<and> pr_bytes q = rt_encode R new \<and>
    (\<exists>e. pr_expected_revision q = Some e \<and> (e = cd_revision c \<or> (0 < e \<and> e \<le> known)))"
proof -
  obtain m n where m: "rt_meta R (cd_data c) = Some m" "om_name m = Some n" "create_key (rt_descriptor R) (om_namespace m) n = Inr k"
    using own by (auto simp: own_key_def)
  define cm where "cm = m\<lparr>om_resource_version := Some (int_to_string (cd_revision c))\<rparr>"
  have cm: "rt_meta R (apply_revision R c) = Some cm"
    using apply_revision_meta [OF field, of c] m(1) by (simp add: cm_def)
  obtain nm nn where nm: "rt_meta R new = Some nm" "om_name nm = Some nn" "create_key (rt_descriptor R) (om_namespace nm) nn = Inr (pr_key q)"
    "pr_bytes q = rt_encode R new" "pr_expected_revision q = (case om_resource_version nm of None \<Rightarrow> None | Some w \<Rightarrow> parse_i64 w)"
    using q by (rule prepare_put_innerD)
  have ids: "om_name nm = om_name cm" "om_namespace nm = om_namespace cm"
    "om_resource_version nm = om_resource_version cm \<or>
      (\<exists>w r. om_resource_version nm = Some w \<and> parse_i64 w = Some r \<and> 0 < r \<and> r \<le> known)"
    using keeps new cm nm(1) unfolding keeps_identity_def R by blast+
  have "parse_i64 (int_to_string (cd_revision c)) = Some (cd_revision c)"
    using i64 by (intro parse_i64_int_to_string) (simp_all add: i64_min_def)
  then show ?thesis using ids m nm by (auto simp: cm_def)
qed

text \<open>An object is created under a free key, with a new uid and generation 1.\<close>

definition created_object :: "'a api_type \<Rightarrow> string \<Rightarrow> time \<Rightarrow> object_meta \<Rightarrow> 'a \<Rightarrow> mvcc \<Rightarrow> mvcc \<Rightarrow> bool" where
  "created_object T uuid now meta v db db' \<longleftrightarrow> (\<exists>obj name k.
     at_meta T obj = Some ((apply_uid uuid now meta)\<lparr>om_name := Some name\<rparr>) \<and>
     (case om_name meta of Some n \<Rightarrow> name = n | None \<Rightarrow> \<exists>base sample. om_generate_name meta = Some base \<and> name = base @ sample) \<and>
     create_key (at_descriptor T) (om_namespace meta) name = Inr k \<and> mv_find db k = None \<and>
     (\<forall>k'. mv_find db' k' = (if k' = k then Some (fresh_kv k (rt_encode (at_resource T) obj) (mv_revision db + 1)) else mv_find db k')) \<and>
     v = apply_revision (at_resource T) \<lparr>cd_data = obj, cd_revision = mv_revision db + 1\<rparr>)"

lemma apply_uid_simps [simp]:
  "om_name (apply_uid uuid now meta) = om_name meta" "om_generate_name (apply_uid uuid now meta) = om_generate_name meta"
  "om_namespace (apply_uid uuid now meta) = om_namespace meta"
  by (simp_all add: apply_uid_def)

context etcd_client
begin

lemma read_revision_bounds:
  assumes "evolves (database s) db" and "mv_find db k = Some kv"
  shows "0 < kv_mod_revision kv \<and> kv_mod_revision kv \<le> mv_revision db"
  using assms evolved_ok [OF assms(1)] lookup_kv_key [OF assms(2)] by (force simp: mvcc_ok_def)

text \<open>
  A successful write that expects the revision of an earlier read, or one known before it, finds the
  entry that was read.
\<close>

lemma written_over_read:
  assumes ev: "evolves (database s) db1" and kv: "mv_find db1 k = Some kv" and ev2: "evolves db1 db2"
    and e: "mod_revision_of db2 k = e" and bounds: "e = kv_mod_revision kv \<or> (0 < e \<and> e \<le> mv_revision db1)"
  shows "mv_find db2 k = Some kv \<and> e = kv_mod_revision kv"
proof -
  have ok: "mvcc_ok db1" using ev by (rule evolved_ok)
  have b: "0 < kv_mod_revision kv" "kv_mod_revision kv \<le> mv_revision db1" using read_revision_bounds [OF ev kv] by auto
  have "mod_revision_of db1 k = e"
    using stale_stays_stale [OF ev2 ok, of e k] e bounds b by (auto simp: mod_revision_of_def kv)
  then have e': "e = kv_mod_revision kv" by (simp add: mod_revision_of_def kv)
  then obtain kv2 where kv2: "mv_find db2 k = Some kv2" "kv_mod_revision kv2 = kv_mod_revision kv"
    using e b by (auto simp: mod_revision_of_def split: option.splits)
  have "mv_find db1 k = Some kv2"
    by (rule evolves_same_revision [OF ev2 ok b(2) kv2])
  then show ?thesis using kv kv2(1) e' by simp
qed

lemma read_modify_write:
  assumes get: "get E (at_resource T) ns n s = (Inr (Some c), s1)" and new: "f (apply_revision (at_resource T) c) = Inr new"
    and wr: "put_if_changed E T (apply_revision (at_resource T) c) new wrap s1 = (Inr (wrap v), s')" and "inj wrap"
    and key: "create_key (at_descriptor T) ns n = Inr k"
    and field: "meta_field (at_resource T)" and keeps: "keeps_identity T (mv_revision (database s)) f"
    and own: "own_key (at_resource T) k (cd_data c)"
    and i64: "mv_revision (database s') \<le> i64_max"
  shows "\<exists>db db'. evolves (database s) db \<and> atomic_update T k f v db db' \<and> evolves db' (database s')"
proof -
  let ?R = "at_resource T"
  obtain db1 kv where db1: "evolves (database s) db1" "mv_find db1 k = Some kv" "deserialize ?R (kv_value kv) = Inr (cd_data c)"
      "kv_mod_revision kv = cd_revision c" "evolves db1 (database s1)"
    using get_takes_effect [OF get] key by auto
  define current where "current = apply_revision ?R c"
  have c: "c = \<lparr>cd_data = cd_data c, cd_revision = kv_mod_revision kv\<rparr>" using db1(4) by simp
  note new = new [folded current_def] and wr = wr [folded current_def]
  show ?thesis
  proof (cases "new = current")
    case True
    then have "v = new" "s1 = s'" using wr injD [OF \<open>inj wrap\<close>] by (auto simp: put_if_changed_def)
    moreover have "atomic_update T k f new db1 db1"
      unfolding atomic_update_def using True db1(2,3) new c current_def by metis
    ultimately show ?thesis using db1(1,5) by blast
  next
    case False
    then obtain d where put: "put E ?R new s1 = (Inr d, s')" and v: "v = apply_revision ?R d"
      using wr injD [OF \<open>inj wrap\<close>] by (auto simp: put_if_changed_def try_store_def split: prod.splits sum.splits)
    obtain q db2 db' where d: "cd_data d = new" and q: "prepare_put_inner ?R new = Inr q"
      and ev: "evolves (database s1) db2" "evolves db' (database s')" "evolves db2 db'"
      and eff: "put_many_effect [q] (Inr (cd_revision d)) db2 db'"
      using put_takes_effect [OF put] by blast
    have db12: "evolves db1 db2" using ev(1) db1(5) by (rule evolves_trans)
    have "evolves db1 (database s')" using db12 ev(2,3) evolves_trans by blast
    then have rev: "0 < cd_revision c" "cd_revision c \<le> i64_max"
      using read_revision_bounds [OF db1(1,2)] evolves_revision [of db1 "database s'"] i64 db1(4) by simp_all
    have key_version: "pr_key q = k \<and> pr_bytes q = rt_encode ?R new \<and>
        (\<exists>e. pr_expected_revision q = Some e \<and> (e = kv_mod_revision kv \<or> (0 < e \<and> e \<le> mv_revision db1)))"
      using identity_request [OF field refl keeps new [unfolded current_def] own q] rev evolves_revision [OF db1(1)]
      by (auto simp: db1(4))
    then obtain e where e: "pr_expected_revision q = Some e" "e = kv_mod_revision kv \<or> (0 < e \<and> e \<le> mv_revision db1)"
      and kq: "pr_key q = k" "pr_bytes q = rt_encode ?R new" by blast
    have over: "mv_find db2 k = Some kv"
      using written_over_read [OF db1(1,2) db12 _ e(2)] eff e(1) kq by (simp add: put_many_effect_def)
    have d': "d = \<lparr>cd_data = new, cd_revision = mv_revision db2 + 1\<rparr>" "mv_revision db' = mv_revision db2 + 1"
        "\<forall>k'. mv_find db' k' = (if k' = k then Some (updated_kv (Some kv) k (rt_encode ?R new) (mv_revision db2 + 1)) else mv_find db2 k')"
      using eff d kq over by (simp_all add: put_many_effect_def)
    have current: "current = apply_revision ?R \<lparr>cd_data = cd_data c, cd_revision = kv_mod_revision kv\<rparr>"
      using c current_def by simp
    have "atomic_update T k f v db2 db'"
      unfolding v d'(1)
      by (rule atomic_update_changed [where f = f, OF over db1(3)])
        (use new False d'(2,3) in \<open>simp_all flip: current\<close>)
    then show ?thesis using ev(2) db1(1) db12 evolves_trans by blast
  qed
qed

lemma update_takes_effect:
  assumes call: "update_resource E T ns n f s = (Inr (Updated v), s')"
    and "create_key (at_descriptor T) ns n = Inr k"
    and "meta_field (at_resource T)" and "keeps_identity T (mv_revision (database s)) f"
    and own: "read_own_key E T ns n k s"
    and "mv_revision (database s') \<le> i64_max"
  shows "\<exists>db db'. evolves (database s) db \<and> atomic_update T k f v db db' \<and> evolves db' (database s')"
proof -
  let ?R = "at_resource T"
  obtain c s1 where get: "get E ?R ns n s = (Inr (Some c), s1)"
    and rest: "try_pure (f (apply_revision ?R c)) (\<lambda>new. put_if_changed E T (apply_revision ?R c) new Updated) s1 = (Inr (Updated v), s')"
    using call by (auto simp: update_resource_def with_current_def try_store_def split: prod.splits sum.splits option.splits)
  obtain new where "f (apply_revision ?R c) = Inr new"
    and "put_if_changed E T (apply_revision ?R c) new Updated s1 = (Inr (Updated v), s')"
    using rest by (auto simp: try_pure_def split: sum.splits)
  moreover have "inj Updated" by (simp add: inj_def)
  ultimately show ?thesis
    using read_modify_write [OF get] assms(2-4,6) own [unfolded read_own_key_def, rule_format, OF get] by blast
qed

lemma delete_takes_effect:
  assumes "delete E R ns n s = (Inr (Some c), s')" and "create_key (rt_descriptor R) ns n = Inr k"
  shows "\<exists>db db' kv. evolves (database s) db \<and> mv_find db k = Some kv \<and> deserialize R (kv_value kv) = Inr (cd_data c) \<and>
    (\<forall>k'. mv_find db' k' = (if k' = k then None else mv_find db k')) \<and> evolves db' (database s')"
proof -
  obtain prev where prev: "et_delete E k s = (Inr prev, s')" "first_content (deserialize R) prev = Inr (Some c)"
    using assms by (auto simp: delete_def split: sum.splits prod.splits)
  obtain db db' where db: "evolves (database s) db" "mvcc_delete k db = (prev, db')" "evolves db' (database s')"
    using delete_ok [OF prev(1)] by blast
  have "mv_find db' k' = (if k' = k then None else mv_find db k')" for k'
    using db(2) by (auto simp: mvcc_delete_def mvcc_txn_def lookup_delete_kv Let_def split: if_splits)
  moreover obtain kv where "mv_find db k = Some kv" "deserialize R (kv_value kv) = Inr (cd_data c)"
    using db(2) prev(2)
    by (auto simp: mvcc_delete_def option_list_def first_content_def split: option.splits sum.splits)
  ultimately show ?thesis using db(1,3) by blast
qed

lemma put_if_not_exists_evolves:
  "put_if_not_exists E R v s = (r, s') \<Longrightarrow> evolves (database s) (database s')"
proof -
  assume "put_if_not_exists E R v s = (r, s')"
  then consider "s' = s" | cs th el t where "et_txn E cs th el s = (t, s')"
    by (auto simp: put_if_not_exists_def split: option.splits sum.splits prod.splits if_splits)
  then show ?thesis
  proof cases
    case (2 cs th el t)
    then show ?thesis
    proof (cases t)
      case (Inr x)
      then obtain db db' where "evolves (database s) db" "mvcc_txn cs th el db = (x, db')" "evolves db' (database s')"
        using txn_ok 2 by blast
      then show ?thesis using evolves_txn evolves_trans by blast
    qed (use 2 txn_failed in blast)
  qed auto
qed

lemma create_effect:
  assumes put: "put_if_not_exists E (at_resource T) (at_set_meta T (Some ((apply_uid uuid now meta)\<lparr>om_name := Some name\<rparr>)) object) s =
      (Inr (Some c), s')" and field: "meta_field (at_resource T)"
    and name: "case om_name meta of Some n \<Rightarrow> name = n | None \<Rightarrow> \<exists>base sample. om_generate_name meta = Some base \<and> name = base @ sample"
  shows "\<exists>db db'. evolves (database s) db \<and> created_object T uuid now meta (apply_revision (at_resource T) c) db db' \<and>
    evolves db' (database s')"
proof -
  let ?obj = "at_set_meta T (Some ((apply_uid uuid now meta)\<lparr>om_name := Some name\<rparr>)) object"
  have meta: "at_meta T ?obj = Some ((apply_uid uuid now meta)\<lparr>om_name := Some name\<rparr>)"
    using field by (simp add: meta_field_def)
  obtain k db db' where k: "create_key (at_descriptor T) (om_namespace meta) name = Inr k"
    and ev: "evolves (database s) db" "evolves db' (database s')" and free: "mv_find db k = None"
    and c: "c = \<lparr>cd_data = ?obj, cd_revision = mv_revision db + 1\<rparr>"
    and eff: "\<forall>k'. mv_find db' k' = (if k' = k then Some (fresh_kv k (rt_encode (at_resource T) ?obj) (mv_revision db + 1)) else mv_find db k')"
    using put_if_not_exists_takes_effect [OF put] meta by (auto simp: apply_uid_def)
  have "created_object T uuid now meta (apply_revision (at_resource T) c) db db'"
    unfolding created_object_def using meta name k free eff c by blast
  then show ?thesis using ev by blast
qed

lemma create_generated_effect:
  assumes "create_generated E T (apply_uid uuid now meta) base object samples s = (Inr (Created v), s')"
    and "meta_field (at_resource T)" and "om_name meta = None" "om_generate_name meta = Some base"
  shows "\<exists>db db'. evolves (database s) db \<and> created_object T uuid now meta v db db' \<and> evolves db' (database s')"
  using assms(1)
proof (induction samples arbitrary: s)
  case (Cons sample samples)
  let ?obj = "at_set_meta T (Some ((apply_uid uuid now meta)\<lparr>om_name := Some (base @ sample)\<rparr>)) object"
  obtain r s1 where put: "put_if_not_exists E (at_resource T) ?obj s = (Inr r, s1)"
    using Cons.prems by (auto simp: generate_def try_store_def split: prod.splits sum.splits)
  show ?case
  proof (cases r)
    case None
    then have "create_generated E T (apply_uid uuid now meta) base object samples s1 = (Inr (Created v), s')"
      using Cons.prems put by (simp add: generate_def try_store_def)
    then show ?thesis using Cons.IH evolves_trans put_if_not_exists_evolves [OF put] by blast
  next
    case (Some c)
    then have "v = apply_revision (at_resource T) c" "s1 = s'"
      using Cons.prems put by (simp_all add: generate_def try_store_def)
    then show ?thesis using create_effect [OF put [unfolded Some] assms(2)] assms(3,4) by auto
  qed
qed simp

lemma create_object_effect:
  assumes call: "create_object E T uuid now samples meta object s = (Inr (Created v), s')" and field: "meta_field (at_resource T)"
  shows "\<exists>db db'. evolves (database s) db \<and> created_object T uuid now meta v db db' \<and> evolves db' (database s')"
proof (cases "om_name meta")
  case None
  then show ?thesis
    using call create_generated_effect [OF _ field None] by (auto simp: create_object_def Let_def split: option.splits)
next
  case (Some n)
  let ?obj = "at_set_meta T (Some ((apply_uid uuid now meta)\<lparr>om_name := Some n\<rparr>)) (at_set_type_meta T (type_meta_of (at_descriptor T)) object)"
  have same: "(apply_uid uuid now meta)\<lparr>om_name := Some n\<rparr> = apply_uid uuid now meta"
    using Some by (simp add: apply_uid_def)
  obtain c where "put_if_not_exists E (at_resource T) ?obj s = (Inr (Some c), s')" "v = apply_revision (at_resource T) c"
    unfolding same using call Some
    by (auto simp: create_object_def try_store_def Let_def split: prod.splits sum.splits option.splits)
  then show ?thesis using create_effect [where uuid = uuid and now = now and meta = meta and name = n, OF _ field] Some by auto
qed

end

section \<open>What updates keep\<close>

definition known_version :: "int \<Rightarrow> string option \<Rightarrow> bool" where
  "known_version known w = (case Option.bind w parse_i64 of None \<Rightarrow> False | Some r \<Rightarrow> 0 < r \<and> r \<le> known)"

lemma enforce_metadata_meta:
  assumes "meta_field (at_resource T)" and "at_meta T current = Some cm"
    and "at_meta T (enforce_metadata T current options pm changed upd) = Some nm"
  shows "\<exists>um. at_meta T upd = Some um \<and> nm = enforced_meta options cm pm changed um"
  using assms by (cases "at_meta T upd") (auto simp: enforce_metadata_def meta_field_def)

lemma enforced_identity:
  "om_name (enforced_meta options cm pm changed um) = om_name cm"
  "om_namespace (enforced_meta options cm pm changed um) = om_namespace cm"
  "om_uid (enforced_meta options cm pm changed um) = om_uid cm"
  "om_creation_timestamp (enforced_meta options cm pm changed um) = om_creation_timestamp cm"
  "om_deletion_timestamp (enforced_meta options cm pm changed um) = om_deletion_timestamp cm"
  by (simp_all add: enforced_meta_def)

lemma enforced_version:
  assumes "ro_use_client_resource_version options \<longrightarrow> known_version known (client_version pm)"
  shows "om_resource_version (enforced_meta options cm pm changed um) = om_resource_version cm \<or>
    (\<exists>w r. om_resource_version (enforced_meta options cm pm changed um) = Some w \<and> parse_i64 w = Some r \<and> 0 < r \<and> r \<le> known)"
  using assms by (auto simp: enforced_meta_def known_version_def bind_eq_Some_conv split: option.splits)

text \<open>The three update functions end by enforcing the metadata.\<close>

lemma try_result_Inr: "try_result r f = Inr v \<longleftrightarrow> (\<exists>x. r = Inr x \<and> f x = Inr v)"
  by (cases r) (auto simp: try_result_def)

lemma json_result_Inr: "json_result r = Inr v \<longleftrightarrow> r = Inr v"
  by (cases r) (auto simp: json_result_def)

lemma to_object_Inr: "to_object v ctx = Inr m \<longleftrightarrow> v = JObject m"
  by (cases v) (auto simp: to_object_def)

lemmas update_Inr = try_result_Inr json_result_Inr to_object_Inr

lemma apply_patch_Inr:
  "apply_patch T current options patch = Inr new \<longleftrightarrow>
     (\<exists>obj merged upd. at_to_json T current = Inr (JObject obj) \<and> merged = merge_entries obj patch \<and>
       at_from_json T (JObject (patched_object options obj merged)) = Inr upd \<and>
       new = enforce_metadata T current options (obj_get patch ''metadata'') (generation_tracked_fields_changed obj merged) upd)"
  by (auto simp: apply_patch_def update_Inr)

lemma apply_replacement_Inr:
  "apply_replacement T current options replacement = Inr new \<longleftrightarrow>
     (\<exists>obj robj new_obj upd. at_to_json T current = Inr (JObject obj) \<and> at_to_json T replacement = Inr (JObject robj) \<and>
       new_obj = replaced_object options obj robj \<and> at_from_json T (JObject new_obj) = Inr upd \<and>
       new = enforce_metadata T current options (obj_get robj ''metadata'')
         (generation_tracked_fields obj \<noteq> generation_tracked_fields new_obj) upd)"
  by (auto simp: apply_replacement_def update_Inr Let_def)

lemma apply_status_update_Inr:
  "apply_status_update T current options status = Inr new \<longleftrightarrow>
     (\<exists>obj upd. at_to_json T current = Inr (JObject obj) \<and>
       at_from_json T (JObject (obj_insert ''status'' status obj)) = Inr upd \<and>
       new = enforce_metadata T current options None False upd)"
  by (auto simp: apply_status_update_def update_Inr)

lemma keeps_identityI:
  assumes field: "meta_field (at_resource T)"
    and "\<And>current new. f current = Inr new \<Longrightarrow> \<exists>pm changed upd. new = enforce_metadata T current options pm changed upd \<and>
      (ro_use_client_resource_version options \<longrightarrow> known_version known (client_version pm))"
  shows "keeps_identity T known f"
  unfolding keeps_identity_def
proof (intro allI impI)
  fix current new cm nm assume f: "f current = Inr new" and cm: "at_meta T current = Some cm" and nm: "at_meta T new = Some nm"
  obtain pm changed upd where new: "new = enforce_metadata T current options pm changed upd"
    and version: "ro_use_client_resource_version options \<longrightarrow> known_version known (client_version pm)"
    using assms(2) [OF f] by blast
  obtain um where "nm = enforced_meta options cm pm changed um"
    using enforce_metadata_meta [OF field cm nm [unfolded new]] by blast
  then show "om_name nm = om_name cm \<and> om_namespace nm = om_namespace cm \<and>
     (om_resource_version nm = om_resource_version cm \<or>
      (\<exists>w r. om_resource_version nm = Some w \<and> parse_i64 w = Some r \<and> 0 < r \<and> r \<le> known))"
    using enforced_identity(1,2) [of options cm pm changed um] enforced_version [OF version, of cm changed um] by simp
qed

lemma patch_keeps_identity:
  assumes "meta_field (at_resource T)"
    and "ro_use_client_resource_version options \<longrightarrow> known_version known (client_version (obj_get patch ''metadata''))"
  shows "keeps_identity T known (\<lambda>current. validated check (apply_patch T current options patch))"
  by (rule keeps_identityI [OF assms(1), where options = options]) (use assms(2) in \<open>auto simp: validated_Inr apply_patch_Inr\<close>)

lemma replacement_keeps_identity:
  assumes "meta_field (at_resource T)"
    and "ro_use_client_resource_version options \<longrightarrow>
      (\<exists>robj. at_to_json T replacement = Inr (JObject robj) \<and> known_version known (client_version (obj_get robj ''metadata'')))"
  shows "keeps_identity T known (\<lambda>current. try_result (validate_resource_name T replacement n) (\<lambda>_.
    validated check (apply_replacement T current options replacement)))"
  by (rule keeps_identityI [OF assms(1), where options = options])
    (use assms(2) in \<open>auto simp: validated_Inr try_result_Inr apply_replacement_Inr, blast+\<close>)

lemma status_update_keeps_identity:
  assumes "meta_field (at_resource T)"
  shows "keeps_identity T known (\<lambda>current. try_result (json_result (at_to_json T replacement)) (\<lambda>v.
    validated check (apply_status_update T current replace_options_default (unwrap_or JNull (value_get ''status'' v)))))"
  by (rule keeps_identityI [OF assms, where options = replace_options_default])
    (auto simp: validated_Inr update_Inr apply_status_update_Inr replace_options_default_def)

end
