(* ===== verification/Store_Correct.thy ===== *)
theory Store_Correct
  imports Store
begin

text \<open>
  The properties of the store: its keys separate the kinds and the namespaces, its writes are atomic
  and versioned, and its reads are snapshots.  The hypothesis \<open>etcd_client E database\<close> is the
  documented behaviour of etcd; the witnesses have the local client of \<^verbatim>\<open>Etcd\<close>.
\<close>

section \<open>Keys\<close>

lemma segment_eq:
  "CHR ''/'' \<notin> set a \<Longrightarrow> CHR ''/'' \<notin> set b \<Longrightarrow> a @ ''/'' @ x = b @ ''/'' @ y \<longleftrightarrow> a = b \<and> x = y"
proof (induction a arbitrary: b)
  case Nil
  then show ?case by (cases b) auto
next
  case (Cons c a)
  then show ?case by (cases b) auto
qed

lemma segment_prefix:
  "CHR ''/'' \<notin> set a \<Longrightarrow> CHR ''/'' \<notin> set b \<Longrightarrow>
   has_prefix (a @ ''/'' @ x) (b @ ''/'' @ y) \<longleftrightarrow> a = b \<and> has_prefix x y"
proof (induction a arbitrary: b)
  case Nil
  then show ?case by (cases b) (auto simp: has_prefix_def)
next
  case (Cons c a)
  then show ?case by (cases b) (auto simp: has_prefix_def)
qed

lemma segment_prefix_last:
  "CHR ''/'' \<notin> set a \<Longrightarrow> CHR ''/'' \<notin> set b \<Longrightarrow> has_prefix (a @ ''/'') (b @ ''/'' @ y) \<longleftrightarrow> a = b"
  using segment_prefix [of a b "[]" y] by (simp add: has_prefix_def)

lemma has_prefix_append [simp]: "has_prefix (p @ a) (p @ b) \<longleftrightarrow> has_prefix a b" "has_prefix [] b"
  by (simp_all add: has_prefix_def)

lemma descriptors_distinct:
  "distinct (map (\<lambda>d. (rd_group d, rd_plural d)) all_resource_descriptors)"
  by code_simp

lemma descriptors_inj:
  "d \<in> set all_resource_descriptors \<Longrightarrow> d' \<in> set all_resource_descriptors \<Longrightarrow>
   rd_group d = rd_group d' \<Longrightarrow> rd_plural d = rd_plural d' \<Longrightarrow> d = d'"
  using descriptors_distinct by (auto simp: distinct_map dest!: inj_onD)

lemma descriptors_segments:
  "list_all (\<lambda>d. CHR ''/'' \<notin> set (rd_group d) \<and> CHR ''/'' \<notin> set (rd_plural d)) all_resource_descriptors"
  by code_simp

lemma kind_prefix:
  assumes "d \<in> set all_resource_descriptors" "d' \<in> set all_resource_descriptors"
  shows "has_prefix (base_path @ ''/'' @ rd_group d' @ ''/'' @ rd_plural d' @ ''/'' @ x)
      (base_path @ ''/'' @ rd_group d @ ''/'' @ rd_plural d @ ''/'' @ y) \<longleftrightarrow> d' = d \<and> has_prefix x y"
proof -
  have seg: "CHR ''/'' \<notin> set (rd_group d)" "CHR ''/'' \<notin> set (rd_plural d)"
    "CHR ''/'' \<notin> set (rd_group d')" "CHR ''/'' \<notin> set (rd_plural d')"
    using descriptors_segments assms by (auto simp: list_all_iff)
  have "has_prefix (base_path @ ''/'' @ rd_group d' @ ''/'' @ rd_plural d' @ ''/'' @ x)
      (base_path @ ''/'' @ rd_group d @ ''/'' @ rd_plural d @ ''/'' @ y) \<longleftrightarrow>
    rd_group d' = rd_group d \<and> rd_plural d' = rd_plural d \<and> has_prefix x y"
    by (simp only: has_prefix_append segment_prefix [OF seg(3) seg(1)] segment_prefix [OF seg(4) seg(2)])
  then show ?thesis using descriptors_inj [OF assms] by metis
qed

text \<open>
  C26: The store's keys separate kinds and namespaces: for objects of two kinds of the resource table,
  with names and namespaces without a slash, equal keys are keys of the same kind, name and
  (for a namespaced kind) namespace; the prefix under which a kind is listed and watched holds of the
  keys of that kind only, and the prefix of a namespace only of the keys of that namespace.
\<close>

theorem store_keys_separate:
  assumes kinds: "d \<in> set all_resource_descriptors" "d' \<in> set all_resource_descriptors"
    and key: "create_key d (Some ns) n = Inr k" and key': "create_key d' (Some ns') n' = Inr k'"
    and seg: "CHR ''/'' \<notin> set ns" "CHR ''/'' \<notin> set n" "CHR ''/'' \<notin> set ns'" "CHR ''/'' \<notin> set n'"
  shows "(k = k' \<longleftrightarrow> d = d' \<and> n = n' \<and> (rd_scope d = Namespaced \<longrightarrow> ns = ns')) \<and>
    (has_prefix (create_watch_key d' None) k \<longleftrightarrow> d = d') \<and>
    (rd_scope d' = Namespaced \<longrightarrow> (has_prefix (create_watch_key d' (Some ns')) k \<longleftrightarrow> d = d' \<and> ns = ns'))"
proof -
  let ?rest = "\<lambda>d ns n. if rd_scope d = Cluster then n else ns @ ''/'' @ n"
  have k: "k = base_path @ ''/'' @ rd_group d @ ''/'' @ rd_plural d @ ''/'' @ ?rest d ns n"
    and k': "k' = base_path @ ''/'' @ rd_group d' @ ''/'' @ rd_plural d' @ ''/'' @ ?rest d' ns' n'"
    using key key' by (auto simp: create_key_def is_cluster_scoped_def split: if_splits)
  have refl: "has_prefix x x" for x by (simp add: has_prefix_def)
  have kk: "d = d'" if "k = k'" using kind_prefix [OF kinds] refl [of k] that k k' by metis
  have 1: "k = k' \<longleftrightarrow> d = d' \<and> n = n' \<and> (rd_scope d = Namespaced \<longrightarrow> ns = ns')"
  proof
    assume "k = k'"
    then have d: "d = d'" by (rule kk)
    then have "?rest d ns n = ?rest d ns' n'" using \<open>k = k'\<close> k k' by simp
    then show "d = d' \<and> n = n' \<and> (rd_scope d = Namespaced \<longrightarrow> ns = ns')"
      using d segment_eq [OF seg(1) seg(3)] by (cases "rd_scope d") auto
  next
    assume "d = d' \<and> n = n' \<and> (rd_scope d = Namespaced \<longrightarrow> ns = ns')"
    then show "k = k'" using k k' by (cases "rd_scope d") auto
  qed
  have 2: "has_prefix (create_watch_key d' None) k \<longleftrightarrow> d = d'"
    using kind_prefix [OF kinds, of "[]" "?rest d ns n"] k by (auto simp: create_watch_key_def)
  have 3: "has_prefix (create_watch_key d' (Some ns')) k \<longleftrightarrow> d = d' \<and> ns = ns'" if "rd_scope d' = Namespaced"
    using kind_prefix [OF kinds, of "ns' @ ''/''" "?rest d ns n"] segment_prefix_last [OF seg(3) seg(1), of n] k that
    by (auto simp: create_watch_key_def)
  show ?thesis using 1 2 3 by blast
qed

theorem store_keys_separate_witness:
  "has_prefix (create_watch_key ship_descriptor (Some ''a'')) (base_path @ ''/core/ships/ab/x'') \<longleftrightarrow> False"
proof -
  have m: "ship_descriptor \<in> set all_resource_descriptors" by (simp add: all_resource_descriptors_def)
  have k: "create_key ship_descriptor (Some ''ab'') ''x'' = Inr (base_path @ ''/core/ships/ab/x'')"
    "create_key ship_descriptor (Some ''a'') ''x'' = Inr (base_path @ ''/core/ships/a/x'')"
    by (simp_all add: create_key_def ship_descriptor_def is_cluster_scoped_def)
  have "rd_scope ship_descriptor = Namespaced" by (simp add: ship_descriptor_def)
  then show ?thesis using store_keys_separate [OF m m k] by simp
qed

section \<open>Writes and reads\<close>

text \<open>A kind whose objects are their metadata, and two writes of such an object.\<close>

definition example_object :: "string option \<Rightarrow> object_meta" where
  "example_object rv = object_meta_default\<lparr>om_name := Some ''x'', om_resource_version := rv\<rparr>"

definition example_type :: "object_meta resource_type" where
  "example_type = \<lparr>rt_descriptor = namespace_descriptor, rt_meta = Some, rt_set_meta = (\<lambda>m v. unwrap_or v m),
     rt_encode = (\<lambda>v. unwrap_or [] (om_resource_version v)),
     rt_decode = (\<lambda>b. Some (example_object (if b = [] then None else Some b)))\<rparr>"

definition example_key :: string where
  "example_key = ''/tugboat/registry/core/namespaces/x''"

lemma example_prepare:
  "prepare_put_inner example_type (example_object None) = Inr \<lparr>pr_key = example_key, pr_bytes = [], pr_expected_revision = None\<rparr>"
  "prepare_put_inner example_type (example_object (Some ''2'')) =
     Inr \<lparr>pr_key = example_key, pr_bytes = ''2'', pr_expected_revision = Some 2\<rparr>"
proof -
  have "parse_i64 ''2'' = Some 2" by code_simp
  moreover have "is_supported (type_meta_of namespace_descriptor)"
    by (simp add: is_supported_def type_meta_of_def namespace_descriptor_def)
  moreover have "create_key namespace_descriptor None ''x'' = Inr example_key"
    by (simp add: create_key_def namespace_descriptor_def is_cluster_scoped_def base_path_def example_key_def)
  ultimately show "prepare_put_inner example_type (example_object None) =
      Inr \<lparr>pr_key = example_key, pr_bytes = [], pr_expected_revision = None\<rparr>"
    and "prepare_put_inner example_type (example_object (Some ''2'')) =
      Inr \<lparr>pr_key = example_key, pr_bytes = ''2'', pr_expected_revision = Some 2\<rparr>"
    by (simp_all add: prepare_put_inner_def example_type_def example_object_def object_meta_default_def serialize_def)
qed

definition created :: mvcc_db where
  "created = db_txn [] [OpPut example_key []] [] db_empty"

definition updated :: mvcc_db where
  "updated = db_txn [ModRevisionEq example_key 2] [OpPut example_key ''2''] [OpGet example_key] created"

lemma Rep_created: "Rep_mvcc_db created = \<lparr>mv_kvs = [fresh_kv example_key [] 2], mv_revision = 2\<rparr>"
  by (simp add: created_def Rep_db_txn db_empty.rep_eq mv_empty_def mvcc_txn_def)

lemma Rep_updated: "Rep_mvcc_db updated = \<lparr>mv_kvs = [(fresh_kv example_key ''2'' 2)\<lparr>kv_mod_revision := 3, kv_version := 2\<rparr>],
    mv_revision = 3\<rparr>"
  by (simp add: updated_def Rep_db_txn Rep_created mvcc_txn_def mod_revision_of_def fresh_kv_def)

lemma example_puts:
  "put local_etcd example_type (example_object None) db_empty =
     (Inr \<lparr>cd_data = example_object None, cd_revision = 2\<rparr>, created)"
  "put local_etcd example_type (example_object (Some ''2'')) created =
     (Inr \<lparr>cd_data = example_object (Some ''2''), cd_revision = 3\<rparr>, updated)"
proof -
  show "put local_etcd example_type (example_object None) db_empty =
     (Inr \<lparr>cd_data = example_object None, cd_revision = 2\<rparr>, created)"
    by (simp add: put_def example_prepare put_many_def local_etcd_def created_def db_empty.rep_eq mv_empty_def mvcc_txn_def)
  show "put local_etcd example_type (example_object (Some ''2'')) created =
     (Inr \<lparr>cd_data = example_object (Some ''2''), cd_revision = 3\<rparr>, updated)"
    by (simp add: put_def example_prepare put_many_def local_etcd_def updated_def Rep_created mvcc_txn_def
        mod_revision_of_def fresh_kv_def)
qed



text \<open>
  C22: No update is lost: of two writes of an object with the same resource version, only the first
  succeeds, whatever other clients do between them.
\<close>

theorem optimistic_lock_once:
  assumes "etcd_client E database" and "put E T v s1 = (Inr c, s2)" and "evolves (database s2) (database s3)"
    and "prepare_put_inner T v = Inr q1" "pr_expected_revision q1 = Some r" "0 < r"
    and "prepare_put_inner T w = Inr q2" "pr_key q2 = pr_key q1" "pr_expected_revision q2 = Some r"
  shows "\<exists>e s4. put E T w s3 = (Inl e, s4)"
  using assms by (rule etcd_client.put_same_version_once)

theorem optimistic_lock_once_witness:
  "\<exists>e s. put local_etcd example_type (example_object (Some ''2'')) updated = (Inl e, s)"
  using optimistic_lock_once [OF local_client.etcd_client_axioms example_puts(2) evolves_refl example_prepare(2) _ _ example_prepare(2)]
  by simp

text \<open>
  C23: A read that returns the revision of a write returns the object that was written, whatever other
  clients did in between, provided that the encoding of the object decodes to it.
\<close>

theorem read_returns_written:
  assumes "etcd_client E database" and "put E T v s1 = (Inr c, s2)" and "evolves (database s2) (database s3)"
    and "get E T ns n s3 = (Inr (Some d), s4)" and "prepare_put_inner T v = Inr q"
    and "create_key (rt_descriptor T) ns n = Inr (pr_key q)"
    and "cd_revision d = cd_revision c" and "rt_decode T (rt_encode T v) = Some v"
  shows "cd_data d = v"
  using assms by (rule etcd_client.read_of_written_revision)

theorem read_returns_written_witness:
  "\<exists>d s. get local_etcd example_type None ''x'' updated = (Inr (Some d), s) \<and> cd_data d = example_object (Some ''2'')"
proof -
  have k: "create_key (rt_descriptor example_type) None ''x'' = Inr example_key"
    by (simp add: create_key_def example_type_def namespace_descriptor_def is_cluster_scoped_def base_path_def example_key_def)
  have "is_supported (type_meta_of (rt_descriptor example_type))"
    by (simp add: is_supported_def type_meta_of_def example_type_def namespace_descriptor_def)
  then obtain d where g: "get local_etcd example_type None ''x'' updated = (Inr (Some d), updated)" "cd_revision d = 3"
    using k by (simp add: get_def local_etcd_def Rep_updated mvcc_get_def option_list_def first_content_def
        deserialize_def fresh_kv_def) (simp add: example_type_def)
  then have "cd_data d = example_object (Some ''2'')"
    using read_returns_written [OF local_client.etcd_client_axioms example_puts(2) evolves_refl g(1) example_prepare(2)] k
    by (simp add: example_type_def example_object_def)
  then show ?thesis using g(1) by blast
qed

text \<open>
  Creation is exclusive: \<^verbatim>\<open>put_if_not_exists\<close> returns an object exactly when, at the moment of the
  transaction, the key was free; then the object is stored at the revision it returns and nothing
  else changes.  Otherwise nothing changes at all.
\<close>

theorem create_is_exclusive:
  assumes "etcd_client E database" and "put_if_not_exists E T v s = (Inr res, s')"
  shows "\<exists>m n k db db'. rt_meta T v = Some m \<and> om_name m = Some n \<and> create_key (rt_descriptor T) (om_namespace m) n = Inr k \<and>
    evolves (database s) db \<and> evolves db' (database s') \<and>
    (case res of
       Some c \<Rightarrow> mv_find db k = None \<and> c = \<lparr>cd_data = v, cd_revision = mv_revision db + 1\<rparr> \<and>
         (\<forall>k'. mv_find db' k' = (if k' = k then Some (fresh_kv k (rt_encode T v) (mv_revision db + 1)) else mv_find db k'))
     | None \<Rightarrow> mv_find db k \<noteq> None \<and> db' = db)"
  using assms by (rule etcd_client.put_if_not_exists_takes_effect)

theorem create_is_exclusive_witness:
  "\<exists>db. evolves (Rep_mvcc_db created) db \<and> mv_find db example_key \<noteq> None"
proof -
  have k: "create_key namespace_descriptor None ''x'' = Inr example_key"
    by (simp add: create_key_def namespace_descriptor_def is_cluster_scoped_def base_path_def example_key_def)
  have "is_supported (type_meta_of namespace_descriptor)"
    by (simp add: is_supported_def type_meta_of_def namespace_descriptor_def)
  then have "put_if_not_exists local_etcd example_type (example_object None) created =
      (Inr None, db_txn [CreateRevisionEq example_key 0] [OpPut example_key []] [] created)"
    using k by (simp add: put_if_not_exists_def example_type_def example_object_def object_meta_default_def serialize_def
        local_etcd_def Rep_created mvcc_txn_def create_revision_of_def fresh_kv_def)
  from create_is_exclusive [OF local_client.etcd_client_axioms this] show ?thesis
    using k by (auto simp: example_type_def example_object_def object_meta_default_def)
qed

text \<open>
  A list is a snapshot: its objects are, in the order of the keys, the decoded values of all keys
  under the prefix of the kind at one revision, which it returns with them and which none exceeds.
\<close>

theorem list_is_snapshot:
  assumes "etcd_client E database" and "list_with_revision E T ns None s = (Inr (cs, r), s')"
  shows "\<exists>db. evolves (database s) db \<and> evolves db (database s') \<and> r = mv_revision db \<and>
    list_all2 (\<lambda>c kv. deserialize T (kv_value kv) = Inr (cd_data c) \<and> cd_revision c = kv_mod_revision kv) cs
      (filter (\<lambda>kv. has_prefix (create_watch_key (rt_descriptor T) ns) (kv_key kv)) (mv_kvs db)) \<and>
    (\<forall>c \<in> set cs. cd_revision c \<le> r)"
  using assms by (rule etcd_client.list_takes_effect)

theorem list_is_snapshot_witness:
  "\<exists>db. evolves (Rep_mvcc_db updated) db \<and> mv_revision db = 3 \<and>
     (\<exists>kv \<in> set (mv_kvs db). deserialize example_type (kv_value kv) = Inr (example_object (Some ''2'')))"
proof -
  have "is_supported (type_meta_of namespace_descriptor)"
    by (simp add: is_supported_def type_meta_of_def namespace_descriptor_def)
  moreover have "has_prefix (create_watch_key namespace_descriptor None) example_key"
    by (simp add: has_prefix_def create_watch_key_def namespace_descriptor_def base_path_def example_key_def)
  ultimately have "list_with_revision local_etcd example_type None None updated =
      (Inr ([\<lparr>cd_data = example_object (Some ''2''), cd_revision = 3\<rparr>], 3), updated)"
    by (simp add: list_with_revision_def local_etcd_def example_type_def Rep_updated mvcc_get_prefix_def deserialize_def
        fresh_kv_def)
  from list_is_snapshot [OF local_client.etcd_client_axioms this] obtain db
    where db: "evolves (Rep_mvcc_db updated) db" "3 = mv_revision db"
      and l: "list_all2 (\<lambda>c kv. deserialize example_type (kv_value kv) = Inr (cd_data c) \<and> cd_revision c = kv_mod_revision kv)
        [\<lparr>cd_data = example_object (Some ''2''), cd_revision = 3\<rparr>]
        (filter (\<lambda>kv. has_prefix (create_watch_key (rt_descriptor example_type) None) (kv_key kv)) (mv_kvs db))"
    by blast
  from l have "\<exists>kv \<in> set (mv_kvs db). deserialize example_type (kv_value kv) = Inr (example_object (Some ''2''))"
    by (auto simp: list_all2_Cons1 filter_eq_Cons_iff)
  then show ?thesis using db by auto
qed

end
