(* ===== verification/Api_Correct.thy ===== *)
theory Api_Correct
  imports Api_Effects Store_Correct
begin

text \<open>
  The properties of the resource handlers: updates are atomic, keep the identity of the object, its
  labels or all but its status; the generation; deletion with finalizers; creation.
\<close>

section \<open>Example\<close>

text \<open>A kind whose objects have a name, a resource version and a specification.\<close>

type_synonym example_resource = "object_meta option \<times> string"

definition example_resource_type :: "example_resource resource_type" where
  "example_resource_type = \<lparr>rt_descriptor = namespace_descriptor, rt_meta = fst, rt_set_meta = (\<lambda>m v. (m, snd v)),
     rt_encode = snd, rt_decode = (\<lambda>b. Some (Some (example_object None), b))\<rparr>"

definition example_to_json :: "example_resource \<Rightarrow> string + json" where
  "example_to_json v = Inr (JObject
     [(''metadata'', JObject ((''name'', JString ''x'') #
        (case Option.bind (fst v) om_resource_version of None \<Rightarrow> [] | Some w \<Rightarrow> [(''resourceVersion'', JString w)]))),
      (''spec'', JString (snd v))])"

definition example_from_json :: "json \<Rightarrow> string + example_resource" where
  "example_from_json v = (case pointer v [''spec''] of
     Some (JString sp) \<Rightarrow> Inr (Some (example_object None), sp)
   | _ \<Rightarrow> Inl ''missing field'')"

definition example_api :: "example_resource api_type" where
  "example_api = \<lparr>at_resource = example_resource_type, at_to_json = example_to_json, at_from_json = example_from_json,
     at_set_type_meta = (\<lambda>_ v. v), at_validate = (\<lambda>v. snd v \<noteq> [])\<rparr>"

definition example_time :: time where
  "example_time = \<lparr>t_seconds = 0, t_nanos = 0\<rparr>"

definition stored :: "string \<Rightarrow> mvcc_db" where
  "stored sp = db_txn [] [OpPut example_key sp] [] db_empty"

lemma Rep_stored: "Rep_mvcc_db (stored sp) = \<lparr>mv_kvs = [fresh_kv example_key sp 2], mv_revision = 2\<rparr>"
  by (simp add: stored_def Rep_db_txn db_empty.rep_eq mv_empty_def mvcc_txn_def)

lemma example_meta_field: "meta_field (at_resource example_api)"
  by (simp add: meta_field_def example_api_def example_resource_type_def)

lemma example_create_key: "create_key (at_descriptor example_api) None ''x'' = Inr example_key"
  by (simp add: create_key_def example_api_def example_resource_type_def namespace_descriptor_def is_cluster_scoped_def
    base_path_def example_key_def)

lemma example_supported: "is_supported (type_meta_of namespace_descriptor)"
  by (simp add: is_supported_def type_meta_of_def namespace_descriptor_def)

lemma example_get:
  "get local_etcd example_resource_type None ''x'' (stored sp) =
     (Inr (Some \<lparr>cd_data = (Some (example_object None), sp), cd_revision = 2\<rparr>), stored sp)"
  using example_create_key example_supported
  by (simp add: get_def local_etcd_def Rep_stored mvcc_get_def option_list_def first_content_def deserialize_def
    example_api_def example_resource_type_def fresh_kv_def)

lemma example_read_own_key: "read_own_key local_etcd example_api None ''x'' example_key (stored sp)"
  using example_create_key
  by (simp add: read_own_key_def example_api_def example_get own_key_def)
    (simp add: example_resource_type_def example_object_def object_meta_default_def)

definition example_options :: "bool \<Rightarrow> replace_options" where
  "example_options client = \<lparr>ro_preserve_status = True, ro_use_client_resource_version = client, ro_update_generation = True\<rparr>"

lemma example_put:
  "om_name m = Some ''x'' \<Longrightarrow> om_namespace m = None \<Longrightarrow> om_resource_version m = Some ''2'' \<Longrightarrow>
   put local_etcd example_resource_type (Some m, sp') (stored sp) =
     (Inr \<lparr>cd_data = (Some m, sp'), cd_revision = 3\<rparr>,
      db_txn [ModRevisionEq example_key 2] [OpPut example_key sp'] [OpGet example_key] (stored sp))"
proof -
  assume m: "om_name m = Some ''x''" "om_namespace m = None" "om_resource_version m = Some ''2''"
  have "parse_i64 ''2'' = Some 2" by code_simp
  then have "prepare_put_inner example_resource_type (Some m, sp') =
      Inr \<lparr>pr_key = example_key, pr_bytes = sp', pr_expected_revision = Some 2\<rparr>"
    using m example_create_key example_supported
    by (simp add: prepare_put_inner_def example_api_def example_resource_type_def serialize_def)
  then show ?thesis
    by (simp add: put_def put_many_def local_etcd_def Rep_stored mvcc_txn_def mod_revision_of_def fresh_kv_def)
qed

lemma example_current:
  "apply_revision example_resource_type \<lparr>cd_data = (Some (example_object None), sp), cd_revision = 2\<rparr> =
     (Some (example_object (Some ''2'')), sp)"
proof -
  have "int_to_string 2 = ''2''" by code_simp
  then show ?thesis by (simp add: apply_revision_def example_resource_type_def example_object_def)
qed

lemma example_with_current:
  "with_current local_etcd example_api None ''x'' f (stored sp) = f (Some (example_object (Some ''2'')), sp) (stored sp)"
  by (simp add: with_current_def try_store_def example_api_def example_get example_current)

lemma example_patch:
  "sp' \<noteq> sp \<Longrightarrow> apply_patch example_api (Some (example_object (Some ''2'')), sp) options [(''spec'', JString sp')] =
     Inr (Some (enforced_meta options (example_object (Some ''2'')) None True (example_object None)), sp')"
  by (simp add: apply_patch_def try_defs to_object_def example_api_def example_to_json_def example_from_json_def
    patched_object_def restore_type_def restore_status_def obj_remove_def value_get_def enforce_metadata_def
    example_resource_type_def generation_tracked_fields_changed_def generation_tracked_fields_def Let_def)

lemma example_valid: "validate_resource example_api (m, sp) = (if sp = [] then Inl (bad_request ''Invalid Namespace resource'' None) else Inr ())"
  by (simp add: validate_resource_def example_api_def example_resource_type_def namespace_descriptor_def)

text \<open>An update of the example to a valid new specification.\<close>

lemma example_put_if_changed:
  assumes "om_name m = Some ''x''" "om_namespace m = None" "om_resource_version m = Some ''2''" and "sp' \<noteq> sp"
  shows "\<exists>v s'. put_if_changed local_etcd example_api (Some (example_object (Some ''2'')), sp) (Some m, sp') Updated (stored sp) =
    (Inr (Updated v), s') \<and> snd v = sp' \<and> mv_revision (Rep_mvcc_db s') = 3"
  using assms(4) example_put [OF assms(1-3), of sp' sp]
  by (simp add: put_if_changed_def example_api_def try_store_def Rep_db_txn Rep_stored mvcc_txn_def mod_revision_of_def
    fresh_kv_def) (simp add: apply_revision_def example_resource_type_def Let_def)

section \<open>Atomic updates\<close>




lemma example_replacement:
  "sp' \<noteq> sp \<Longrightarrow> apply_replacement example_api (Some (example_object (Some ''2'')), sp) (example_options True)
     (Some (example_object (Some ''2'')), sp') =
     Inr (Some (enforced_meta (example_options False) (example_object (Some ''2'')) None True (example_object None)), sp')"
  by (simp add: apply_replacement_def try_defs to_object_def example_api_def example_to_json_def example_from_json_def
    replaced_object_def patched_object_def restore_type_def restore_status_def obj_remove_def value_get_def enforce_metadata_def
    preserve_metadata_map_def example_resource_type_def generation_tracked_fields_def Let_def example_options_def
    enforced_meta_def client_version_def example_object_def)


section \<open>What an update changes\<close>

lemma restored_entries:
  assumes "map_sorted obj"
  shows "map_sorted (patched_object options cur obj) \<and>
    (\<forall>k. k \<notin> {''apiVersion'', ''kind'', ''status''} \<longrightarrow> obj_get (patched_object options cur obj) k = obj_get obj k)"
  using assms
  by (auto simp: patched_object_def restore_type_def restore_status_def Let_def split: option.split)

lemma metadata_ok_cong:
  assumes "map_sorted b" and "obj_get b ''metadata'' = obj_get a ''metadata''"
  shows "metadata_ok f a \<Longrightarrow> metadata_ok f b" "metadata_entries f b = metadata_entries f a"
  using assms by (simp_all add: metadata_ok_def metadata_entries_def metadata_map_def metadata_members_def)

text \<open>
  A PUT does not remove labels or annotations: the object that is decoded has those of the
  replacement and, for all other keys, those of the current object.
\<close>

theorem replace_keeps_labels:
  assumes "map_sorted robj" "metadata_ok ''labels'' robj" "metadata_ok ''annotations'' robj"
    and "obj_get obj ''metadata'' = Some (JObject meta)" and "field \<in> {''labels'', ''annotations''}"
    and "obj_get meta field = Some (JObject current_field)"
  shows "map_of (metadata_entries field (replaced_object options obj robj)) =
    map_of current_field ++ map_of (metadata_entries field robj)"
proof -
  let ?p = "patched_object options obj robj"
  have p: "map_sorted ?p" "obj_get ?p ''metadata'' = obj_get robj ''metadata''"
    using restored_entries [OF assms(1), of options obj] by simp_all
  note ok = metadata_ok_cong [OF p]
  let ?a = "preserve_metadata_map meta ''annotations'' ?p"
  have labels: "metadata_ok ''labels'' ?a" "metadata_entries ''labels'' ?a = metadata_entries ''labels'' ?p"
    using preserve_metadata_other_field [of "''labels''" ?p "''annotations''" meta] ok(1) assms(2,3) by simp_all
  have result: "replaced_object options obj robj = preserve_metadata_map meta ''labels'' ?a"
    using assms(4) by (simp add: replaced_object_def Let_def)
  consider "field = ''labels''" | "field = ''annotations''" using assms(5) by blast
  then show ?thesis
  proof cases
    case 1
    then show ?thesis
      using preserve_metadata_entries [OF labels(1)] assms(6) result labels(2) ok(2) by simp
  next
    case 2
    have "metadata_ok ''annotations'' ?a"
      by (rule preserve_metadata_same_field) (use ok(1) assms(3) in blast)
    then have "metadata_entries ''annotations'' (preserve_metadata_map meta ''labels'' ?a) = metadata_entries ''annotations'' ?a"
      using preserve_metadata_other_field [of "''annotations''" ?a "''labels''" meta] labels(1) by simp
    then show ?thesis
      using preserve_metadata_entries [OF ok(1) [OF assms(3)]] assms(6) 2 result ok(2) by simp
  qed
qed

theorem replace_keeps_labels_witness:
  "map_of (metadata_entries ''labels'' (replaced_object (example_options True)
      [(''metadata'', JObject [(''labels'', JObject [(''a'', JString ''1''), (''hash'', JString ''h'')])])]
      [(''metadata'', JObject [(''labels'', JObject [(''a'', JString ''2'')])])])) =
   [''a'' \<mapsto> JString ''2'', ''hash'' \<mapsto> JString ''h'']"
  using replace_keeps_labels [of "[(''metadata'', JObject [(''labels'', JObject [(''a'', JString ''2'')])])]"
    "[(''metadata'', JObject [(''labels'', JObject [(''a'', JString ''1''), (''hash'', JString ''h'')])])]"
    "[(''labels'', JObject [(''a'', JString ''1''), (''hash'', JString ''h'')])]" "''labels''"
    "[(''a'', JString ''1''), (''hash'', JString ''h'')]" "example_options True"]
  by (simp add: metadata_ok_def metadata_members_def metadata_entries_def metadata_map_def value_get_def map_add_def fun_eq_iff)



text \<open>
  The generation counts changes of the JSON text of a patched object, not of the object: a PATCH
  with a member that the type does not have leaves the specification as it is, and yet it gives the
  object the next generation and stores it again.
\<close>

theorem patch_unknown_field_bumps_generation:
  "\<exists>meta s'. patch_resource local_etcd example_api None ''x'' [(''unknown'', JBool True)] (example_options False) (stored ''a'') =
     (Inr (Updated (Some meta, ''a'')), s') \<and> om_generation meta = Some 1 \<and> mv_revision (Rep_mvcc_db s') = 3 \<and>
   (\<exists>meta'. read_resource local_etcd example_api None ''x'' (stored ''a'') = (Inr (Some meta', ''a''), stored ''a'') \<and>
     om_generation meta' = None)"
proof -
  let ?m = "enforced_meta (example_options False) (example_object (Some ''2'')) None True (example_object None)"
  have m: "om_name ?m = Some ''x''" "om_namespace ?m = None" "om_resource_version ?m = Some ''2''" "om_generation ?m = Some 1"
    by (simp_all add: enforced_meta_def example_object_def object_meta_default_def example_options_def next_generation_def
      i64_sat_def int_range_defs)
  have patched: "apply_patch example_api (Some (example_object (Some ''2'')), ''a'') (example_options False) [(''unknown'', JBool True)] =
      Inr (Some ?m, ''a'')"
    by (simp add: apply_patch_def try_defs to_object_def example_api_def example_to_json_def example_from_json_def
      patched_object_def restore_type_def restore_status_def obj_remove_def value_get_def enforce_metadata_def
      example_resource_type_def generation_tracked_fields_changed_def generation_tracked_fields_def Let_def example_object_def
      example_options_def)
  have changed: "(Some (example_object (Some ''2'')), ''a'') \<noteq> (Some ?m, ''a'')"
    using m(4) by (auto simp: example_object_def object_meta_default_def dest: arg_cong [where f = om_generation])
  have "patch_resource local_etcd example_api None ''x'' [(''unknown'', JBool True)] (example_options False) (stored ''a'') =
      put_if_changed local_etcd example_api (Some (example_object (Some ''2'')), ''a'') (Some ?m, ''a'') Updated (stored ''a'')"
    by (simp add: patch_resource_def patch_as_update update_resource_def example_with_current patched validated_def
      validate_patch_name_def name_mismatch_def example_valid try_pure_def try_result_def)
  moreover have "\<exists>meta s'. put_if_changed local_etcd example_api (Some (example_object (Some ''2'')), ''a'') (Some ?m, ''a'') Updated (stored ''a'') =
      (Inr (Updated (Some meta, ''a'')), s') \<and> om_generation meta = Some 1 \<and> mv_revision (Rep_mvcc_db s') = 3"
    using changed example_put [OF m(1-3), of "''a''" "''a''"] m(4)
    by (simp add: put_if_changed_def example_api_def try_store_def Rep_db_txn Rep_stored mvcc_txn_def mod_revision_of_def
      fresh_kv_def) (simp add: apply_revision_def example_resource_type_def Let_def)
  moreover have "read_resource local_etcd example_api None ''x'' (stored ''a'') = (Inr (Some (example_object (Some ''2'')), ''a''), stored ''a'')"
    by (simp add: read_resource_def example_with_current)
  ultimately show ?thesis by (auto simp: example_object_def object_meta_default_def)
qed

section \<open>Deletion\<close>

lemma mark_keeps_identity:
  "meta_field (at_resource T) \<Longrightarrow> keeps_identity T known (\<lambda>v. Inr (pending_delete T now v))"
  by (auto simp: keeps_identity_def pending_delete_def meta_field_def mark_for_deletion_def Let_def split: if_splits)

lemma apply_revision_finalizers:
  "meta_field R \<Longrightarrow> has_finalizers (rt_meta R (apply_revision R c)) = has_finalizers (rt_meta R (cd_data c))"
  by (simp add: apply_revision_meta has_finalizers_def finalizers_def object_meta_default_def split: option.split)



text \<open>Objects of the example with a finalizer in their encoding, and another client that adds one.\<close>

definition guarded_api :: "example_resource api_type" where
  "guarded_api = example_api\<lparr>at_resource := example_resource_type\<lparr>
     rt_decode := (\<lambda>b. Some (Some ((example_object None)\<lparr>om_finalizers := if b = ''f'' then [''keep''] else []\<rparr>), b))\<rparr>\<rparr>"

definition racing_etcd :: "string \<Rightarrow> bytes \<Rightarrow> mvcc_db etcd" where
  "racing_etcd k b = local_etcd\<lparr>et_delete := (\<lambda>k' s. et_delete local_etcd k' (db_txn [] [OpPut k b] [] s))\<rparr>"

interpretation racing_client: etcd_client "racing_etcd k b" Rep_mvcc_db
proof
  show "mvcc_ok (Rep_mvcc_db s)" for s using Rep_mvcc_db [of s] by simp
  show "\<exists>db db'. evolves (Rep_mvcc_db s) db \<and> mvcc_delete k' db = (d, db') \<and> evolves db' (Rep_mvcc_db s')"
    if "et_delete (racing_etcd k b) k' s = (Inr d, s')" for k' s d s'
  proof -
    let ?db = "snd (mvcc_txn [] [OpPut k b] [] (Rep_mvcc_db s))"
    have "evolves (Rep_mvcc_db s) ?db" by (rule evolves_step [OF evolves_refl])
    moreover have "mvcc_delete k' ?db = (d, Rep_mvcc_db s')"
      using that by (auto simp: racing_etcd_def local_etcd_def Rep_db_txn mvcc_delete_def)
    ultimately show ?thesis by blast
  qed
qed (auto simp: racing_etcd_def local_etcd_def Rep_db_txn intro!: exI)

text \<open>
  The check for finalizers and the removal are two steps, and the removal does not check the
  version: an object to which another client adds a finalizer in between is removed all the same.
\<close>

theorem delete_misses_new_finalizer:
  "etcd_client (racing_etcd example_key ''f'') Rep_mvcc_db \<and>
   (\<exists>v s'. delete_resource (racing_etcd example_key ''f'') guarded_api now None ''x'' (stored ''a'') = (Inr v, s') \<and>
     has_finalizers (at_meta guarded_api v) \<and> mv_find (Rep_mvcc_db s') example_key = None)"
proof -
  let ?E = "racing_etcd example_key ''f''" and ?R = "at_resource guarded_api"
  let ?s = "db_txn [] [OpPut example_key ''f''] [] (stored ''a'')"
  let ?s' = "db_txn [] [OpDelete example_key] [] ?s"
  have key: "create_key (rt_descriptor ?R) None ''x'' = Inr example_key" "is_supported (type_meta_of (rt_descriptor ?R))"
    using example_create_key example_supported by (simp_all add: guarded_api_def example_api_def example_resource_type_def)
  have R: "rt_decode ?R b = Some (Some ((example_object None)\<lparr>om_finalizers := if b = ''f'' then [''keep''] else []\<rparr>), b)"
    "rt_meta ?R = fst" "rt_set_meta ?R = (\<lambda>m v. (m, snd v))" for b
    by (simp_all add: guarded_api_def example_resource_type_def)
  have raced: "Rep_mvcc_db ?s = \<lparr>mv_kvs = [(fresh_kv example_key ''f'' 2)\<lparr>kv_mod_revision := 3, kv_version := 2\<rparr>], mv_revision = 3\<rparr>"
    by (simp add: Rep_db_txn Rep_stored mvcc_txn_def fresh_kv_def)
  have get: "get ?E ?R None ''x'' (stored ''a'') = (Inr (Some \<lparr>cd_data = (Some (example_object None), ''a''), cd_revision = 2\<rparr>), stored ''a'')"
    using key by (simp add: get_def racing_etcd_def local_etcd_def Rep_stored mvcc_get_def option_list_def first_content_def
      deserialize_def fresh_kv_def R) (simp add: example_object_def object_meta_default_def)
  have del: "delete ?E ?R None ''x'' (stored ''a'') =
      (Inr (Some \<lparr>cd_data = (Some ((example_object None)\<lparr>om_finalizers := [''keep'']\<rparr>), ''f''), cd_revision = 3\<rparr>), ?s')"
    using key by (simp add: delete_def racing_etcd_def local_etcd_def mvcc_delete_def raced option_list_def first_content_def
      deserialize_def fresh_kv_def R)
  have "mv_find (Rep_mvcc_db ?s') example_key = None"
    by (simp add: Rep_db_txn [of _ _ _ ?s] raced mvcc_txn_def delete_kv_def fresh_kv_def)
  then show ?thesis
    using racing_client.etcd_client_axioms
    by (simp add: delete_resource_def with_current_def try_store_def get del)
      (simp add: apply_revision_def R has_finalizers_def finalizers_def example_object_def object_meta_default_def Let_def)
qed

section \<open>Creation\<close>


definition example_ship_api :: "example_resource api_type" where
  "example_ship_api = example_api\<lparr>at_resource := example_resource_type\<lparr>rt_descriptor := ship_descriptor\<rparr>\<rparr>"


end
