(* ===== verification/Rbac.thy ===== *)
theory Rbac
  imports Api_Responses
begin

text \<open>
  Role-based authorization: users (\<^verbatim>\<open>tugboat-apiserver/src/auth/user_info.rs\<close>), requests and decisions
  (\<^verbatim>\<open>auth/authorization.rs\<close>) and \<^verbatim>\<open>RbacAuthorizer\<close> (\<^verbatim>\<open>auth/rbac_authorizer.rs\<close>), which reads the
  bindings and roles from the resource store for every request.
\<close>

section \<open>Policies\<close>

record policy_rule =
  ru_api_groups :: "string list"
  ru_resources :: "string list"
  ru_resource_names :: "string list"
  ru_verbs :: "string list"

record subject =
  su_kind :: string
  su_api_group :: string
  su_name :: string
  su_namespace :: "string option"

record role_ref =
  rr_api_group :: string
  rr_kind :: string
  rr_name :: string

record role =
  ro_meta :: "object_meta option"
  ro_rules :: "policy_rule list"

record rbac_label_selector_requirement =
  rl_key :: string
  rl_operator :: string
  rl_values :: "string list"

record rbac_label_selector =
  rl_match_labels :: labels
  rl_match_expressions :: "rbac_label_selector_requirement list"

record aggregation_rule =
  ag_cluster_role_selectors :: "rbac_label_selector list"

record cluster_role =
  cr_meta :: "object_meta option"
  cr_rules :: "policy_rule list"
  cr_aggregation_rule :: "aggregation_rule option"

record role_binding =
  rb_meta :: "object_meta option"
  rb_subjects :: "subject list"
  rb_role_ref :: "role_ref option"

record cluster_role_binding =
  crb_meta :: "object_meta option"
  crb_subjects :: "subject list"
  crb_role_ref :: "role_ref option"

section \<open>Users and requests\<close>

datatype user_identity = Anonymous | ServiceAccount | X509 | Oidc

record user_info =
  ui_username :: string
  ui_uid :: "string option"
  ui_groups :: "string list"
  ui_extra :: "(string \<times> string list) list"
  ui_identity :: user_identity

definition anonymous :: user_info where
  "anonymous = \<lparr>ui_username = ''system:anonymous'', ui_uid = None, ui_groups = [''system:unauthenticated''], ui_extra = [],
     ui_identity = Anonymous\<rparr>"

definition service_account :: "string \<Rightarrow> string \<Rightarrow> string option \<Rightarrow> (string \<times> string list) list \<Rightarrow> user_info" where
  "service_account ns name uid extra =
     \<lparr>ui_username = ''system:serviceaccount:'' @ ns @ '':'' @ name, ui_uid = uid,
      ui_groups = [''system:serviceaccounts'', ''system:serviceaccounts:'' @ ns, ''system:authenticated''],
      ui_extra = extra, ui_identity = ServiceAccount\<rparr>"

definition with_authenticated :: "string list \<Rightarrow> string list" where
  "with_authenticated groups = (if ''system:authenticated'' \<in> set groups then groups else groups @ [''system:authenticated''])"

definition x509 :: "string \<Rightarrow> string list \<Rightarrow> (string \<times> string list) list \<Rightarrow> user_info" where
  "x509 username groups extra = \<lparr>ui_username = username, ui_uid = None, ui_groups = with_authenticated groups,
     ui_extra = extra, ui_identity = X509\<rparr>"

definition oidc :: "string \<Rightarrow> string list \<Rightarrow> (string \<times> string list) list \<Rightarrow> user_info" where
  "oidc username groups extra = \<lparr>ui_username = username, ui_uid = None, ui_groups = with_authenticated groups,
     ui_extra = extra, ui_identity = Oidc\<rparr>"

definition is_service_account :: "user_info \<Rightarrow> bool" where
  "is_service_account user \<longleftrightarrow> ui_identity user = ServiceAccount"

record authorization_request =
  ar_user :: user_info
  ar_verb :: string
  ar_api_group :: string
  ar_resource :: string
  ar_resource_name :: "string option"
  ar_namespace :: "string option"

datatype authorization_decision = Allowed | Denied string

section \<open>Matching\<close>

definition is_superuser :: "user_info \<Rightarrow> bool" where
  "is_superuser user = list_ex (\<lambda>g. g = ''system:masters'') (ui_groups user)"

definition parse_service_account_username :: "string \<Rightarrow> (string \<times> string) option" where
  "parse_service_account_username username =
     Option.bind (strip_prefix ''system:serviceaccount:'' username) (split_once (CHR '':''))"

definition service_account_subject_matches_user :: "subject \<Rightarrow> user_info \<Rightarrow> bool" where
  "service_account_subject_matches_user sub user =
     (if \<not> is_service_account user then False
      else case parse_service_account_username (ui_username user) of
        None \<Rightarrow> False
      | Some (ns, name) \<Rightarrow> su_namespace sub = Some ns \<and> su_name sub = name)"

definition subject_matches_user :: "subject \<Rightarrow> user_info \<Rightarrow> bool" where
  "subject_matches_user sub user =
     (if su_kind sub = ''User'' then su_name sub = ui_username user
      else if su_kind sub = ''Group'' then list_ex (\<lambda>g. g = su_name sub) (ui_groups user)
      else if su_kind sub = ''ServiceAccount'' then service_account_subject_matches_user sub user
      else False)"

definition subjects_match_user :: "subject list \<Rightarrow> user_info \<Rightarrow> bool" where
  "subjects_match_user subjects user = list_ex (\<lambda>sub. subject_matches_user sub user) subjects"

definition matches_value :: "string list \<Rightarrow> string \<Rightarrow> bool" where
  "matches_value vs requested = list_ex (\<lambda>v. v = ''*'' \<or> v = requested) vs"

definition matches_resource_name :: "string list \<Rightarrow> string option \<Rightarrow> bool" where
  "matches_resource_name names requested =
     (if names = [] then True else is_some_and (\<lambda>r. list_ex (\<lambda>n. n = r) names) requested)"

definition rule_matches_request :: "policy_rule \<Rightarrow> authorization_request \<Rightarrow> bool" where
  "rule_matches_request rule request \<longleftrightarrow>
     matches_value (ru_api_groups rule) (ar_api_group request) \<and> matches_value (ru_resources rule) (ar_resource request) \<and>
     matches_value (ru_verbs rule) (ar_verb request) \<and> matches_resource_name (ru_resource_names rule) (ar_resource_name request)"

section \<open>The authorizer\<close>

text \<open>The resource types it reads.\<close>

record rbac_types =
  rt_role :: "role resource_type"
  rt_cluster_role :: "cluster_role resource_type"
  rt_role_binding :: "role_binding resource_type"
  rt_cluster_role_binding :: "cluster_role_binding resource_type"

definition resolve_role_ref ::
  "'s etcd \<Rightarrow> rbac_types \<Rightarrow> role_ref option \<Rightarrow> string option \<Rightarrow> 's \<Rightarrow> (store_error + policy_rule list) \<times> 's" where
  "resolve_role_ref E R ref ns s = (case ref of
     None \<Rightarrow> (Inr [], s)
   | Some r \<Rightarrow>
       if rr_api_group r \<noteq> [] \<and> rr_api_group r \<noteq> ''authorization'' then (Inr [], s)
       else if rr_kind r = ''Role'' then
         (case ns of
            None \<Rightarrow> (Inr [], s)
          | Some n \<Rightarrow>
              (case get E (rt_role R) (Some n) (rr_name r) s of
                 (Inl e, s') \<Rightarrow> (Inl e, s')
               | (Inr found, s') \<Rightarrow> (Inr (unwrap_or [] (map_option (\<lambda>c. ro_rules (apply_revision (rt_role R) c)) found)), s')))
       else if rr_kind r = ''ClusterRole'' then
         (case get E (rt_cluster_role R) None (rr_name r) s of
            (Inl e, s') \<Rightarrow> (Inl e, s')
          | (Inr found, s') \<Rightarrow> (Inr (unwrap_or [] (map_option (\<lambda>c. cr_rules (apply_revision (rt_cluster_role R) c)) found)), s'))
       else (Inr [], s))"

text \<open>The loop over the bindings: the subjects and the role of each.\<close>

fun bound_rules ::
  "'s etcd \<Rightarrow> rbac_types \<Rightarrow> user_info \<Rightarrow> string option \<Rightarrow> (subject list \<times> role_ref option) list \<Rightarrow> 's \<Rightarrow>
   (store_error + policy_rule list) \<times> 's" where
  "bound_rules E R user ns [] s = (Inr [], s)"
| "bound_rules E R user ns ((subjects, ref) # bindings) s =
     (if \<not> subjects_match_user subjects user then bound_rules E R user ns bindings s
      else case resolve_role_ref E R ref ns s of
        (Inl e, s') \<Rightarrow> (Inl e, s')
      | (Inr rules, s') \<Rightarrow>
          (case bound_rules E R user ns bindings s' of
             (Inl e, s'') \<Rightarrow> (Inl e, s'')
           | (Inr rest, s'') \<Rightarrow> (Inr (rules @ rest), s'')))"

definition cluster_role_rules :: "'s etcd \<Rightarrow> rbac_types \<Rightarrow> user_info \<Rightarrow> 's \<Rightarrow> (store_error + policy_rule list) \<times> 's" where
  "cluster_role_rules E R user s =
     (case list_resources E (rt_cluster_role_binding R) None None s of
        (Inl e, s') \<Rightarrow> (Inl e, s')
      | (Inr cs, s') \<Rightarrow>
          bound_rules E R user None
            (map (\<lambda>c. let b = apply_revision (rt_cluster_role_binding R) c in (crb_subjects b, crb_role_ref b)) cs) s')"

definition role_binding_rules :: "'s etcd \<Rightarrow> rbac_types \<Rightarrow> user_info \<Rightarrow> string \<Rightarrow> 's \<Rightarrow> (store_error + policy_rule list) \<times> 's" where
  "role_binding_rules E R user ns s =
     (case list_resources E (rt_role_binding R) (Some ns) None s of
        (Inl e, s') \<Rightarrow> (Inl e, s')
      | (Inr cs, s') \<Rightarrow>
          bound_rules E R user (Some ns)
            (map (\<lambda>c. let b = apply_revision (rt_role_binding R) c in (rb_subjects b, rb_role_ref b)) cs) s')"

definition authorize_impl_with_store ::
  "'s etcd \<Rightarrow> rbac_types \<Rightarrow> authorization_request \<Rightarrow> 's \<Rightarrow> (store_error + authorization_decision) \<times> 's" where
  "authorize_impl_with_store E R request s =
     (if is_superuser (ar_user request) then (Inr Allowed, s)
      else case cluster_role_rules E R (ar_user request) s of
        (Inl e, s') \<Rightarrow> (Inl e, s')
      | (Inr rules, s') \<Rightarrow>
          (case (case ar_namespace request of
                   None \<Rightarrow> (Inr rules, s')
                 | Some ns \<Rightarrow> (case role_binding_rules E R (ar_user request) ns s' of
                     (Inl e, s'') \<Rightarrow> (Inl e, s'')
                   | (Inr ns_rules, s'') \<Rightarrow> (Inr (rules @ ns_rules), s''))) of
             (Inl e, s'') \<Rightarrow> (Inl e, s'')
           | (Inr all_rules, s'') \<Rightarrow>
               (Inr (if list_ex (\<lambda>rule. rule_matches_request rule request) all_rules then Allowed
                     else Denied (''RBAC denied '' @ ar_verb request @ '' access to '' @ ar_api_group request @ ''/'' @ ar_resource request)), s'')))"

text \<open>The text of an error in a reason is a parameter.\<close>

definition authorize_with_store ::
  "(store_error \<Rightarrow> string) \<Rightarrow> 's etcd \<Rightarrow> rbac_types \<Rightarrow> authorization_request \<Rightarrow> 's \<Rightarrow> authorization_decision \<times> 's" where
  "authorize_with_store show_error E R request s = (case authorize_impl_with_store E R request s of
     (Inr decision, s') \<Rightarrow> (decision, s')
   | (Inl e, s') \<Rightarrow> (Denied (''Failed to evaluate RBAC policy: '' @ show_error e), s'))"

section \<open>What a policy grants\<close>

text \<open>
  The rules of a role reference in a database, and what grants a request: a binding of one database
  with a rule of another, later one.  The authorizer reads them one after the other.
\<close>

definition role_rules :: "rbac_types \<Rightarrow> mvcc \<Rightarrow> role_ref option \<Rightarrow> string option \<Rightarrow> policy_rule set" where
  "role_rules R db ref ns = {rule. \<exists>r. ref = Some r \<and> (rr_api_group r = [] \<or> rr_api_group r = ''authorization'') \<and>
     ((rr_kind r = ''Role'' \<and> (\<exists>n k kv v. ns = Some n \<and> create_key (rt_descriptor (rt_role R)) (Some n) (rr_name r) = Inr k \<and>
         mv_find db k = Some kv \<and> deserialize (rt_role R) (kv_value kv) = Inr v \<and> rule \<in> set (ro_rules v))) \<or>
      (rr_kind r = ''ClusterRole'' \<and> (\<exists>k kv v. create_key (rt_descriptor (rt_cluster_role R)) None (rr_name r) = Inr k \<and>
         mv_find db k = Some kv \<and> deserialize (rt_cluster_role R) (kv_value kv) = Inr v \<and> rule \<in> set (cr_rules v))))}"

definition stored_under :: "'a resource_type \<Rightarrow> string option \<Rightarrow> mvcc \<Rightarrow> 'a set" where
  "stored_under T ns db = {v. \<exists>kv \<in> set (mv_kvs db). has_prefix (create_watch_key (rt_descriptor T) ns) (kv_key kv) \<and>
     deserialize T (kv_value kv) = Inr v}"

text \<open>Which requests a rule covers, and whom a subject names.\<close>

definition covers :: "string list \<Rightarrow> string \<Rightarrow> bool" where
  "covers vs x \<longleftrightarrow> ''*'' \<in> set vs \<or> x \<in> set vs"

definition rule_grants :: "policy_rule \<Rightarrow> authorization_request \<Rightarrow> bool" where
  "rule_grants rule request \<longleftrightarrow> covers (ru_api_groups rule) (ar_api_group request) \<and> covers (ru_resources rule) (ar_resource request) \<and>
     covers (ru_verbs rule) (ar_verb request) \<and>
     (ru_resource_names rule = [] \<or> (\<exists>n \<in> set (ru_resource_names rule). ar_resource_name request = Some n))"

definition names_user :: "subject \<Rightarrow> user_info \<Rightarrow> bool" where
  "names_user sub user \<longleftrightarrow>
     su_kind sub = ''User'' \<and> ui_username user = su_name sub \<or>
     su_kind sub = ''Group'' \<and> su_name sub \<in> set (ui_groups user) \<or>
     su_kind sub = ''ServiceAccount'' \<and> ui_identity user = ServiceAccount \<and>
       (\<exists>ns. su_namespace sub = Some ns \<and> CHR '':'' \<notin> set ns \<and> ui_username user = ''system:serviceaccount:'' @ ns @ '':'' @ su_name sub)"

definition cluster_granted :: "rbac_types \<Rightarrow> authorization_request \<Rightarrow> mvcc \<Rightarrow> mvcc \<Rightarrow> bool" where
  "cluster_granted R request db1 db2 \<longleftrightarrow> (\<exists>b \<in> stored_under (rt_cluster_role_binding R) None db1.
     (\<exists>sub \<in> set (crb_subjects b). names_user sub (ar_user request)) \<and>
     (\<exists>rule \<in> role_rules R db2 (crb_role_ref b) None. rule_grants rule request))"

definition namespace_granted :: "rbac_types \<Rightarrow> authorization_request \<Rightarrow> mvcc \<Rightarrow> mvcc \<Rightarrow> bool" where
  "namespace_granted R request db1 db2 \<longleftrightarrow> (\<exists>ns. ar_namespace request = Some ns \<and>
     (\<exists>b \<in> stored_under (rt_role_binding R) (Some ns) db1.
       (\<exists>sub \<in> set (rb_subjects b). names_user sub (ar_user request)) \<and>
       (\<exists>rule \<in> role_rules R db2 (rb_role_ref b) (Some ns). rule_grants rule request)))"

lemma rule_matches_iff: "rule_matches_request rule request \<longleftrightarrow> rule_grants rule request"
  by (auto simp: rule_matches_request_def rule_grants_def matches_value_def matches_resource_name_def covers_def list_ex_iff is_some_and_iff)

lemma parse_service_account_iff:
  "parse_service_account_username u = Some (ns, name) \<longleftrightarrow> u = ''system:serviceaccount:'' @ ns @ '':'' @ name \<and> CHR '':'' \<notin> set ns"
  by (auto simp: parse_service_account_username_def bind_eq_Some_conv strip_prefix_eq_Some split_once_eq_Some simp del: append_Cons)

lemma service_account_matches_iff:
  "service_account_subject_matches_user sub user \<longleftrightarrow> ui_identity user = ServiceAccount \<and>
     (\<exists>ns. su_namespace sub = Some ns \<and> parse_service_account_username (ui_username user) = Some (ns, su_name sub))"
  by (auto simp: service_account_subject_matches_user_def is_service_account_def split: option.splits)

lemma subject_matches_iff: "subject_matches_user sub user \<longleftrightarrow> names_user sub user"
  unfolding subject_matches_user_def names_user_def service_account_matches_iff parse_service_account_iff
  by (auto simp: list_ex_iff simp del: append_Cons)

lemma subjects_match_iff: "subjects_match_user subjects user \<longleftrightarrow> (\<exists>sub \<in> set subjects. names_user sub user)"
  by (simp add: subjects_match_user_def list_ex_iff subject_matches_iff)

lemmas granted_defs = cluster_granted_def [folded rule_matches_iff subjects_match_iff]
  namespace_granted_def [folded rule_matches_iff subjects_match_iff]

text \<open>The types are those of the table of resources, and setting the metadata changes no other field.\<close>

definition rbac_types_ok :: "rbac_types \<Rightarrow> bool" where
  "rbac_types_ok R \<longleftrightarrow>
     rt_descriptor (rt_role R) = role_descriptor \<and> rt_descriptor (rt_cluster_role R) = cluster_role_descriptor \<and>
     rt_descriptor (rt_role_binding R) = role_binding_descriptor \<and>
     rt_descriptor (rt_cluster_role_binding R) = cluster_role_binding_descriptor \<and>
     (\<forall>m v. ro_rules (rt_set_meta (rt_role R) m v) = ro_rules v) \<and>
     (\<forall>m v. cr_rules (rt_set_meta (rt_cluster_role R) m v) = cr_rules v) \<and>
     (\<forall>m v. rb_subjects (rt_set_meta (rt_role_binding R) m v) = rb_subjects v \<and>
       rb_role_ref (rt_set_meta (rt_role_binding R) m v) = rb_role_ref v) \<and>
     (\<forall>m v. crb_subjects (rt_set_meta (rt_cluster_role_binding R) m v) = crb_subjects v \<and>
       crb_role_ref (rt_set_meta (rt_cluster_role_binding R) m v) = crb_role_ref v)"

lemma revision_keeps:
  assumes "rbac_types_ok R"
  shows "ro_rules (apply_revision (rt_role R) c1) = ro_rules (cd_data c1)"
    "cr_rules (apply_revision (rt_cluster_role R) c2) = cr_rules (cd_data c2)"
    "rb_subjects (apply_revision (rt_role_binding R) c3) = rb_subjects (cd_data c3)"
    "rb_role_ref (apply_revision (rt_role_binding R) c3) = rb_role_ref (cd_data c3)"
    "crb_subjects (apply_revision (rt_cluster_role_binding R) c4) = crb_subjects (cd_data c4)"
    "crb_role_ref (apply_revision (rt_cluster_role_binding R) c4) = crb_role_ref (cd_data c4)"
  using assms by (simp_all add: rbac_types_ok_def apply_revision_def Let_def)

lemma unwrap_or_map_option: "unwrap_or d (map_option f x) = (case x of None \<Rightarrow> d | Some y \<Rightarrow> f y)"
  by (cases x) simp_all

section \<open>What the rules come from\<close>

context etcd_client
begin

lemma get_evolves: "get E T ns n s = (r, s') \<Longrightarrow> evolves (database s) (database s')"
proof -
  assume call: "get E T ns n s = (r, s')"
  show ?thesis
  proof (cases "create_key (rt_descriptor T) ns n")
    case (Inr k)
    obtain x s1 where x: "et_get E k s = (x, s1)" by fastforce
    then have "s1 = s'" using call Inr by (auto simp: get_def split: sum.splits)
    then show ?thesis using x get_ok [of k s] get_failed [of k s] evolves_trans by (cases x) blast+
  qed (use call in \<open>auto simp: get_def\<close>)
qed

lemma resolve_role_ref_sound:
  assumes R: "rbac_types_ok R" and call: "resolve_role_ref E R ref ns s = (Inr rules, s')"
  shows "\<exists>db. evolves (database s) db \<and> evolves db (database s') \<and> set rules \<subseteq> role_rules R db ref ns"
proof (cases "rules = []")
  case True
  have "evolves (database s) (database s')"
    using call by (auto simp: resolve_role_ref_def intro: get_evolves split: option.splits if_splits sum.splits prod.splits)
  then show ?thesis using True by auto
next
  case False
  then obtain r where r: "ref = Some r" "rr_api_group r = [] \<or> rr_api_group r = ''authorization''"
    using call by (auto simp: resolve_role_ref_def split: option.splits if_splits)
  consider n c where "rr_kind r = ''Role''" "ns = Some n" "get E (rt_role R) (Some n) (rr_name r) s = (Inr (Some c), s')"
      "rules = ro_rules (cd_data c)"
    | c where "rr_kind r = ''ClusterRole''" "get E (rt_cluster_role R) None (rr_name r) s = (Inr (Some c), s')"
      "rules = cr_rules (cd_data c)"
    using call r False
    by (auto simp: resolve_role_ref_def revision_keeps [OF R] unwrap_or_map_option
      split: option.splits if_splits sum.splits prod.splits)
  then show ?thesis
  proof cases
    case 1
    from get_takes_effect [OF 1(3)] show ?thesis using 1 r by (fastforce simp: role_rules_def)
  next
    case 2
    from get_takes_effect [OF 2(2)] show ?thesis using 2 r by (fastforce simp: role_rules_def)
  qed
qed

lemma bound_rules_sound:
  assumes R: "rbac_types_ok R" and "bound_rules E R user ns bindings s = (Inr rules, s')"
  shows "evolves (database s) (database s') \<and>
    (\<forall>rule \<in> set rules. \<exists>(subjects, ref) \<in> set bindings. subjects_match_user subjects user \<and>
      (\<exists>db. evolves (database s) db \<and> evolves db (database s') \<and> rule \<in> role_rules R db ref ns))"
  using assms(2)
proof (induction bindings arbitrary: s rules)
  case (Cons b bindings)
  obtain subjects ref where b: "b = (subjects, ref)" by (cases b)
  show ?case
  proof (cases "subjects_match_user subjects user")
    case False
    then show ?thesis using Cons by (auto simp: b)
  next
    case True
    then obtain rs s1 rest where one: "resolve_role_ref E R ref ns s = (Inr rs, s1)"
      and more: "bound_rules E R user ns bindings s1 = (Inr rest, s')" and rules: "rules = rs @ rest"
      using Cons.prems by (auto simp: b split: sum.splits prod.splits)
    obtain db where db: "evolves (database s) db" "evolves db (database s1)" "set rs \<subseteq> role_rules R db ref ns"
      using resolve_role_ref_sound [OF R one] by blast
    have IH: "evolves (database s1) (database s')"
      "rule \<in> set rest \<Longrightarrow> \<exists>(subjects, ref) \<in> set bindings. subjects_match_user subjects user \<and>
        (\<exists>db. evolves (database s1) db \<and> evolves db (database s') \<and> rule \<in> role_rules R db ref ns)" for rule
      using Cons.IH [OF more] by auto
    have s1: "evolves (database s) (database s1)" using db evolves_trans by blast
    have db': "evolves db (database s')" using db(2) IH(1) evolves_trans by blast
    let ?P = "\<lambda>rule (subjects, ref). subjects_match_user subjects user \<and>
        (\<exists>db. evolves (database s) db \<and> evolves db (database s') \<and> rule \<in> role_rules R db ref ns)"
    have "\<exists>b \<in> set (b # bindings). ?P rule b" if "rule \<in> set rules" for rule
    proof (cases "rule \<in> set rs")
      case True
      then have "?P rule b" using db(1,3) db' \<open>subjects_match_user subjects user\<close> by (auto simp: b)
      then show ?thesis by simp
    next
      case False
      then have "rule \<in> set rest" using that rules by simp
      then obtain subj' ref' db2 where "(subj', ref') \<in> set bindings" "subjects_match_user subj' user"
          "evolves (database s1) db2" "evolves db2 (database s')" "rule \<in> role_rules R db2 ref' ns"
        using IH(2) by blast
      moreover from this have "evolves (database s) db2" using s1 evolves_trans by blast
      ultimately have "?P rule (subj', ref')" by auto
      then show ?thesis using \<open>(subj', ref') \<in> set bindings\<close> by (meson list.set_intros(2))
    qed
    then show ?thesis using s1 IH(1) evolves_trans by blast
  qed
qed auto

lemma list_resources_sound:
  assumes "list_resources E T ns None s = (Inr cs, s')"
  shows "\<exists>db. evolves (database s) db \<and> evolves db (database s') \<and> (\<forall>c \<in> set cs. cd_data c \<in> stored_under T ns db)"
proof -
  obtain r where "list_with_revision E T ns None s = (Inr (cs, r), s')"
    using assms by (auto simp: list_resources_def split: sum.splits prod.splits)
  then obtain db where db: "evolves (database s) db" "evolves db (database s')"
    and l: "list_all2 (\<lambda>c kv. deserialize T (kv_value kv) = Inr (cd_data c) \<and> cd_revision c = kv_mod_revision kv) cs
      (filter (\<lambda>kv. has_prefix (create_watch_key (rt_descriptor T) ns) (kv_key kv)) (mv_kvs db))"
    using list_takes_effect by blast
  have "cd_data c \<in> stored_under T ns db" if c: "c \<in> set cs" for c
  proof -
    obtain i where i: "i < length cs" "c = cs ! i" using c by (auto simp: in_set_conv_nth)
    let ?kvs = "filter (\<lambda>kv. has_prefix (create_watch_key (rt_descriptor T) ns) (kv_key kv)) (mv_kvs db)"
    have "?kvs ! i \<in> set ?kvs" using list_all2_lengthD [OF l] i(1) by (intro nth_mem) simp
    then show ?thesis using list_all2_nthD [OF l i(1)] i(2) by (auto simp: stored_under_def)
  qed
  then show ?thesis using db by blast
qed

text \<open>What the rules of a loop over listed bindings come from.\<close>

lemma listed_rules_sound:
  assumes R: "rbac_types_ok R" and l: "list_resources E T ns' None s = (Inr cs, s1)"
    and b: "bound_rules E R user ns (map (\<lambda>c. (subj (cd_data c), ref (cd_data c))) cs) s1 = (Inr rules, s')"
  shows "evolves (database s) (database s') \<and> (\<forall>rule \<in> set rules. \<exists>db1 db2. evolves (database s) db1 \<and> evolves db1 db2 \<and>
    evolves db2 (database s') \<and> (\<exists>v \<in> stored_under T ns' db1. subjects_match_user (subj v) user \<and> rule \<in> role_rules R db2 (ref v) ns))"
proof -
  obtain db1 where db1: "evolves (database s) db1" "evolves db1 (database s1)" "\<forall>c \<in> set cs. cd_data c \<in> stored_under T ns' db1"
    using list_resources_sound [OF l] by blast
  note sound = bound_rules_sound [OF R b]
  have "\<exists>db1 db2. evolves (database s) db1 \<and> evolves db1 db2 \<and> evolves db2 (database s') \<and>
      (\<exists>v \<in> stored_under T ns' db1. subjects_match_user (subj v) user \<and> rule \<in> role_rules R db2 (ref v) ns)"
    if rule: "rule \<in> set rules" for rule
  proof -
    obtain c db2 where c: "c \<in> set cs" "subjects_match_user (subj (cd_data c)) user" "rule \<in> role_rules R db2 (ref (cd_data c)) ns"
      and db2: "evolves (database s1) db2" "evolves db2 (database s')"
      using sound rule by auto
    have "evolves db1 db2" using db1(2) db2(1) evolves_trans by blast
    then show ?thesis using db1(1,3) db2(2) c by blast
  qed
  moreover have "evolves (database s) (database s')"
    using evolves_trans [OF conjunct1 [OF sound] evolves_trans [OF db1(2,1)]] .
  ultimately show ?thesis by blast
qed

end

lemma cluster_role_rules_eq:
  "rbac_types_ok R \<Longrightarrow> cluster_role_rules E R user s = (case list_resources E (rt_cluster_role_binding R) None None s of
     (Inl e, s') \<Rightarrow> (Inl e, s')
   | (Inr cs, s') \<Rightarrow> bound_rules E R user None (map (\<lambda>c. (crb_subjects (cd_data c), crb_role_ref (cd_data c))) cs) s')"
  by (simp add: cluster_role_rules_def revision_keeps Let_def split: prod.split sum.split)

lemma role_binding_rules_eq:
  "rbac_types_ok R \<Longrightarrow> role_binding_rules E R user ns s = (case list_resources E (rt_role_binding R) (Some ns) None s of
     (Inl e, s') \<Rightarrow> (Inl e, s')
   | (Inr cs, s') \<Rightarrow> bound_rules E R user (Some ns) (map (\<lambda>c. (rb_subjects (cd_data c), rb_role_ref (cd_data c))) cs) s')"
  by (simp add: role_binding_rules_def revision_keeps Let_def split: prod.split sum.split)

section \<open>Evaluation on a store that nobody else changes\<close>

definition all_decode :: "'a resource_type \<Rightarrow> mvcc \<Rightarrow> bool" where
  "all_decode T db \<longleftrightarrow> (\<forall>kv \<in> set (mv_kvs db). has_prefix (create_watch_key (rt_descriptor T) None) (kv_key kv) \<longrightarrow>
     (\<exists>v. deserialize T (kv_value kv) = Inr v))"

lemma has_prefix_iff: "has_prefix p s \<longleftrightarrow> (\<exists>q. s = p @ q)"
  by (auto simp: has_prefix_def) (metis append_take_drop_id)

lemma namespace_prefix: "has_prefix (create_watch_key d ns) k \<Longrightarrow> has_prefix (create_watch_key d None) k"
  by (cases ns) (auto simp: has_prefix_iff create_watch_key_def)

lemma key_prefix: "create_key d ns n = Inr k \<Longrightarrow> has_prefix (create_watch_key d None) k"
  by (auto simp: create_key_def create_watch_key_def has_prefix_iff split: if_splits option.splits)

lemma all_contents_decode:
  "\<forall>kv \<in> set kvs. \<exists>v. decode (kv_value kv) = Inr v \<Longrightarrow>
   \<exists>cs. all_contents decode kvs = Inr cs \<and> cd_data ` set cs = {v. \<exists>kv \<in> set kvs. decode (kv_value kv) = Inr v}"
proof (induction kvs)
  case (Cons kv kvs)
  then obtain cs v where cs: "all_contents decode kvs = Inr cs" "cd_data ` set cs = {v. \<exists>kv \<in> set kvs. decode (kv_value kv) = Inr v}"
    and v: "decode (kv_value kv) = Inr v" by auto
  have "{w. \<exists>x \<in> set (kv # kvs). decode (kv_value x) = Inr w} = insert v (cd_data ` set cs)"
    using cs(2) v by auto
  then show ?case
    using cs(1) v by (intro exI [of _ "\<lparr>cd_data = v, cd_revision = kv_mod_revision kv\<rparr> # cs"]) simp
qed simp

lemma local_list:
  assumes "all_decode T (Rep_mvcc_db s)"
  shows "\<exists>cs. list_resources local_etcd T ns None s = (Inr cs, s) \<and> cd_data ` set cs = stored_under T ns (Rep_mvcc_db s)"
proof -
  let ?kvs = "filter (\<lambda>kv. has_prefix (create_watch_key (rt_descriptor T) ns) (kv_key kv)) (mv_kvs (Rep_mvcc_db s))"
  have "\<forall>kv \<in> set ?kvs. \<exists>v. deserialize T (kv_value kv) = Inr v"
    using assms namespace_prefix [of "rt_descriptor T" ns] unfolding all_decode_def by simp
  from all_contents_decode [OF this] obtain cs where "all_contents (deserialize T) ?kvs = Inr cs"
    "cd_data ` set cs = {v. \<exists>kv \<in> set ?kvs. deserialize T (kv_value kv) = Inr v}" by blast
  moreover have "{v. \<exists>kv \<in> set ?kvs. deserialize T (kv_value kv) = Inr v} = stored_under T ns (Rep_mvcc_db s)"
    by (auto simp: stored_under_def)
  ultimately show ?thesis
    by (simp add: list_resources_def list_with_revision_def local_etcd_def mvcc_get_prefix_def)
qed

lemma local_get:
  assumes "all_decode T (Rep_mvcc_db s)" and k: "create_key (rt_descriptor T) ns n = Inr k"
  shows "\<exists>found. get local_etcd T ns n s = (Inr found, s) \<and>
    (case found of
       None \<Rightarrow> mv_find (Rep_mvcc_db s) k = None
     | Some c \<Rightarrow> \<exists>kv. mv_find (Rep_mvcc_db s) k = Some kv \<and> deserialize T (kv_value kv) = Inr (cd_data c))"
proof (cases "mv_find (Rep_mvcc_db s) k")
  case None
  then show ?thesis using k by (simp add: get_def local_etcd_def mvcc_get_def option_list_def first_content_def)
next
  case (Some kv)
  then obtain v where "deserialize T (kv_value kv) = Inr v"
    using assms(1) lookup_kv_key [OF Some] key_prefix [OF k] by (auto simp: all_decode_def)
  then show ?thesis using k Some by (simp add: get_def local_etcd_def mvcc_get_def option_list_def first_content_def)
qed

lemma local_resolve:
  assumes R: "rbac_types_ok R" and "all_decode (rt_role R) (Rep_mvcc_db s)" "all_decode (rt_cluster_role R) (Rep_mvcc_db s)"
  shows "\<exists>rules. resolve_role_ref local_etcd R ref ns s = (Inr rules, s) \<and> set rules = role_rules R (Rep_mvcc_db s) ref ns"
proof -
  have keys: "\<exists>k. create_key (rt_descriptor (rt_role R)) (Some x) n = Inr k" "\<exists>k. create_key (rt_descriptor (rt_cluster_role R)) None n = Inr k" for x n
    using R by (simp_all add: rbac_types_ok_def create_key_def cluster_role_descriptor_def is_cluster_scoped_def)
  show ?thesis
  proof (cases ref)
    case None
    then show ?thesis by (simp add: resolve_role_ref_def role_rules_def)
  next
    case (Some r)
    consider "rr_api_group r \<noteq> [] \<and> rr_api_group r \<noteq> ''authorization''"
      | x where "rr_api_group r = [] \<or> rr_api_group r = ''authorization''" "rr_kind r = ''Role''" "ns = Some x"
      | "rr_api_group r = [] \<or> rr_api_group r = ''authorization''" "rr_kind r = ''ClusterRole''"
      | "rr_kind r = ''Role''" "ns = None" | "rr_kind r \<noteq> ''Role''" "rr_kind r \<noteq> ''ClusterRole''"
      by (cases ns) blast+
    then show ?thesis
    proof cases
      case (2 x)
      obtain k where k: "create_key (rt_descriptor (rt_role R)) (Some x) (rr_name r) = Inr k" using keys by blast
      obtain found where "get local_etcd (rt_role R) (Some x) (rr_name r) s = (Inr found, s)"
        "case found of None \<Rightarrow> mv_find (Rep_mvcc_db s) k = None
          | Some c \<Rightarrow> \<exists>kv. mv_find (Rep_mvcc_db s) k = Some kv \<and> deserialize (rt_role R) (kv_value kv) = Inr (cd_data c)"
        using local_get [OF assms(2) k] by (elim exE conjE) (rule that)
      then show ?thesis
        using 2 Some k by (cases found) (auto simp: resolve_role_ref_def role_rules_def revision_keeps [OF R])
    next
      case 3
      obtain k where k: "create_key (rt_descriptor (rt_cluster_role R)) None (rr_name r) = Inr k" using keys by blast
      obtain found where "get local_etcd (rt_cluster_role R) None (rr_name r) s = (Inr found, s)"
        "case found of None \<Rightarrow> mv_find (Rep_mvcc_db s) k = None
          | Some c \<Rightarrow> \<exists>kv. mv_find (Rep_mvcc_db s) k = Some kv \<and> deserialize (rt_cluster_role R) (kv_value kv) = Inr (cd_data c)"
        using local_get [OF assms(3) k] by (elim exE conjE) (rule that)
      then show ?thesis
        using 3 Some k by (cases found) (auto simp: resolve_role_ref_def role_rules_def revision_keeps [OF R])
    qed (use Some in \<open>auto simp: resolve_role_ref_def role_rules_def\<close>)
  qed
qed

lemma local_bound_rules:
  assumes R: "rbac_types_ok R" and "all_decode (rt_role R) (Rep_mvcc_db s)" "all_decode (rt_cluster_role R) (Rep_mvcc_db s)"
  shows "\<exists>rules. bound_rules local_etcd R user ns bs s = (Inr rules, s) \<and>
    set rules = (\<Union>(subjects, ref) \<in> set bs. if subjects_match_user subjects user then role_rules R (Rep_mvcc_db s) ref ns else {})"
proof (induction bs)
  case (Cons b bs)
  obtain subjects ref where b: "b = (subjects, ref)" by (cases b)
  obtain rs where "resolve_role_ref local_etcd R ref ns s = (Inr rs, s)" "set rs = role_rules R (Rep_mvcc_db s) ref ns"
    using local_resolve [OF assms] by blast
  then show ?case using Cons.IH by (auto simp: b)
qed simp

text \<open>The rules a loop over all the bindings of a prefix collects.\<close>

lemma local_listed_rules:
  assumes "rbac_types_ok R" "all_decode (rt_role R) (Rep_mvcc_db s)" "all_decode (rt_cluster_role R) (Rep_mvcc_db s)"
    and T: "all_decode T (Rep_mvcc_db s)"
  shows "\<exists>cs rules. list_resources local_etcd T ns' None s = (Inr cs, s) \<and>
    bound_rules local_etcd R user ns (map (\<lambda>c. (subj (cd_data c), ref (cd_data c))) cs) s = (Inr rules, s) \<and>
    (list_ex P rules \<longleftrightarrow> (\<exists>v \<in> stored_under T ns' (Rep_mvcc_db s). subjects_match_user (subj v) user \<and>
      (\<exists>rule \<in> role_rules R (Rep_mvcc_db s) (ref v) ns. P rule)))"
proof -
  obtain cs where cs: "list_resources local_etcd T ns' None s = (Inr cs, s)"
    "cd_data ` set cs = stored_under T ns' (Rep_mvcc_db s)"
    using local_list [OF T] by blast
  obtain rules where "bound_rules local_etcd R user ns (map (\<lambda>c. (subj (cd_data c), ref (cd_data c))) cs) s = (Inr rules, s)"
    and rules: "set rules = (\<Union>(subjects, r) \<in> set (map (\<lambda>c. (subj (cd_data c), ref (cd_data c))) cs).
      if subjects_match_user subjects user then role_rules R (Rep_mvcc_db s) r ns else {})"
    using local_bound_rules [OF assms(1-3), of user ns "map (\<lambda>c. (subj (cd_data c), ref (cd_data c))) cs"] by (elim exE conjE) (rule that)
  moreover have "list_ex P rules \<longleftrightarrow> (\<exists>v \<in> cd_data ` set cs. subjects_match_user (subj v) user \<and>
      (\<exists>rule \<in> role_rules R (Rep_mvcc_db s) (ref v) ns. P rule))"
    unfolding list_ex_iff rules by (auto split: if_splits)
  ultimately show ?thesis unfolding cs(2) using cs(1) by blast
qed

section \<open>An example policy\<close>

text \<open>
  Every stored cluster role lets read Ships, and every stored cluster role binding gives the group
  of \<^verbatim>\<open>alice\<close> the cluster role \<^verbatim>\<open>view\<close>.
\<close>

definition view_rule :: policy_rule where
  "view_rule = \<lparr>ru_api_groups = [''core''], ru_resources = [''ships''], ru_resource_names = [], ru_verbs = [''get'']\<rparr>"

definition example_rbac :: rbac_types where
  "example_rbac = \<lparr>
     rt_role = \<lparr>rt_descriptor = role_descriptor, rt_meta = ro_meta, rt_set_meta = (\<lambda>m v. v\<lparr>ro_meta := m\<rparr>), rt_encode = (\<lambda>_. []),
       rt_decode = (\<lambda>_. Some \<lparr>ro_meta = None, ro_rules = []\<rparr>)\<rparr>,
     rt_cluster_role = \<lparr>rt_descriptor = cluster_role_descriptor, rt_meta = cr_meta, rt_set_meta = (\<lambda>m v. v\<lparr>cr_meta := m\<rparr>),
       rt_encode = (\<lambda>_. []), rt_decode = (\<lambda>_. Some \<lparr>cr_meta = None, cr_rules = [view_rule], cr_aggregation_rule = None\<rparr>)\<rparr>,
     rt_role_binding = \<lparr>rt_descriptor = role_binding_descriptor, rt_meta = rb_meta, rt_set_meta = (\<lambda>m v. v\<lparr>rb_meta := m\<rparr>),
       rt_encode = (\<lambda>_. []), rt_decode = (\<lambda>_. Some \<lparr>rb_meta = None, rb_subjects = [], rb_role_ref = None\<rparr>)\<rparr>,
     rt_cluster_role_binding = \<lparr>rt_descriptor = cluster_role_binding_descriptor, rt_meta = crb_meta,
       rt_set_meta = (\<lambda>m v. v\<lparr>crb_meta := m\<rparr>), rt_encode = (\<lambda>_. []),
       rt_decode = (\<lambda>_. Some \<lparr>crb_meta = None,
         crb_subjects = [\<lparr>su_kind = ''Group'', su_api_group = [], su_name = ''dev'', su_namespace = None\<rparr>],
         crb_role_ref = Some \<lparr>rr_api_group = ''authorization'', rr_kind = ''ClusterRole'', rr_name = ''view''\<rparr>\<rparr>)\<rparr>\<rparr>"

definition example_policy :: mvcc_db where
  "example_policy = db_txn [] [OpPut ''/tugboat/registry/authorization/clusterrolebindings/b'' [],
     OpPut ''/tugboat/registry/authorization/clusterroles/view'' []] [] db_empty"

definition example_request :: "string list \<Rightarrow> string \<Rightarrow> authorization_request" where
  "example_request groups verb = \<lparr>ar_user = oidc ''alice'' groups [], ar_verb = verb, ar_api_group = ''core'', ar_resource = ''ships'',
     ar_resource_name = None, ar_namespace = Some ''default''\<rparr>"

lemma example_rbac_ok: "rbac_types_ok example_rbac"
  by (simp add: rbac_types_ok_def example_rbac_def)

lemma example_policies_decode:
  "all_decode (rt_role example_rbac) db" "all_decode (rt_cluster_role example_rbac) db"
  "all_decode (rt_role_binding example_rbac) db" "all_decode (rt_cluster_role_binding example_rbac) db"
  by (simp_all add: all_decode_def example_rbac_def deserialize_def is_supported_def type_meta_of_def role_descriptor_def
      cluster_role_descriptor_def role_binding_descriptor_def cluster_role_binding_descriptor_def)

lemma example_decision:
  "authorize_with_store show_error local_etcd example_rbac (example_request [''dev''] ''get'') example_policy = (Allowed, example_policy)"
proof -
  let ?b = "fresh_kv ''/tugboat/registry/authorization/clusterrolebindings/b'' [] 2"
  let ?v = "fresh_kv ''/tugboat/registry/authorization/clusterroles/view'' [] 2"
  have db: "Rep_mvcc_db example_policy = \<lparr>mv_kvs = [?b, ?v], mv_revision = 2\<rparr>"
    by (simp add: example_policy_def Rep_db_txn db_empty.rep_eq mv_empty_def mvcc_txn_def fresh_kv_def)
  have listed: "mvcc_get_prefix (create_watch_key cluster_role_binding_descriptor None) None (Rep_mvcc_db example_policy) = \<lparr>gr_revision = Some 2, gr_kvs = [?b]\<rparr>"
    "mvcc_get_prefix (create_watch_key role_binding_descriptor (Some ''default'')) None (Rep_mvcc_db example_policy) = \<lparr>gr_revision = Some 2, gr_kvs = []\<rparr>"
    by (simp_all add: db mvcc_get_prefix_def create_watch_key_def cluster_role_binding_descriptor_def role_binding_descriptor_def base_path_def
        fresh_kv_def has_prefix_def)
  have got: "mvcc_get ''/tugboat/registry/authorization/clusterroles/view'' (Rep_mvcc_db example_policy) = \<lparr>gr_revision = Some 2, gr_kvs = [?v]\<rparr>"
    by (simp add: db mvcc_get_def fresh_kv_def option_list_def)
  note eval = local_etcd_def example_rbac_def deserialize_def is_supported_def type_meta_of_def
  have view: "resolve_role_ref local_etcd example_rbac (Some \<lparr>rr_api_group = ''authorization'', rr_kind = ''ClusterRole'', rr_name = ''view''\<rparr>) None
      example_policy = (Inr [view_rule], example_policy)"
    using got by (simp add: resolve_role_ref_def get_def create_key_def eval cluster_role_descriptor_def is_cluster_scoped_def base_path_def
        first_content_def apply_revision_def)
  have "list_resources local_etcd (rt_cluster_role_binding example_rbac) None None example_policy =
      (Inr [\<lparr>cd_data = \<lparr>crb_meta = None, crb_subjects = [\<lparr>su_kind = ''Group'', su_api_group = [], su_name = ''dev'', su_namespace = None\<rparr>],
         crb_role_ref = Some \<lparr>rr_api_group = ''authorization'', rr_kind = ''ClusterRole'', rr_name = ''view''\<rparr>\<rparr>, cd_revision = 2\<rparr>], example_policy)"
    using listed by (simp add: list_resources_def list_with_revision_def eval fresh_kv_def cluster_role_binding_descriptor_def)
  then have "cluster_role_rules local_etcd example_rbac (oidc ''alice'' [''dev''] []) example_policy = (Inr [view_rule], example_policy)"
    using view by (simp add: cluster_role_rules_eq [OF example_rbac_ok] subjects_match_user_def subject_matches_user_def oidc_def with_authenticated_def)
  moreover have "role_binding_rules local_etcd example_rbac (oidc ''alice'' [''dev''] []) ''default'' example_policy = (Inr [], example_policy)"
    using listed unfolding role_binding_rules_eq [OF example_rbac_ok] by (simp add: list_resources_def list_with_revision_def eval)
  ultimately show ?thesis
    by (simp add: authorize_with_store_def authorize_impl_with_store_def example_request_def is_superuser_def oidc_def with_authenticated_def
        rule_matches_request_def view_rule_def matches_value_def matches_resource_name_def)
qed

section \<open>Soundness and exactness\<close>

text \<open>
  C8: Authorization is sound, whatever changes the policy meanwhile: a request is allowed only to a
  member of \<^verbatim>\<open>system:masters\<close>, or if at some moment of the evaluation there was a binding for the user
  and at a later one a role it refers to with a rule for the request: a cluster role binding with a
  cluster role, or a role binding of the request's namespace with a role of that namespace or a
  cluster role.  If the store fails, the request is denied.
\<close>

theorem authorize_sound:
  assumes client: "etcd_client E database" and R: "rbac_types_ok R"
    and call: "authorize_with_store show_error E R request s = (Allowed, s')"
  shows "is_superuser (ar_user request) \<or> (\<exists>db1 db2. evolves (database s) db1 \<and> evolves db1 db2 \<and> evolves db2 (database s') \<and>
    (cluster_granted R request db1 db2 \<or> namespace_granted R request db1 db2))"
proof (cases "is_superuser (ar_user request)")
  case False
  obtain rules s1 all_rules where rules: "cluster_role_rules E R (ar_user request) s = (Inr rules, s1)"
    and ns: "(case ar_namespace request of
                   None \<Rightarrow> (Inr rules, s1)
                 | Some ns \<Rightarrow> (case role_binding_rules E R (ar_user request) ns s1 of
                     (Inl e, s'') \<Rightarrow> (Inl e, s'')
                   | (Inr ns_rules, s'') \<Rightarrow> (Inr (rules @ ns_rules), s''))) = (Inr all_rules, s')"
    and "list_ex (\<lambda>rule. rule_matches_request rule request) all_rules"
    using call False
    by (auto simp: authorize_with_store_def authorize_impl_with_store_def split: sum.splits prod.splits if_splits)
  then obtain rule where rule: "rule \<in> set all_rules" "rule_matches_request rule request" by (auto simp: list_ex_iff)
  obtain cs s0 where "list_resources E (rt_cluster_role_binding R) None None s = (Inr cs, s0)"
    "bound_rules E R (ar_user request) None (map (\<lambda>c. (crb_subjects (cd_data c), crb_role_ref (cd_data c))) cs) s0 = (Inr rules, s1)"
    using rules by (auto simp: cluster_role_rules_eq [OF R] split: sum.splits prod.splits)
  note cluster = etcd_client.listed_rules_sound [OF client R this]
  show ?thesis
  proof (cases "ar_namespace request")
    case None
    then have "rules = all_rules" "s1 = s'" using ns by auto
    then show ?thesis using cluster rule by (auto simp: granted_defs)
  next
    case (Some n)
    obtain ns_rules where more: "role_binding_rules E R (ar_user request) n s1 = (Inr ns_rules, s')" "all_rules = rules @ ns_rules"
      using ns Some by (auto split: sum.splits prod.splits)
    obtain bs s2 where "list_resources E (rt_role_binding R) (Some n) None s1 = (Inr bs, s2)"
      "bound_rules E R (ar_user request) (Some n) (map (\<lambda>c. (rb_subjects (cd_data c), rb_role_ref (cd_data c))) bs) s2 = (Inr ns_rules, s')"
      using more(1) by (auto simp: role_binding_rules_eq [OF R] split: sum.splits prod.splits)
    note namespaced = etcd_client.listed_rules_sound [OF client R this]
    from rule(1) more(2) consider "rule \<in> set rules" | "rule \<in> set ns_rules" by auto
    then show ?thesis
    proof cases
      case 1
      then obtain db1 db2 where ev: "evolves (database s) db1" "evolves db1 db2" "evolves db2 (database s1)"
        and "cluster_granted R request db1 db2"
        using conjunct2 [OF cluster] rule(2) unfolding granted_defs by blast
      moreover have "evolves db2 (database s')" using evolves_trans [OF conjunct1 [OF namespaced] ev(3)] .
      ultimately show ?thesis by blast
    next
      case 2
      then obtain db1 db2 where ev: "evolves (database s1) db1" "evolves db1 db2" "evolves db2 (database s')"
        and "namespace_granted R request db1 db2"
        using conjunct2 [OF namespaced] rule(2) Some unfolding granted_defs by blast
      moreover have "evolves (database s) db1" using evolves_trans [OF ev(1) conjunct1 [OF cluster]] .
      ultimately show ?thesis by blast
    qed
  qed
qed simp

theorem authorize_sound_witness:
  "\<exists>db1 db2. evolves (Rep_mvcc_db example_policy) db1 \<and> evolves db1 db2 \<and> evolves db2 (Rep_mvcc_db example_policy) \<and>
    (cluster_granted example_rbac (example_request [''dev''] ''get'') db1 db2 \<or> namespace_granted example_rbac (example_request [''dev''] ''get'') db1 db2)"
  using authorize_sound [OF local_client.etcd_client_axioms example_rbac_ok example_decision [of "\<lambda>_. []"]]
  by (simp add: is_superuser_def example_request_def oidc_def with_authenticated_def)

text \<open>
  C7: On a store that nobody else changes and whose policies all decode, authorization decides exactly
  what the policies say: a request is allowed if and only if the user is a member of
  \<^verbatim>\<open>system:masters\<close>, or a binding for the user refers to a role with a rule for the request.  The
  decision reads the store and leaves it as it was.
\<close>

theorem authorize_exact:
  assumes R: "rbac_types_ok R"
    and "all_decode (rt_role R) (Rep_mvcc_db s)" "all_decode (rt_cluster_role R) (Rep_mvcc_db s)"
    and "all_decode (rt_role_binding R) (Rep_mvcc_db s)" "all_decode (rt_cluster_role_binding R) (Rep_mvcc_db s)"
  shows "snd (authorize_with_store show_error local_etcd R request s) = s \<and>
    (fst (authorize_with_store show_error local_etcd R request s) = Allowed \<longleftrightarrow>
       is_superuser (ar_user request) \<or> cluster_granted R request (Rep_mvcc_db s) (Rep_mvcc_db s) \<or>
       namespace_granted R request (Rep_mvcc_db s) (Rep_mvcc_db s))"
proof (cases "is_superuser (ar_user request)")
  case False
  let ?matches = "\<lambda>rule. rule_matches_request rule request"
  obtain cs rules where l: "list_resources local_etcd (rt_cluster_role_binding R) None None s = (Inr cs, s)"
    and b: "bound_rules local_etcd R (ar_user request) None (map (\<lambda>c. (crb_subjects (cd_data c), crb_role_ref (cd_data c))) cs) s = (Inr rules, s)"
    and g: "list_ex ?matches rules \<longleftrightarrow> (\<exists>b \<in> stored_under (rt_cluster_role_binding R) None (Rep_mvcc_db s).
      subjects_match_user (crb_subjects b) (ar_user request) \<and> (\<exists>rule \<in> role_rules R (Rep_mvcc_db s) (crb_role_ref b) None. ?matches rule))"
    using local_listed_rules [OF assms(1-3,5), of None "ar_user request" None crb_subjects crb_role_ref ?matches]
    by (elim exE conjE) (rule that)
  have rules: "cluster_role_rules local_etcd R (ar_user request) s = (Inr rules, s)"
    using l b by (simp add: cluster_role_rules_eq [OF R])
  have cluster: "list_ex ?matches rules \<longleftrightarrow> cluster_granted R request (Rep_mvcc_db s) (Rep_mvcc_db s)"
    unfolding g granted_defs ..
  show ?thesis
  proof (cases "ar_namespace request")
    case None
    then show ?thesis
      using False rules cluster by (simp add: authorize_with_store_def authorize_impl_with_store_def granted_defs)
  next
    case (Some n)
    obtain cs' more_rules where l': "list_resources local_etcd (rt_role_binding R) (Some n) None s = (Inr cs', s)"
      and b': "bound_rules local_etcd R (ar_user request) (Some n) (map (\<lambda>c. (rb_subjects (cd_data c), rb_role_ref (cd_data c))) cs') s = (Inr more_rules, s)"
      and g: "list_ex ?matches more_rules \<longleftrightarrow> (\<exists>b \<in> stored_under (rt_role_binding R) (Some n) (Rep_mvcc_db s).
        subjects_match_user (rb_subjects b) (ar_user request) \<and> (\<exists>rule \<in> role_rules R (Rep_mvcc_db s) (rb_role_ref b) (Some n). ?matches rule))"
      using local_listed_rules [OF assms(1-3,4), of "Some n" "ar_user request" "Some n" rb_subjects rb_role_ref ?matches]
      by (elim exE conjE) (rule that)
    have "role_binding_rules local_etcd R (ar_user request) n s = (Inr more_rules, s)"
      using l' b' by (simp add: role_binding_rules_eq [OF R])
    moreover have "list_ex ?matches more_rules \<longleftrightarrow> namespace_granted R request (Rep_mvcc_db s) (Rep_mvcc_db s)"
      unfolding g granted_defs using Some by simp
    ultimately show ?thesis
      using False rules cluster Some by (simp add: authorize_with_store_def authorize_impl_with_store_def)
  qed
qed (simp add: authorize_with_store_def authorize_impl_with_store_def)

theorem authorize_exact_witness:
  "cluster_granted example_rbac (example_request [''dev''] ''get'') (Rep_mvcc_db example_policy) (Rep_mvcc_db example_policy) \<or>
   namespace_granted example_rbac (example_request [''dev''] ''get'') (Rep_mvcc_db example_policy) (Rep_mvcc_db example_policy)"
  using authorize_exact [OF example_rbac_ok example_policies_decode, of "\<lambda>_. []" "example_request [''dev''] ''get''" example_policy]
  unfolding example_decision by (simp add: is_superuser_def example_request_def oidc_def with_authenticated_def)

end
