(* ===== verification/Apps.thy ===== *)
theory Apps
  imports Json "HOL-Library.Multiset" "HOL-Library.Product_Lexorder"
begin

text \<open>
  The workload resources of \<^verbatim>\<open>tugboat-resources/proto/apps/v1\<close> as records, and what the workload
  controllers share (\<^verbatim>\<open>tugboat-controller-manager/src/workload/mod.rs\<close>): selectors, owner references and
  the order of creation.  A \<^verbatim>\<open>HashMap\<close> is the list of its entries in the order of the keys, so that two
  maps are equal if their lists are.  The arithmetic of \<^verbatim>\<open>i32\<close> wraps around as in a release build.
\<close>

section \<open>apps/v1\<close>

record ship_template_spec =
  ts_metadata :: "object_meta option"
  ts_spec :: "ship_spec option"

definition ship_template_default :: ship_template_spec where
  "ship_template_default = \<lparr>ts_metadata = None, ts_spec = None\<rparr>"

record rolling_update_strategy =
  ru_max_unavailable :: "int option"
  ru_max_surge :: "int option"

record deployment_strategy =
  ds_type :: string
  ds_rolling_update :: "rolling_update_strategy option"

record replica_set_spec =
  rs_replicas :: "int option"
  rs_selector :: labels
  rs_ship_template :: "ship_template_spec option"

definition replica_set_spec_default :: replica_set_spec where
  "replica_set_spec_default = \<lparr>rs_replicas = None, rs_selector = [], rs_ship_template = None\<rparr>"

record replica_set_status =
  rss_replicas :: int
  rss_ready_replicas :: int

record replica_set =
  rs_meta :: "object_meta option"
  rs_spec :: "replica_set_spec option"
  rs_status :: "replica_set_status option"

record deployment_spec =
  dep_replicas :: "int option"
  dep_selector :: labels
  dep_ship_template :: "ship_template_spec option"
  dep_strategy :: "deployment_strategy option"
  dep_revision_history_limit :: "int option"

definition deployment_spec_default :: deployment_spec where
  "deployment_spec_default = \<lparr>dep_replicas = None, dep_selector = [], dep_ship_template = None, dep_strategy = None,
     dep_revision_history_limit = None\<rparr>"

record deployment_status =
  dps_replicas :: int
  dps_ready_replicas :: int
  dps_updated_replicas :: int

record deployment =
  dep_meta :: "object_meta option"
  dep_spec :: "deployment_spec option"
  dep_status :: "deployment_status option"

section \<open>32-bit integers\<close>

definition wrap_i32 :: "int \<Rightarrow> int" where
  "wrap_i32 x = (x + 2 ^ 31) mod 2 ^ 32 - 2 ^ 31"

definition i32_add :: "int \<Rightarrow> int \<Rightarrow> int" where
  "i32_add a b = wrap_i32 (a + b)"

definition i32_sub :: "int \<Rightarrow> int \<Rightarrow> int" where
  "i32_sub a b = wrap_i32 (a - b)"

definition i32_sum :: "int list \<Rightarrow> int" where
  "i32_sum xs = fold (\<lambda>x acc. i32_add acc x) xs 0"

lemma wrap_i32_id: "- (2 ^ 31) \<le> x \<Longrightarrow> x < 2 ^ 31 \<Longrightarrow> wrap_i32 x = x"
  by (simp add: wrap_i32_def)

lemma i32_add_id: "- (2 ^ 31) \<le> a + b \<Longrightarrow> a + b < 2 ^ 31 \<Longrightarrow> i32_add a b = a + b"
  by (simp add: i32_add_def wrap_i32_id)

lemma i32_sub_id: "- (2 ^ 31) \<le> a - b \<Longrightarrow> a - b < 2 ^ 31 \<Longrightarrow> i32_sub a b = a - b"
  by (simp add: i32_sub_def wrap_i32_id)

lemma i32_sum_id:
  assumes "\<forall>x \<in> set xs. 0 \<le> x" and "sum_list xs < 2 ^ 31"
  shows "i32_sum xs = sum_list xs"
proof -
  have "fold (\<lambda>x acc. i32_add acc x) xs a = a + sum_list xs" if "0 \<le> a" "a + sum_list xs < 2 ^ 31" for a
    using that assms(1)
  proof (induction xs arbitrary: a)
    case (Cons x xs)
    have "0 \<le> sum_list xs" using Cons.prems(3) by (intro sum_list_nonneg) auto
    then have "i32_add a x = a + x" using Cons.prems by (intro i32_add_id) auto
    then show ?case using Cons.IH [of "a + x"] Cons.prems by (auto simp: algebra_simps)
  qed simp
  then show ?thesis using assms(2) by (simp add: i32_sum_def)
qed

section \<open>Sorting\<close>

text \<open>The stable sort with \<^verbatim>\<open>Reverse\<close> of a key, and \<^verbatim>\<open>max_by_key\<close>, which returns the last maximum.\<close>

definition sort_desc :: "('a \<Rightarrow> 'b::linorder) \<Rightarrow> 'a list \<Rightarrow> 'a list" where
  "sort_desc key xs = rev (sort_key key (rev xs))"

fun max_by_key :: "('a \<Rightarrow> 'b::linorder) \<Rightarrow> 'a list \<Rightarrow> 'a option" where
  "max_by_key key [] = None"
| "max_by_key key (x # xs) = (case max_by_key key xs of None \<Rightarrow> Some x | Some y \<Rightarrow> if key x > key y then Some x else Some y)"

lemma set_sort_desc [simp]: "set (sort_desc key xs) = set xs"
  by (simp add: sort_desc_def)

lemma length_sort_desc [simp]: "length (sort_desc key xs) = length xs"
  by (simp add: sort_desc_def)

lemma mset_sort_desc [simp]: "mset (sort_desc key xs) = mset xs"
  by (simp add: sort_desc_def)

lemma sorted_sort_desc: "sorted_wrt (\<lambda>x y. key y \<le> key x) (sort_desc key xs)"
proof -
  have "sorted (map key (sort_key key (rev xs)))" by simp
  then show ?thesis by (simp add: sort_desc_def sorted_wrt_rev sorted_map)
qed

lemma max_by_key_None [simp]: "max_by_key key xs = None \<longleftrightarrow> xs = []"
  by (cases xs) (auto split: option.splits)

lemma max_by_key_Some:
  "max_by_key key xs = Some m \<Longrightarrow> m \<in> set xs \<and> (\<forall>x \<in> set xs. key x \<le> key m)"
proof (induction xs arbitrary: m)
  case (Cons x xs)
  show ?case
  proof (cases "max_by_key key xs")
    case (Some y)
    then show ?thesis using Cons.prems Cons.IH [OF Some] by (auto split: if_splits)
  qed (use Cons.prems in simp)
qed simp

section \<open>Shared helpers of the workload controllers\<close>

definition ship_template_hash_label :: string where
  "ship_template_hash_label = ''ship-template-hash''"

definition matches_selector :: "labels \<Rightarrow> labels \<Rightarrow> bool" where
  "matches_selector labels selector = list_all (\<lambda>(key, v). is_some_and (\<lambda>label. label = v) (map_of labels key)) selector"

text \<open>The API version and kind of the owner's type, and its metadata.\<close>

definition owner_reference_for :: "string \<Rightarrow> string \<Rightarrow> object_meta option \<Rightarrow> owner_reference" where
  "owner_reference_for api_version kind meta = \<lparr>or_api_version = api_version, or_kind = kind,
     or_name = unwrap_or [] (meta_name meta), or_uid = unwrap_or [] (Option.bind meta om_uid), or_controller = Some True\<rparr>"

definition is_controlled_by :: "object_meta option \<Rightarrow> object_meta option \<Rightarrow> string \<Rightarrow> bool" where
  "is_controlled_by meta owner owner_kind =
     (let owner_name = unwrap_or [] (meta_name owner); owner_uid = Option.bind owner om_uid
      in is_some_and (\<lambda>m. list_ex (\<lambda>r. or_kind r = owner_kind \<and> or_name r = owner_name \<and>
           (case owner_uid of Some uid \<Rightarrow> or_uid r = uid | None \<Rightarrow> or_uid r = [])) (om_owner_references m)) meta)"

definition creation_sort_key :: "object_meta option \<Rightarrow> string option \<Rightarrow> int \<times> int \<times> string" where
  "creation_sort_key meta n =
     (case Option.bind meta om_creation_timestamp of
        Some time \<Rightarrow> (t_seconds time, t_nanos time, unwrap_or [] n)
      | None \<Rightarrow> (0, 0, unwrap_or [] n))"

text \<open>\<^verbatim>\<open>HashMap::extend\<close>\<close>

definition map_extend :: "(string \<times> 'v) list \<Rightarrow> (string \<times> 'v) list \<Rightarrow> (string \<times> 'v) list" where
  "map_extend m entries = fold (\<lambda>(k, v). obj_insert k v) entries m"

lemma map_extend_simps [simp]:
  "map_extend m [] = m" "map_extend m ((k, v) # es) = map_extend (obj_insert k v m) es"
  by (simp_all add: map_extend_def)

lemma map_sorted_extend: "map_sorted m \<Longrightarrow> map_sorted (map_extend m es)"
  by (induction es arbitrary: m) (auto simp: map_extend_def)

lemma map_of_extend:
  "map_sorted m \<Longrightarrow> distinct (map fst es) \<Longrightarrow> map_of (map_extend m es) k = (case map_of es k of Some v \<Rightarrow> Some v | None \<Rightarrow> map_of m k)"
proof (induction es arbitrary: m)
  case (Cons e es)
  obtain k' v where e: "e = (k', v)" by (cases e)
  have "map_of (map_extend m (e # es)) k = (case map_of es k of Some w \<Rightarrow> Some w | None \<Rightarrow> ((map_of m)(k' \<mapsto> v)) k)"
    using Cons.IH [of "obj_insert k' v m"] Cons.prems by (simp add: e split: option.split)
  moreover have "map_of es k' = None" using Cons.prems(2) by (force simp: e map_of_eq_None_iff)
  ultimately show ?case by (auto simp: e split: option.split)
qed simp

lemma matches_selector_iff:
  "matches_selector labels selector \<longleftrightarrow> (\<forall>(k, v) \<in> set selector. map_of labels k = Some v)"
  by (auto simp: matches_selector_def list_all_iff is_some_and_iff)

lemma matches_extended:
  assumes "map_sorted labels" "distinct (map fst selector)"
  shows "matches_selector (map_extend labels selector) selector"
  using assms by (auto simp: matches_selector_iff map_of_extend)

end
