(* ===== verification/Client_Api.thy ===== *)
theory Client_Api
  imports Apps
begin

text \<open>
  The typed API of the client library (\<^verbatim>\<open>tugboat-client/src/api.rs\<close>) as controllers see it: one call per
  operation over an arbitrary state, since other clients write between two calls, and any call may
  fail.  Then the operator \<^verbatim>\<open>?\<close>, the actions of reconcilers, and an API that records its calls.
\<close>

section \<open>Calls\<close>

datatype client_error = ApiError nat | OtherError

text \<open>
  The API of the objects of one kind and namespace.  \<open>ap_patch_status n v\<close> sends the status of \<open>v\<close>.
\<close>

record ('s, 'a) api =
  ap_create :: "'a \<Rightarrow> 's \<Rightarrow> (client_error + 'a) \<times> 's"
  ap_get :: "string \<Rightarrow> 's \<Rightarrow> (client_error + 'a option) \<times> 's"
  ap_list :: "'s \<Rightarrow> (client_error + 'a list) \<times> 's"
  ap_patch :: "string \<Rightarrow> 'a \<Rightarrow> 's \<Rightarrow> (client_error + 'a) \<times> 's"
  ap_patch_status :: "string \<Rightarrow> 'a \<Rightarrow> 's \<Rightarrow> (client_error + 'a) \<times> 's"
  ap_replace :: "string \<Rightarrow> 'a \<Rightarrow> 's \<Rightarrow> (client_error + 'a) \<times> 's"
  ap_replace_status :: "string \<Rightarrow> 'a \<Rightarrow> 's \<Rightarrow> (client_error + 'a) \<times> 's"
  ap_delete :: "string \<Rightarrow> 's \<Rightarrow> (client_error + 'a option) \<times> 's"

datatype controller_error =
  ClientError client_error
| MissingNamespace string
| MissingReplicaSetSpec string string
| MissingDeploymentSpec string string
| MissingDeploymentTemplate string string
| MissingFleetSpec string string

text \<open>The operator \<^verbatim>\<open>?\<close> on a call of the client and on a step of a controller.\<close>

definition try_call ::
  "(client_error + 'a) \<times> 's \<Rightarrow> ('a \<Rightarrow> 's \<Rightarrow> (controller_error + 'b) \<times> 's) \<Rightarrow> (controller_error + 'b) \<times> 's" where
  "try_call call f = (case call of (Inl e, s) \<Rightarrow> (Inl (ClientError e), s) | (Inr x, s) \<Rightarrow> f x s)"

definition try_step ::
  "(controller_error + 'a) \<times> 's \<Rightarrow> ('a \<Rightarrow> 's \<Rightarrow> (controller_error + 'b) \<times> 's) \<Rightarrow> (controller_error + 'b) \<times> 's" where
  "try_step call f = (case call of (Inl e, s) \<Rightarrow> (Inl e, s) | (Inr x, s) \<Rightarrow> f x s)"

definition expect :: "'e \<Rightarrow> 'a option \<Rightarrow> ('a \<Rightarrow> 's \<Rightarrow> ('e + 'b) \<times> 's) \<Rightarrow> 's \<Rightarrow> ('e + 'b) \<times> 's" where
  "expect e x f s = (case x of None \<Rightarrow> (Inl e, s) | Some y \<Rightarrow> f y s)"

lemmas call_defs = try_call_def try_step_def expect_def

text \<open>An action: requeue after a duration, or wait for a change.  A duration is its number of nanoseconds.\<close>

type_synonym duration = int

definition from_secs :: "nat \<Rightarrow> duration" where
  "from_secs secs = int secs * 1000000000"

datatype action = Action (requeue_after: "duration option")

abbreviation await_change :: action where
  "await_change \<equiv> Action None"

abbreviation requeue :: "nat \<Rightarrow> action" where
  "requeue secs \<equiv> Action (Some (from_secs secs))"

section \<open>Recorded calls\<close>

datatype 'a api_call =
  Create 'a
| Patch string 'a
| PatchStatus string 'a
| Replace string 'a
| ReplaceStatus string 'a
| Delete string

definition recorded :: "'a api_call \<Rightarrow> ('s \<Rightarrow> 'r \<times> 's) \<Rightarrow> 's \<times> 'a api_call list \<Rightarrow> 'r \<times> 's \<times> 'a api_call list" where
  "recorded c call = (\<lambda>(s, calls). case call s of (r, s') \<Rightarrow> (r, s', calls @ [c]))"

definition unrecorded :: "('s \<Rightarrow> 'r \<times> 's) \<Rightarrow> 's \<times> 'c list \<Rightarrow> 'r \<times> 's \<times> 'c list" where
  "unrecorded call = (\<lambda>(s, calls). case call s of (r, s') \<Rightarrow> (r, s', calls))"

text \<open>An API that keeps the list of the writing calls made through it.\<close>

definition recording :: "('s, 'a) api \<Rightarrow> ('s \<times> 'a api_call list, 'a) api" where
  "recording A = \<lparr>
     ap_create = (\<lambda>v. recorded (Create v) (ap_create A v)),
     ap_get = (\<lambda>n. unrecorded (ap_get A n)),
     ap_list = unrecorded (ap_list A),
     ap_patch = (\<lambda>n v. recorded (Patch n v) (ap_patch A n v)),
     ap_patch_status = (\<lambda>n v. recorded (PatchStatus n v) (ap_patch_status A n v)),
     ap_replace = (\<lambda>n v. recorded (Replace n v) (ap_replace A n v)),
     ap_replace_status = (\<lambda>n v. recorded (ReplaceStatus n v) (ap_replace_status A n v)),
     ap_delete = (\<lambda>n. recorded (Delete n) (ap_delete A n))\<rparr>"

lemma recording_simps [simp]:
  "ap_create (recording A) v (s, calls) = (case ap_create A v s of (r, s') \<Rightarrow> (r, s', calls @ [Create v]))"
  "ap_get (recording A) n (s, calls) = (case ap_get A n s of (r, s') \<Rightarrow> (r, s', calls))"
  "ap_list (recording A) (s, calls) = (case ap_list A s of (r, s') \<Rightarrow> (r, s', calls))"
  "ap_patch (recording A) n v (s, calls) = (case ap_patch A n v s of (r, s') \<Rightarrow> (r, s', calls @ [Patch n v]))"
  "ap_patch_status (recording A) n v (s, calls) = (case ap_patch_status A n v s of (r, s') \<Rightarrow> (r, s', calls @ [PatchStatus n v]))"
  "ap_replace (recording A) n v (s, calls) = (case ap_replace A n v s of (r, s') \<Rightarrow> (r, s', calls @ [Replace n v]))"
  "ap_replace_status (recording A) n v (s, calls) =
     (case ap_replace_status A n v s of (r, s') \<Rightarrow> (r, s', calls @ [ReplaceStatus n v]))"
  "ap_delete (recording A) n (s, calls) = (case ap_delete A n s of (r, s') \<Rightarrow> (r, s', calls @ [Delete n]))"
  by (simp_all add: recording_def recorded_def unrecorded_def)

text \<open>An API whose calls are not recorded beside one whose calls are.\<close>

definition unrecording :: "('s, 'b) api \<Rightarrow> ('s \<times> 'c list, 'b) api" where
  "unrecording A = \<lparr>
     ap_create = (\<lambda>v. unrecorded (ap_create A v)),
     ap_get = (\<lambda>n. unrecorded (ap_get A n)),
     ap_list = unrecorded (ap_list A),
     ap_patch = (\<lambda>n v. unrecorded (ap_patch A n v)),
     ap_patch_status = (\<lambda>n v. unrecorded (ap_patch_status A n v)),
     ap_replace = (\<lambda>n v. unrecorded (ap_replace A n v)),
     ap_replace_status = (\<lambda>n v. unrecorded (ap_replace_status A n v)),
     ap_delete = (\<lambda>n. unrecorded (ap_delete A n))\<rparr>"

lemma unrecording_simps [simp]:
  "ap_create (unrecording A) v (s, calls) = (case ap_create A v s of (r, s') \<Rightarrow> (r, s', calls))"
  "ap_get (unrecording A) n (s, calls) = (case ap_get A n s of (r, s') \<Rightarrow> (r, s', calls))"
  "ap_list (unrecording A) (s, calls) = (case ap_list A s of (r, s') \<Rightarrow> (r, s', calls))"
  "ap_patch (unrecording A) n v (s, calls) = (case ap_patch A n v s of (r, s') \<Rightarrow> (r, s', calls))"
  "ap_patch_status (unrecording A) n v (s, calls) = (case ap_patch_status A n v s of (r, s') \<Rightarrow> (r, s', calls))"
  "ap_replace (unrecording A) n v (s, calls) = (case ap_replace A n v s of (r, s') \<Rightarrow> (r, s', calls))"
  "ap_replace_status (unrecording A) n v (s, calls) = (case ap_replace_status A n v s of (r, s') \<Rightarrow> (r, s', calls))"
  "ap_delete (unrecording A) n (s, calls) = (case ap_delete A n s of (r, s') \<Rightarrow> (r, s', calls))"
  by (simp_all add: unrecording_def unrecorded_def)

end
