(* ===== verification/Change_Classifier.thy ===== *)
theory Change_Classifier
  imports Apps
begin

text \<open>
  Which changes of a Ship template need new Ships
  (\<^verbatim>\<open>tugboat-controller-manager/src/change_classifier.rs\<close>): the classification and what it guarantees.
\<close>

datatype template_change_kind = NoChange | InPlace | Hotplug | RequiresRotation

datatype change_direction = Unchanged | Add | Remove | Mixed | Reordered

definition diff_direction :: "'a list \<Rightarrow> 'a list \<Rightarrow> change_direction" where
  "diff_direction old new =
     (let has_add = list_ex (\<lambda>item. \<not> List.member old item) new; has_remove = list_ex (\<lambda>item. \<not> List.member new item) old
      in if \<not> has_add \<and> \<not> has_remove then if old = new then Unchanged else Reordered
         else if has_add \<and> \<not> has_remove then Add
         else if \<not> has_add then Remove
         else Mixed)"

definition is_default_service_account_token_volume :: "ship_volume \<Rightarrow> bool" where
  "is_default_service_account_token_volume volume =
     (if sv_name volume \<noteq> ''serviceaccount-token'' \<or> sv_persistent_volume_claim volume \<noteq> None \<or>
         sv_config_map volume \<noteq> None \<or> sv_secret volume \<noteq> None
      then False
      else case sv_projected volume of
        None \<Rightarrow> False
      | Some projected \<Rightarrow>
          (case pvs_sources projected of
             [source] \<Rightarrow> is_some_and (\<lambda>token. satp_path token = ''token'') (vp_service_account_token source)
           | _ \<Rightarrow> False))"

definition normalize_service_account_defaults :: "ship_spec \<Rightarrow> ship_spec" where
  "normalize_service_account_defaults spec = spec\<lparr>
     ss_service_account_name := (if ss_service_account_name spec = Some ''default'' then None else ss_service_account_name spec),
     ss_automount_service_account_token :=
       (if ss_automount_service_account_token spec = Some True then None else ss_automount_service_account_token spec),
     ss_volumes := filter (\<lambda>volume. \<not> is_default_service_account_token_volume volume) (ss_volumes spec)\<rparr>"

definition has_other_changes :: "ship_spec option \<Rightarrow> ship_spec option \<Rightarrow> bool" where
  "has_other_changes old_spec new_spec =
     (let clear = (\<lambda>spec. normalize_service_account_defaults (spec\<lparr>ss_image := [], ss_uefi := None,
            ss_network_class_ref := [], ss_volume_claim_ref := []\<rparr>))
      in clear (unwrap_or ship_spec_default old_spec) \<noteq> clear (unwrap_or ship_spec_default new_spec))"

definition runtime_hotplug_of :: "runtime_class \<Rightarrow> runtime_hotplug option" where
  "runtime_hotplug_of rc = Option.bind (rc_spec rc) rcs_hotplug"

definition supports_generic_hotplug :: "runtime_class \<Rightarrow> bool" where
  "supports_generic_hotplug rc =
     (is_some_and (\<lambda>cap. hc_add cap \<or> hc_remove cap) (Option.bind (runtime_hotplug_of rc) rh_cpu) \<or>
      is_some_and (\<lambda>cap. hc_add cap \<or> hc_remove cap) (Option.bind (runtime_hotplug_of rc) rh_memory))"

text \<open>
  A change of a list of devices: \<open>None\<close> if it requires rotation, otherwise whether it requires hotplug.
\<close>

definition device_change :: "hotplug_capabilities option \<Rightarrow> 'a list option \<Rightarrow> 'a list option \<Rightarrow> bool option" where
  "device_change cap old new =
     (if old = new then Some False
      else
        (let allowed = (\<lambda>f. unwrap_or False (map_option f cap)) in
         case diff_direction (unwrap_or [] old) (unwrap_or [] new) of
           Add \<Rightarrow> if allowed hc_add then Some True else None
         | Remove \<Rightarrow> if allowed hc_remove then Some True else None
         | Mixed \<Rightarrow> if allowed hc_add \<and> allowed hc_remove then Some True else None
         | Reordered \<Rightarrow> None
         | Unchanged \<Rightarrow> Some False))"

definition classify_template_change :: "ship_template_spec \<Rightarrow> ship_template_spec \<Rightarrow> runtime_class option \<Rightarrow> template_change_kind" where
  "classify_template_change old new runtime_class =
     (let old_spec = ts_spec old; new_spec = ts_spec new
      in if old = new then NoChange
         else if map_option ss_image old_spec \<noteq> map_option ss_image new_spec \<or>
                 map_option ss_uefi old_spec \<noteq> map_option ss_uefi new_spec then RequiresRotation
         else case runtime_class of
           None \<Rightarrow>
             if map_option ss_network_class_ref old_spec \<noteq> map_option ss_network_class_ref new_spec \<or>
                map_option ss_volume_claim_ref old_spec \<noteq> map_option ss_volume_claim_ref new_spec
             then RequiresRotation else InPlace
         | Some rc \<Rightarrow>
             (case device_change (Option.bind (runtime_hotplug_of rc) rh_nic)
                     (map_option ss_network_class_ref old_spec) (map_option ss_network_class_ref new_spec) of
                None \<Rightarrow> RequiresRotation
              | Some nic \<Rightarrow>
                  (case device_change (Option.bind (runtime_hotplug_of rc) rh_storage)
                          (map_option ss_volume_claim_ref old_spec) (map_option ss_volume_claim_ref new_spec) of
                     None \<Rightarrow> RequiresRotation
                   | Some storage \<Rightarrow>
                       if has_other_changes old_spec new_spec
                       then if supports_generic_hotplug rc then Hotplug else RequiresRotation
                       else if nic \<or> storage then Hotplug else InPlace)))"

section \<open>What a classification guarantees\<close>

text \<open>The devices of one list that are not in another.\<close>

abbreviation plugged :: "'a list option \<Rightarrow> 'a list option \<Rightarrow> 'a set" where
  "plugged old new \<equiv> set (unwrap_or [] new) - set (unwrap_or [] old)"

abbreviation can :: "(hotplug_capabilities \<Rightarrow> bool) \<Rightarrow> hotplug_capabilities option \<Rightarrow> bool" where
  "can f cap \<equiv> is_some_and f cap"

lemma diff_direction_iff:
  "diff_direction old new = Add \<longleftrightarrow> set new - set old \<noteq> {} \<and> set old - set new = {}"
  "diff_direction old new = Remove \<longleftrightarrow> set new - set old = {} \<and> set old - set new \<noteq> {}"
  "diff_direction old new = Mixed \<longleftrightarrow> set new - set old \<noteq> {} \<and> set old - set new \<noteq> {}"
  "diff_direction old new = Unchanged \<longleftrightarrow> old = new"
  "diff_direction old new = Reordered \<longleftrightarrow> old \<noteq> new \<and> set old = set new"
  by (auto simp: diff_direction_def Let_def list_ex_iff)

lemma unwrap_map_option: "unwrap_or False (map_option f cap) = is_some_and f cap"
  by (cases cap) simp_all

lemma device_change_iff:
  "device_change cap old new = Some h \<longleftrightarrow>
     (if unwrap_or [] old = unwrap_or [] new then \<not> h
      else h \<and> set (unwrap_or [] old) \<noteq> set (unwrap_or [] new) \<and>
        (plugged old new \<noteq> {} \<longrightarrow> can hc_add cap) \<and> (plugged new old \<noteq> {} \<longrightarrow> can hc_remove cap))"
proof (cases "old = new")
  case True
  then show ?thesis by (auto simp: device_change_def)
next
  case False
  let ?old = "unwrap_or [] old" and ?new = "unwrap_or [] new"
  note dir = diff_direction_iff [of ?old ?new]
  show ?thesis
  proof (cases "diff_direction ?old ?new")
    case Unchanged
    then have "?old = ?new" using dir(4) by simp
    then show ?thesis using False Unchanged by (simp add: device_change_def)
  next
    case Add
    then have "plugged old new \<noteq> {} \<and> plugged new old = {}" "?old \<noteq> ?new" using dir(1) by auto
    then show ?thesis using False Add by (auto simp: device_change_def unwrap_map_option)
  next
    case Remove
    then have "plugged old new = {} \<and> plugged new old \<noteq> {}" "?old \<noteq> ?new" using dir(2) by auto
    then show ?thesis using False Remove by (auto simp: device_change_def unwrap_map_option)
  next
    case Mixed
    then have "plugged old new \<noteq> {} \<and> plugged new old \<noteq> {}" "?old \<noteq> ?new" using dir(3) by auto
    then show ?thesis using False Mixed by (auto simp: device_change_def unwrap_map_option)
  next
    case Reordered
    then have "set ?old = set ?new" "?old \<noteq> ?new" using dir(5) by auto
    then show ?thesis using False Reordered by (simp add: device_change_def)
  qed
qed

text \<open>A list of devices changes only by devices that the runtime can plug in and out.\<close>

definition pluggable :: "hotplug_capabilities option \<Rightarrow> 'a list option \<Rightarrow> 'a list option \<Rightarrow> bool" where
  "pluggable cap old new \<longleftrightarrow> unwrap_or [] old = unwrap_or [] new \<or>
     set (unwrap_or [] old) \<noteq> set (unwrap_or [] new) \<and>
     (plugged old new \<noteq> {} \<longrightarrow> can hc_add cap) \<and> (plugged new old \<noteq> {} \<longrightarrow> can hc_remove cap)"

lemma device_change_eq:
  "device_change cap old new = (if pluggable cap old new then Some (unwrap_or [] old \<noteq> unwrap_or [] new) else None)"
proof (cases "device_change cap old new")
  case None
  then have "\<not> pluggable cap old new"
    using device_change_iff [of cap old new True] device_change_iff [of cap old new False]
    by (auto simp: pluggable_def split: if_splits)
  then show ?thesis using None by simp
next
  case (Some h)
  then show ?thesis using device_change_iff [of cap old new h] by (auto simp: pluggable_def split: if_splits)
qed


end
