(* ===== verification/Replicaset.thy ===== *)
theory Replicaset
  imports Client_Api Change_Classifier
begin

text \<open>
  The ReplicaSet controller (\<^verbatim>\<open>tugboat-controller-manager/src/replicaset.rs\<close> and \<^verbatim>\<open>replicaset/\<close>): the
  number of Ships, the roll-out of template changes to them, and the status.
\<close>

section \<open>Ships of a ReplicaSet\<close>

abbreviation ship_name :: "ship \<Rightarrow> string option" where
  "ship_name ship \<equiv> meta_name (ship_meta ship)"

definition ship_matches_selector :: "ship \<Rightarrow> labels \<Rightarrow> bool" where
  "ship_matches_selector ship selector = is_some_and (\<lambda>m. matches_selector (om_labels m) selector) (ship_meta ship)"

definition owned_ships :: "ship list \<Rightarrow> labels \<Rightarrow> ship list" where
  "owned_ships ships selector = filter (\<lambda>ship. ship_matches_selector ship selector) ships"

definition is_owned_by_replicaset :: "ship \<Rightarrow> replica_set \<Rightarrow> bool" where
  "is_owned_by_replicaset ship rs = (case Option.bind (rs_meta rs) om_uid of
     None \<Rightarrow> False
   | Some rs_uid \<Rightarrow> is_some_and (\<lambda>m. list_ex (\<lambda>r. or_uid r = rs_uid) (om_owner_references m)) (ship_meta ship))"

definition ship_creation_sort_key :: "ship \<Rightarrow> int \<times> int \<times> string" where
  "ship_creation_sort_key ship = creation_sort_key (ship_meta ship) (ship_name ship)"

definition excess_ships_to_delete :: "ship list \<Rightarrow> nat \<Rightarrow> ship list" where
  "excess_ships_to_delete owned desired =
     (if length owned \<le> desired then []
      else let sorted = sort_desc ship_creation_sort_key (filter (\<lambda>ship. \<not> has_active_migration ship) owned)
           in take (min (length owned - desired) (length sorted)) sorted)"

definition ship_is_ready :: "ship \<Rightarrow> bool" where
  "ship_is_ready ship = is_some_and (\<lambda>status. list_ex (\<lambda>c. sc_status c = ''Running'') (st_conditions status)) (ship_status ship)"

definition build_replicaset_status :: "ship list \<Rightarrow> replica_set_status" where
  "build_replicaset_status owned = \<lparr>rss_replicas = wrap_i32 (int (length owned)),
     rss_ready_replicas = wrap_i32 (int (length (filter ship_is_ready owned)))\<rparr>"

section \<open>Creation and deletion\<close>

definition owner_reference_for_replicaset :: "replica_set \<Rightarrow> owner_reference" where
  "owner_reference_for_replicaset rs = owner_reference_for ''apps/v1'' ''ReplicaSet'' (rs_meta rs)"

text \<open>The random suffix is an argument.\<close>

definition build_ship :: "string \<Rightarrow> replica_set \<Rightarrow> ship_template_spec \<Rightarrow> ship" where
  "build_ship suffix rs template =
     (let metadata = unwrap_or object_meta_default (ts_metadata template);
          metadata = metadata\<lparr>om_name := Some (unwrap_or [] (meta_name (rs_meta rs)) @ ''-'' @ suffix),
            om_namespace := meta_namespace (rs_meta rs),
            om_labels := map_extend (om_labels metadata) (unwrap_or [] (map_option rs_selector (rs_spec rs))),
            om_owner_references := om_owner_references metadata @ [owner_reference_for_replicaset rs]\<rparr>
      in \<lparr>ship_meta = Some metadata, ship_spec = Some (unwrap_or ship_spec_default (ts_spec template)), ship_status = None\<rparr>)"

definition delete_ship_ignore_not_found :: "('s, ship) api \<Rightarrow> string \<Rightarrow> 's \<Rightarrow> (controller_error + unit) \<times> 's" where
  "delete_ship_ignore_not_found A n s = (case ap_delete A n s of
     (Inr _, s') \<Rightarrow> (Inr (), s')
   | (Inl e, s') \<Rightarrow> (if e = ApiError 404 then Inr () else Inl (ClientError e), s'))"

fun delete_ships :: "('s, ship) api \<Rightarrow> ship list \<Rightarrow> 's \<Rightarrow> (controller_error + unit) \<times> 's" where
  "delete_ships A [] s = (Inr (), s)"
| "delete_ships A (ship # ships) s = (case ship_name ship of
     None \<Rightarrow> delete_ships A ships s
   | Some n \<Rightarrow> try_step (delete_ship_ignore_not_found A n s) (\<lambda>_. delete_ships A ships))"

fun create_ships ::
  "('s, ship) api \<Rightarrow> ('s \<Rightarrow> string \<times> 's) \<Rightarrow> replica_set \<Rightarrow> ship_template_spec \<Rightarrow> nat \<Rightarrow> 's \<Rightarrow> (controller_error + unit) \<times> 's" where
  "create_ships A suffix rs template 0 s = (Inr (), s)"
| "create_ships A suffix rs template (Suc k) s = (case suffix s of (x, s1) \<Rightarrow>
     (case ap_create A (build_ship x rs template) s1 of
        (Inr _, s2) \<Rightarrow> create_ships A suffix rs template k s2
      | (Inl e, s2) \<Rightarrow> if e = ApiError 409 then create_ships A suffix rs template k s2 else (Inl (ClientError e), s2)))"

definition reconcile_ship_count ::
  "('s, ship) api \<Rightarrow> ('s \<Rightarrow> string \<times> 's) \<Rightarrow> replica_set \<Rightarrow> replica_set_spec \<Rightarrow> ship list \<Rightarrow> nat \<Rightarrow> 's \<Rightarrow>
   (controller_error + action option) \<times> 's" where
  "reconcile_ship_count A suffix rs spec matching desired s =
     try_step (create_ships A suffix rs (unwrap_or ship_template_default (rs_ship_template spec)) (desired - length matching) s) (\<lambda>_ s.
       if length matching \<le> desired then (Inr None, s)
       else
         (let excess = length matching - desired; to_delete = excess_ships_to_delete matching desired in
          try_step (delete_ships A to_delete s) (\<lambda>_ s.
            (Inr (if length to_delete < excess then Some (requeue 5) else None), s))))"

section \<open>Template updates\<close>

definition needs_spec_update :: "ship_spec \<Rightarrow> ship_spec \<Rightarrow> bool" where
  "needs_spec_update template_spec spec \<longleftrightarrow>
     normalize_service_account_defaults template_spec \<noteq>
     normalize_service_account_defaults (spec\<lparr>ss_node_name := ss_node_name template_spec,
       ss_scheduler_name := ss_scheduler_name template_spec, ss_target_node_name := ss_target_node_name template_spec\<rparr>)"

definition ship_needs_update :: "ship \<Rightarrow> ship_spec \<Rightarrow> bool" where
  "ship_needs_update ship template_spec = is_some_and (needs_spec_update template_spec) (ship_spec ship)"

definition apply_template_spec :: "ship \<Rightarrow> ship_spec \<Rightarrow> ship" where
  "apply_template_spec ship template_spec =
     (let current = unwrap_or ship_spec_default (ship_spec ship)
      in ship\<lparr>ship_spec := Some (template_spec\<lparr>ss_node_name := ss_node_name current,
           ss_scheduler_name := ss_scheduler_name current, ss_target_node_name := ss_target_node_name current\<rparr>)\<rparr>)"

definition update_strategy :: "replica_set \<Rightarrow> string option" where
  "update_strategy rs = Option.bind (rs_meta rs) (\<lambda>m. map_of (om_annotations m) ''tugboat.cloud/update-strategy'')"

definition migration_blocks_template_update :: "ship list \<Rightarrow> ship_spec \<Rightarrow> template_change_kind \<Rightarrow> bool" where
  "migration_blocks_template_update matching template_spec change_kind \<longleftrightarrow>
     (change_kind = InPlace \<or> change_kind = Hotplug) \<and>
     list_ex (\<lambda>ship. ship_needs_update ship template_spec \<and> has_active_migration ship) matching"

definition should_wait_for_ready_before_update :: "ship list \<Rightarrow> ship_spec \<Rightarrow> template_change_kind \<Rightarrow> bool" where
  "should_wait_for_ready_before_update matching template_spec change_kind \<longleftrightarrow>
     (change_kind = InPlace \<or> change_kind = Hotplug) \<and>
     list_ex (\<lambda>ship. ship_needs_update ship template_spec \<and> \<not> has_active_migration ship \<and> \<not> ship_is_ready ship) matching"

text \<open>The loop of \<^verbatim>\<open>apply_template_updates\<close>; its result is whether a Ship has been updated.\<close>

fun update_ships :: "('s, ship) api \<Rightarrow> ship_spec \<Rightarrow> bool \<Rightarrow> bool \<Rightarrow> bool \<Rightarrow> ship list \<Rightarrow> 's \<Rightarrow> (controller_error + bool) \<times> 's" where
  "update_ships A template_spec replace update_all updated_any [] s = (Inr updated_any, s)"
| "update_ships A template_spec replace update_all updated_any (ship # ships) s =
     (if has_active_migration ship \<or> \<not> ship_needs_update ship template_spec
      then update_ships A template_spec replace update_all updated_any ships s
      else case ship_name ship of
        None \<Rightarrow> update_ships A template_spec replace update_all updated_any ships s
      | Some n \<Rightarrow>
          (let updated = apply_template_spec ship template_spec in
           try_call ((if replace then ap_replace A else ap_patch A) n updated s) (\<lambda>_ s.
             if \<not> update_all then (Inr True, s)
             else update_ships A template_spec replace update_all True ships s)))"

definition apply_template_updates ::
  "('s, ship) api \<Rightarrow> ship list \<Rightarrow> ship_spec \<Rightarrow> bool \<Rightarrow> bool \<Rightarrow> 's \<Rightarrow> (controller_error + action option) \<times> 's" where
  "apply_template_updates A matching template_spec replace update_all s =
     try_step (update_ships A template_spec replace update_all False matching s) (\<lambda>updated_any s.
       (Inr (if updated_any then Some (requeue 5) else None), s))"

definition reconcile_template_updates ::
  "('s, ship) api \<Rightarrow> replica_set \<Rightarrow> ship list \<Rightarrow> ship_spec \<Rightarrow> template_change_kind \<Rightarrow> bool \<Rightarrow> 's \<Rightarrow>
   (controller_error + action option) \<times> 's" where
  "reconcile_template_updates A rs matching template_spec change_kind migration_blocks s = (case change_kind of
     NoChange \<Rightarrow> (Inr None, s)
   | RequiresRotation \<Rightarrow> apply_template_updates A matching template_spec True (update_strategy rs = Some ''all'') s
   | _ \<Rightarrow>
       try_step (apply_template_updates A matching template_spec False
           (update_strategy rs = Some ''all'' \<or> change_kind = Hotplug) s) (\<lambda>act s.
         (Inr (if act = None \<and> migration_blocks then Some (requeue 5) else act), s)))"

section \<open>The reconciler\<close>

text \<open>The APIs of the client that the reconciler uses, and the generator of suffixes.\<close>

record 's rs_client =
  rc_ships :: "string \<Rightarrow> ('s, ship) api"
  rc_replicasets :: "string \<Rightarrow> ('s, replica_set) api"
  rc_runtime_classes :: "('s, runtime_class) api"
  rc_suffix :: "'s \<Rightarrow> string \<times> 's"

definition resolve_runtime_class ::
  "('s, runtime_class) api \<Rightarrow> ship_template_spec option \<Rightarrow> 's \<Rightarrow> (controller_error + runtime_class option) \<times> 's" where
  "resolve_runtime_class A template s =
     (case filter_opt (\<lambda>n. n \<noteq> []) (map_option trim (Option.bind (Option.bind template ts_spec) ss_runtime_class)) of
        None \<Rightarrow> (Inr None, s)
      | Some n \<Rightarrow> try_call (ap_get A n s) (\<lambda>rc s. (Inr rc, s)))"

definition ships_change_kind :: "ship list \<Rightarrow> ship_template_spec \<Rightarrow> runtime_class option \<Rightarrow> template_change_kind" where
  "ships_change_kind matching desired_template runtime_class = (case filter_map ship_spec matching of
     [] \<Rightarrow> NoChange
   | current # _ \<Rightarrow> classify_template_change \<lparr>ts_metadata = None, ts_spec = Some current\<rparr> desired_template runtime_class)"

definition reconcile_replicaset_status ::
  "('s, replica_set) api \<Rightarrow> replica_set \<Rightarrow> ship list \<Rightarrow> nat \<Rightarrow> 's \<Rightarrow> (controller_error + action) \<times> 's" where
  "reconcile_replicaset_status A rs matching desired s =
     (let new_status = build_replicaset_status matching;
          act = (if rss_ready_replicas new_status < wrap_i32 (int desired) then requeue 5 else await_change)
      in if rs_status rs \<noteq> Some new_status
         then try_call (ap_replace_status A (unwrap_or [] (meta_name (rs_meta rs))) (rs\<lparr>rs_status := Some new_status\<rparr>) s)
           (\<lambda>_ s. (Inr act, s))
         else (Inr act, s))"

definition reconcile_applied :: "'s rs_client \<Rightarrow> replica_set \<Rightarrow> 's \<Rightarrow> (controller_error + action) \<times> 's" where
  "reconcile_applied C rs =
     expect (MissingNamespace ''ReplicaSet'') (meta_namespace (rs_meta rs)) (\<lambda>ns.
     expect (MissingReplicaSetSpec ns (unwrap_or [] (meta_name (rs_meta rs)))) (rs_spec rs) (\<lambda>spec s.
     let desired = nat (max 0 (unwrap_or 1 (rs_replicas spec))); A = rc_ships C ns in
     try_call (ap_list A s) (\<lambda>ships s.
     let matching = sort_key (\<lambda>ship. unwrap_or [] (ship_name ship)) (owned_ships ships (rs_selector spec)) in
     try_step (reconcile_ship_count A (rc_suffix C) rs spec matching desired s) (\<lambda>act s.
     case act of Some a \<Rightarrow> (Inr a, s) | None \<Rightarrow>
     let template_spec = unwrap_or ship_spec_default (Option.bind (rs_ship_template spec) ts_spec) in
     try_step (resolve_runtime_class (rc_runtime_classes C) (rs_ship_template spec) s) (\<lambda>runtime_class s.
     let change_kind = ships_change_kind matching (unwrap_or ship_template_default (rs_ship_template spec)) runtime_class;
         migration_blocks = migration_blocks_template_update matching template_spec change_kind in
     if should_wait_for_ready_before_update matching template_spec change_kind then (Inr (requeue 5), s)
     else try_step (reconcile_template_updates A rs matching template_spec change_kind migration_blocks s) (\<lambda>act s.
     case act of Some a \<Rightarrow> (Inr a, s) | None \<Rightarrow>
       reconcile_replicaset_status (rc_replicasets C ns) rs matching desired s))))))"

definition reconcile_deleted :: "'s rs_client \<Rightarrow> replica_set \<Rightarrow> 's \<Rightarrow> (controller_error + action) \<times> 's" where
  "reconcile_deleted C rs =
     expect (MissingNamespace ''ReplicaSet'') (meta_namespace (rs_meta rs)) (\<lambda>ns s.
     try_call (ap_list (rc_ships C ns) s) (\<lambda>ships s.
     try_step (delete_ships (rc_ships C ns) (filter (\<lambda>ship. is_owned_by_replicaset ship rs) ships) s) (\<lambda>_ s.
       (Inr await_change, s))))"

end
