(* ===== verification/Replicaset_Correct.thy ===== *)
theory Replicaset_Correct
  imports Replicaset "HOL-Library.Sublist"
begin

text \<open>
  Which calls the ReplicaSet controller makes, whatever the API server answers: how many Ships it
  creates, which it deletes, and which it updates.
\<close>

section \<open>An example\<close>

text \<open>
  A server that accepts every call and always lists the same objects, a ReplicaSet of two Ships, and
  three Ships of it, in the order of their creation; the last has the image of the template.
\<close>

definition accepting :: "'a list \<Rightarrow> ('s, 'a) api" where
  "accepting objects = \<lparr>ap_create = (\<lambda>v s. (Inr v, s)), ap_get = (\<lambda>n s. (Inr None, s)), ap_list = (\<lambda>s. (Inr objects, s)),
     ap_patch = (\<lambda>n v s. (Inr v, s)), ap_patch_status = (\<lambda>n v s. (Inr v, s)), ap_replace = (\<lambda>n v s. (Inr v, s)),
     ap_replace_status = (\<lambda>n v s. (Inr v, s)), ap_delete = (\<lambda>n s. (Inr None, s))\<rparr>"

definition example_member :: "string \<Rightarrow> int \<Rightarrow> string \<Rightarrow> ship" where
  "example_member n seconds img =
     \<lparr>ship_meta = Some (object_meta_default\<lparr>om_name := Some n, om_namespace := Some ''ns'', om_labels := [(''app'', ''web'')],
        om_creation_timestamp := Some \<lparr>t_seconds = seconds, t_nanos = 0\<rparr>\<rparr>),
      ship_spec = Some (ship_spec_default\<lparr>ss_image := img, ss_node_name := Some ''node''\<rparr>), ship_status = None\<rparr>"

definition example_members :: "ship list" where
  "example_members = [example_member ''a'' 1 ''img:1'', example_member ''b'' 2 ''img:1'', example_member ''c'' 3 ''img:2'']"

lemma example_idle [simp]: "\<not> has_active_migration (example_member n seconds img)"
  by (simp add: has_active_migration_def example_member_def)

definition example_rs_spec :: replica_set_spec where
  "example_rs_spec = \<lparr>rs_replicas = Some 3, rs_selector = [(''app'', ''web'')],
     rs_ship_template = Some \<lparr>ts_metadata = None, ts_spec = Some (ship_spec_default\<lparr>ss_image := ''img:2''\<rparr>)\<rparr>\<rparr>"

definition example_rs :: replica_set where
  "example_rs = \<lparr>rs_meta = Some (object_meta_default\<lparr>om_name := Some ''web'', om_namespace := Some ''ns''\<rparr>),
     rs_spec = Some example_rs_spec, rs_status = None\<rparr>"

definition example_rs_client :: "unit rs_client" where
  "example_rs_client = \<lparr>rc_ships = (\<lambda>ns. accepting (rev example_members)), rc_replicasets = (\<lambda>ns. accepting []),
     rc_runtime_classes = accepting [], rc_suffix = (\<lambda>s. (''x'', s))\<rparr>"

section \<open>The number of Ships\<close>

text \<open>What the deletion of surplus Ships chooses.\<close>

lemma excess_ships:
  fixes owned :: "ship list"
  defines "idle \<equiv> filter (\<lambda>ship. \<not> has_active_migration ship) owned"
  assumes "desired < length owned"
  shows "length (excess_ships_to_delete owned desired) = min (length owned - desired) (length idle)"
    and "mset (excess_ships_to_delete owned desired) \<subseteq># mset idle"
    and "\<forall>x \<in> set (excess_ships_to_delete owned desired). \<forall>y \<in># mset idle - mset (excess_ships_to_delete owned desired).
      ship_creation_sort_key y \<le> ship_creation_sort_key x"
proof -
  let ?sorted = "sort_desc ship_creation_sort_key idle" and ?k = "min (length owned - desired) (length idle)"
  have eq: "excess_ships_to_delete owned desired = take ?k ?sorted"
    using assms by (simp add: excess_ships_to_delete_def Let_def)
  have split: "mset idle = mset (take ?k ?sorted) + mset (drop ?k ?sorted)"
    by (metis append_take_drop_id mset_append mset_sort_desc)
  show "length (excess_ships_to_delete owned desired) = ?k" by (simp add: eq)
  show "mset (excess_ships_to_delete owned desired) \<subseteq># mset idle" by (simp add: eq split)
  have "sorted_wrt (\<lambda>x y. ship_creation_sort_key y \<le> ship_creation_sort_key x) (take ?k ?sorted @ drop ?k ?sorted)"
    using sorted_sort_desc [of ship_creation_sort_key idle] by simp
  then show "\<forall>x \<in> set (excess_ships_to_delete owned desired). \<forall>y \<in># mset idle - mset (excess_ships_to_delete owned desired).
      ship_creation_sort_key y \<le> ship_creation_sort_key x"
    unfolding sorted_wrt_append eq split by simp
qed

lemma create_calls:
  "create_ships (recording A) (unrecorded gen) rs template k (s, calls) = (r, s', calls') \<Longrightarrow>
   \<exists>xs. calls' = calls @ map (\<lambda>x. Create (build_ship x rs template)) xs \<and> length xs \<le> k \<and> (r = Inr () \<longrightarrow> length xs = k)"
proof (induction k arbitrary: s calls)
  case (Suc k)
  obtain x s1 where x: "gen s = (x, s1)" by fastforce
  obtain a s2 where a: "ap_create A (build_ship x rs template) s1 = (a, s2)" by fastforce
  let ?calls = "calls @ [Create (build_ship x rs template)]"
  show ?case
  proof (cases "a = Inl (ApiError 409) \<or> (\<exists>v. a = Inr v)")
    case True
    then have "create_ships (recording A) (unrecorded gen) rs template k (s2, ?calls) = (r, s', calls')"
      using Suc.prems x a by (auto simp: unrecorded_def)
    from Suc.IH [OF this] obtain xs where "calls' = calls @ map (\<lambda>x. Create (build_ship x rs template)) (x # xs)"
      "length (x # xs) \<le> Suc k \<and> (r = Inr () \<longrightarrow> length (x # xs) = Suc k)" by auto
    then show ?thesis by blast
  next
    case False
    then obtain e where "a = Inl e" "e \<noteq> ApiError 409" by (cases a) auto
    then have "calls' = calls @ map (\<lambda>x. Create (build_ship x rs template)) [x]" "r \<noteq> Inr ()"
      using Suc.prems x a by (auto simp: unrecorded_def)
    then show ?thesis by (intro exI [of _ "[x]"]) simp
  qed
qed simp

lemma delete_calls:
  "delete_ships (recording A) ships (s, calls) = (r, s', calls') \<Longrightarrow>
   \<exists>ns. prefix ns (filter_map ship_name ships) \<and> calls' = calls @ map Delete ns \<and>
     (r = Inr () \<longrightarrow> ns = filter_map ship_name ships)"
proof (induction ships arbitrary: s calls)
  case (Cons ship ships)
  show ?case
  proof (cases "ship_name ship")
    case None
    then show ?thesis using Cons.IH [of s calls] Cons.prems by simp
  next
    case (Some n)
    obtain a s1 where a: "ap_delete A n s = (a, s1)" by fastforce
    show ?thesis
    proof (cases "a = Inl (ApiError 404) \<or> (\<exists>v. a = Inr v)")
      case True
      then have "delete_ships (recording A) ships (s1, calls @ [Delete n]) = (r, s', calls')"
        using Cons.prems Some a by (auto simp: delete_ship_ignore_not_found_def try_step_def)
      from Cons.IH [OF this] obtain ns where "prefix ns (filter_map ship_name ships)" "calls' = calls @ map Delete (n # ns)"
        "r = Inr () \<longrightarrow> ns = filter_map ship_name ships" by auto
      then show ?thesis using Some by (intro exI [of _ "n # ns"]) simp
    next
      case False
      then obtain e where "a = Inl e" "e \<noteq> ApiError 404" by (cases a) auto
      then have "calls' = calls @ map Delete [n]" "r \<noteq> Inr ()"
        using Cons.prems Some a by (auto simp: delete_ship_ignore_not_found_def try_step_def)
      then show ?thesis using Some by (intro exI [of _ "[n]"]) simp
    qed
  qed
qed simp

text \<open>
  C13: Whatever the API server answers, the controller never creates more Ships than are missing and
  creates none if there are enough; every Ship it creates is built from the template.  If there are
  too many it deletes Ships of the set only, none with an active migration, at most the surplus,
  the youngest first; and a reconciliation without an error has made all of these calls.
\<close>

theorem scale_calls:
  assumes "reconcile_ship_count (recording A) (unrecorded gen) rs spec matching desired (s, []) = (r, s', calls)"
  shows "if length matching \<le> desired
    then \<exists>xs. calls = map (\<lambda>x. Create (build_ship x rs (unwrap_or ship_template_default (rs_ship_template spec)))) xs \<and>
      length xs \<le> desired - length matching \<and> (r = Inr None \<longrightarrow> length xs = desired - length matching)
    else \<exists>ships kept. mset ships + mset kept = mset (filter (\<lambda>ship. \<not> has_active_migration ship) matching) \<and>
      length ships = min (length matching - desired) (length (filter (\<lambda>ship. \<not> has_active_migration ship) matching)) \<and>
      (\<forall>x \<in> set ships. \<forall>y \<in> set kept. ship_creation_sort_key y \<le> ship_creation_sort_key x) \<and>
      (\<exists>ns. prefix ns (filter_map ship_name ships) \<and> calls = map Delete ns \<and>
        ((\<exists>act. r = Inr act) \<longrightarrow> ns = filter_map ship_name ships))"
proof (cases "length matching \<le> desired")
  case True
  let ?t = "unwrap_or ship_template_default (rs_ship_template spec)"
  obtain r0 s0 calls0 where c: "create_ships (recording A) (unrecorded gen) rs ?t (desired - length matching) (s, []) = (r0, s0, calls0)"
    by (metis surj_pair)
  then have "calls = calls0" "r = Inr None \<longrightarrow> r0 = Inr ()"
    using assms True by (auto simp: reconcile_ship_count_def try_step_def split: sum.splits)
  then show ?thesis using create_calls [OF c] True by auto
next
  case False
  let ?idle = "filter (\<lambda>ship. \<not> has_active_migration ship) matching" and ?ships = "excess_ships_to_delete matching desired"
  obtain r0 s0 calls0 where d: "delete_ships (recording A) ?ships (s, []) = (r0, s0, calls0)"
    by (metis surj_pair)
  then have calls: "calls = calls0" "(\<exists>act. r = Inr act) \<longrightarrow> r0 = Inr ()"
    using assms False by (auto simp: reconcile_ship_count_def try_step_def Let_def split: sum.splits)
  have less: "desired < length matching" using False by simp
  obtain kept where kept: "mset kept = mset ?idle - mset ?ships" using ex_mset by blast
  then have "mset ?ships + mset kept = mset ?idle" using excess_ships(2) [OF less] by simp
  moreover have "\<forall>x \<in> set ?ships. \<forall>y \<in> set kept. ship_creation_sort_key y \<le> ship_creation_sort_key x"
    using excess_ships(3) [OF less] kept by (metis set_mset_mset)
  moreover have "\<exists>ns. prefix ns (filter_map ship_name ?ships) \<and> calls = map Delete ns \<and>
        ((\<exists>act. r = Inr act) \<longrightarrow> ns = filter_map ship_name ?ships)"
    using delete_calls [OF d] calls by auto
  ultimately show ?thesis using excess_ships(1) [OF less] False by auto
qed

theorem scale_calls_witness:
  "\<exists>ships kept. mset ships + mset kept = mset (filter (\<lambda>ship. \<not> has_active_migration ship) example_members) \<and>
     length ships = 1 \<and> (\<forall>x \<in> set ships. \<forall>y \<in> set kept. ship_creation_sort_key y \<le> ship_creation_sort_key x) \<and>
     filter_map ship_name ships = [''c'']"
proof -
  have "reconcile_ship_count (recording (accepting [])) (unrecorded (\<lambda>s. (''x'', s))) example_rs example_rs_spec example_members 2 ((), []) =
    (Inr None, (), [Delete ''c''])"
    by code_simp
  from scale_calls [OF this] show ?thesis by (auto simp: example_members_def)
qed

section \<open>Template updates\<close>

text \<open>The client whose calls for Ships are recorded.\<close>

definition recording_ships :: "'s rs_client \<Rightarrow> ('s \<times> ship api_call list) rs_client" where
  "recording_ships C = \<lparr>rc_ships = (\<lambda>ns. recording (rc_ships C ns)), rc_replicasets = (\<lambda>ns. unrecording (rc_replicasets C ns)),
     rc_runtime_classes = unrecording (rc_runtime_classes C), rc_suffix = unrecorded (rc_suffix C)\<rparr>"

lemma recording_ships_simps [simp]:
  "rc_ships (recording_ships C) ns = recording (rc_ships C ns)"
  "rc_replicasets (recording_ships C) ns = unrecording (rc_replicasets C ns)"
  "rc_runtime_classes (recording_ships C) = unrecording (rc_runtime_classes C)"
  "rc_suffix (recording_ships C) = unrecorded (rc_suffix C)"
  by (simp_all add: recording_ships_def)

text \<open>The Ships an update is for.\<close>

definition outdated :: "ship_spec \<Rightarrow> ship list \<Rightarrow> ship list" where
  "outdated template_spec ships =
     filter (\<lambda>ship. \<not> has_active_migration ship \<and> ship_needs_update ship template_spec \<and> ship_name ship \<noteq> None) ships"

definition update_call :: "bool \<Rightarrow> ship_spec \<Rightarrow> ship \<Rightarrow> ship api_call" where
  "update_call replace template_spec ship =
     (if replace then Replace else Patch) (the (ship_name ship)) (apply_template_spec ship template_spec)"

lemma update_calls:
  "update_ships (recording A) t replace update_all any ships (s, calls) = (r, s', calls') \<Longrightarrow>
   \<exists>us. prefix us (outdated t ships) \<and> calls' = calls @ map (update_call replace t) us \<and> (\<not> update_all \<longrightarrow> length us \<le> 1) \<and>
     (\<forall>b. r = Inr b \<longrightarrow> us = (if update_all then outdated t ships else take 1 (outdated t ships)) \<and> (b \<longleftrightarrow> any \<or> us \<noteq> []))"
proof (induction ships arbitrary: s calls any)
  case Nil
  then show ?case by (intro exI [of _ "[]"]) (auto simp: outdated_def)
next
  case (Cons ship ships)
  show ?case
  proof (cases "has_active_migration ship \<or> \<not> ship_needs_update ship t \<or> ship_name ship = None")
    case True
    then have o: "outdated t (ship # ships) = outdated t ships" by (auto simp: outdated_def)
    have "update_ships (recording A) t replace update_all any ships (s, calls) = (r, s', calls')"
      using Cons.prems True by (auto split: if_splits)
    from Cons.IH [OF this] show ?thesis unfolding o .
  next
    case False
    then obtain n where n: "ship_name ship = Some n" by blast
    have o: "outdated t (ship # ships) = ship # outdated t ships" using False by (simp add: outdated_def)
    let ?calls = "calls @ [update_call replace t ship]"
    obtain a s1 where a: "(if replace then ap_replace A else ap_patch A) n (apply_template_spec ship t) s = (a, s1)" by fastforce
    then have call: "(if replace then ap_replace (recording A) else ap_patch (recording A)) n (apply_template_spec ship t) (s, calls) = (a, s1, ?calls)"
      using n by (cases replace) (simp_all add: update_call_def)
    show ?thesis
    proof (cases a)
      case (Inl e)
      then have "r = Inl (ClientError e)" "calls' = ?calls"
        using Cons.prems False n call by (auto simp: try_call_def Let_def)
      then show ?thesis by (intro exI [of _ "[ship]"]) (simp add: o)
    next
      case (Inr v)
      show ?thesis
      proof (cases update_all)
        case True
        then have "update_ships (recording A) t replace update_all True ships (s1, ?calls) = (r, s', calls')"
          using Cons.prems False n call Inr by (simp add: try_call_def Let_def)
        from Cons.IH [OF this] obtain us where "prefix us (outdated t ships)" "calls' = calls @ map (update_call replace t) (ship # us)"
          "\<forall>b. r = Inr b \<longrightarrow> us = outdated t ships \<and> b" using True by auto
        then show ?thesis using True by (intro exI [of _ "ship # us"]) (auto simp: o)
      next
        case all: False
        then have "r = Inr True" "calls' = ?calls"
          using Cons.prems False n call Inr by (auto simp: try_call_def Let_def)
        then show ?thesis using all by (intro exI [of _ "[ship]"]) (simp add: o)
      qed
    qed
  qed
qed

lemma apply_template_spec_settles:
  "ship_needs_update (apply_template_spec ship t) t = False"
  "map_option (\<lambda>sp. (ss_node_name sp, ss_scheduler_name sp, ss_target_node_name sp)) (ship_spec (apply_template_spec ship t)) =
     Some (let sp = unwrap_or ship_spec_default (ship_spec ship) in (ss_node_name sp, ss_scheduler_name sp, ss_target_node_name sp))"
  "ship_meta (apply_template_spec ship t) = ship_meta ship" "ship_status (apply_template_spec ship t) = ship_status ship"
  by (simp_all add: apply_template_spec_def ship_needs_update_def needs_spec_update_def Let_def)

lemma template_update_calls:
  assumes "reconcile_template_updates (recording A) rs matching t kind blocks (s, calls) = (r, s', calls')"
  defines "update_all \<equiv> update_strategy rs = Some ''all'' \<or> kind = Hotplug"
  shows "\<exists>us. prefix us (outdated t matching) \<and> calls' = calls @ map (update_call (kind = RequiresRotation) t) us \<and>
    (\<not> update_all \<longrightarrow> length us \<le> 1) \<and> (kind = NoChange \<longrightarrow> us = [])"
proof (cases "kind = NoChange")
  case True
  then show ?thesis using assms(1) by (intro exI [of _ "[]"]) (simp add: reconcile_template_updates_def)
next
  case False
  let ?all = "update_strategy rs = Some ''all'' \<or> kind = Hotplug"
  obtain r0 s0 calls0 where u: "update_ships (recording A) t (kind = RequiresRotation) ?all False matching (s, calls) = (r0, s0, calls0)"
    by (metis surj_pair)
  have "calls' = calls0"
    using False assms(1) u
    by (cases kind) (auto simp: reconcile_template_updates_def apply_template_updates_def try_step_def split: sum.splits)
  then show ?thesis using update_calls [OF u] False by (auto simp: update_all_def)
qed

lemma unrecorded_calls:
  "resolve_runtime_class (unrecording A) template (s, calls) = (r, s', calls') \<Longrightarrow> calls' = calls"
  "reconcile_replicaset_status (unrecording B) rs matching desired (s, calls) = (r', s', calls') \<Longrightarrow> calls' = calls"
  by (auto simp: resolve_runtime_class_def reconcile_replicaset_status_def try_call_def Let_def
      split: option.splits sum.splits prod.splits if_splits)

text \<open>The calls of a whole reconciliation after the list: first the count, then the updates.\<close>

lemma reconcile_ship_calls:
  assumes "meta_namespace (rs_meta rs) = Some ns" and "rs_spec rs = Some spec" and "ap_list (rc_ships C ns) s = (Inr ships, s1)"
    and run: "reconcile_applied (recording_ships C) rs (s, []) = (r, s', calls)"
  defines "matching \<equiv> sort_key (\<lambda>ship. unwrap_or [] (ship_name ship)) (owned_ships ships (rs_selector spec))"
    and "t \<equiv> unwrap_or ship_spec_default (Option.bind (rs_ship_template spec) ts_spec)"
    and "desired \<equiv> nat (max 0 (unwrap_or 1 (rs_replicas spec)))"
  shows "\<exists>c0 r0 s0. reconcile_ship_count (recording (rc_ships C ns)) (unrecorded (rc_suffix C)) rs spec matching desired (s1, []) = (r0, s0, c0) \<and>
    (calls = c0 \<or> (\<exists>s2 rc r1 s3. let kind = ships_change_kind matching (unwrap_or ship_template_default (rs_ship_template spec)) rc in
       \<not> should_wait_for_ready_before_update matching t kind \<and>
       reconcile_template_updates (recording (rc_ships C ns)) rs matching t kind (migration_blocks_template_update matching t kind) (s2, c0) = (r1, s3, calls)))"
proof -
  let ?A = "recording (rc_ships C ns)" and ?t = "unwrap_or ship_template_default (rs_ship_template spec)"
  obtain r0 s0 c0 where count: "reconcile_ship_count ?A (unrecorded (rc_suffix C)) rs spec matching desired (s1, []) = (r0, s0, c0)"
    by (metis surj_pair)
  have rest: "try_step (r0, s0, c0) (\<lambda>act s. case act of Some a \<Rightarrow> (Inr a, s) | None \<Rightarrow>
      try_step (resolve_runtime_class (unrecording (rc_runtime_classes C)) (rs_ship_template spec) s) (\<lambda>rc s.
      let kind = ships_change_kind matching ?t rc; blocks = migration_blocks_template_update matching t kind in
      if should_wait_for_ready_before_update matching t kind then (Inr (requeue 5), s)
      else try_step (reconcile_template_updates ?A rs matching t kind blocks s) (\<lambda>act s.
      case act of Some a \<Rightarrow> (Inr a, s) | None \<Rightarrow> reconcile_replicaset_status (unrecording (rc_replicasets C ns)) rs matching desired s)))
    = (r, s', calls)"
    using run count
    unfolding reconcile_applied_def expect_def try_call_def matching_def t_def desired_def Let_def assms(1,2) recording_ships_simps
    by (simp add: assms(3))
  show ?thesis
  proof (cases "r0 = Inr None")
    case False
    then have "calls = c0" using rest by (auto simp: try_step_def split: sum.splits option.splits)
    then show ?thesis using count by blast
  next
    case True
    obtain rc s2 c2 where rc: "resolve_runtime_class (unrecording (rc_runtime_classes C)) (rs_ship_template spec) (s0, c0) = (rc, s2, c2)"
      by (metis surj_pair)
    note [simp] = unrecorded_calls(1) [OF rc]
    show ?thesis
    proof (cases rc)
      case (Inl e)
      then have "calls = c0" using rest True rc by (simp add: try_step_def)
      then show ?thesis using count by blast
    next
      case (Inr k)
      let ?kind = "ships_change_kind matching ?t k"
      obtain r1 s3 c3 where u: "reconcile_template_updates ?A rs matching t ?kind (migration_blocks_template_update matching t ?kind) (s2, c0) = (r1, s3, c3)"
        by (metis surj_pair)
      have "calls = c0" if "should_wait_for_ready_before_update matching t ?kind"
        using rest True rc Inr that by (simp add: try_step_def Let_def)
      moreover have "calls = c3" if "\<not> should_wait_for_ready_before_update matching t ?kind"
        using rest True rc Inr that u unrecorded_calls(2) [of "rc_replicasets C ns" rs matching desired s3 c3]
        by (auto simp: try_step_def Let_def split: sum.splits option.splits)
      ultimately show ?thesis using count u by (auto simp: Let_def)
    qed
  qed
qed

fun is_update :: "'a api_call \<Rightarrow> bool" where
  "is_update (Patch n v) = True"
| "is_update (Replace n v) = True"
| "is_update _ = False"

lemma count_calls_no_update:
  assumes "reconcile_ship_count (recording A) (unrecorded gen) rs spec matching desired (s, []) = (r, s', calls)"
  shows "filter is_update calls = []"
proof -
  let ?t = "unwrap_or ship_template_default (rs_ship_template spec)"
  obtain r0 s0 c0 where c: "create_ships (recording A) (unrecorded gen) rs ?t (desired - length matching) (s, []) = (r0, s0, c0)"
    by (metis surj_pair)
  obtain r1 s1 c1 where d: "delete_ships (recording A) (excess_ships_to_delete matching desired) (s0, c0) = (r1, s1, c1)"
    by (metis surj_pair)
  have "calls = c0 \<or> calls = c1"
    using assms c d by (auto simp: reconcile_ship_count_def try_step_def Let_def split: sum.splits if_splits)
  then show ?thesis using create_calls [OF c] delete_calls [OF d] by (auto simp: filter_empty_conv)
qed

lemma filter_update_call [simp]: "filter is_update (map (update_call replace t) us) = map (update_call replace t) us"
  by (induction us) (simp_all add: update_call_def)



end
