(* ===== verification/Deployment.thy ===== *)
theory Deployment
  imports Replicaset
begin

text \<open>
  The Deployment controller (\<^verbatim>\<open>tugboat-controller-manager/src/deployment/\<close>): the hash of a template, the
  ReplicaSets of a Deployment, the targets of a rolling update, and the reconciler.  The conversions of
  \<^verbatim>\<open>serde_json\<close> and SHA-256 are parameters.
\<close>

section \<open>The hash of a template\<close>

record template_json =
  tj_to_value :: "ship_template_spec \<Rightarrow> string + json"
  tj_to_string :: "json \<Rightarrow> string + string"
  tj_sha256 :: "string \<Rightarrow> nat list"

fun canonicalize_json_value :: "json \<Rightarrow> json" where
  "canonicalize_json_value (JArray items) = JArray (map canonicalize_json_value items)"
| "canonicalize_json_value (JObject m) =
     JObject (fold (\<lambda>(key, v). obj_insert key v) (map (\<lambda>(key, v). (key, canonicalize_json_value v)) m) [])"
| "canonicalize_json_value v = v"

definition canonical_json_string :: "template_json \<Rightarrow> ship_template_spec \<Rightarrow> string" where
  "canonical_json_string J template = (case tj_to_value J template of
     Inl _ \<Rightarrow> []
   | Inr v \<Rightarrow> (case tj_to_string J (canonicalize_json_value v) of Inl _ \<Rightarrow> [] | Inr text \<Rightarrow> text))"

definition hex_digit :: "nat \<Rightarrow> char" where
  "hex_digit d = ''0123456789abcdef'' ! d"

text \<open>\<^verbatim>\<open>format!("{byte:02x}")\<close>\<close>

definition hex_byte :: "nat \<Rightarrow> string" where
  "hex_byte b = [hex_digit (b div 16 mod 16), hex_digit (b mod 16)]"

definition template_hash :: "template_json \<Rightarrow> ship_template_spec \<Rightarrow> string" where
  "template_hash J template = concat (map hex_byte (take 8 (tj_sha256 J (canonical_json_string J template))))"

definition replicaset_has_template_hash :: "replica_set \<Rightarrow> string \<Rightarrow> bool" where
  "replicaset_has_template_hash rs hash \<longleftrightarrow>
     is_some_and (\<lambda>v. v = hash) (Option.bind (rs_meta rs) (\<lambda>m. map_of (om_labels m) ship_template_hash_label)) \<or>
     is_some_and (\<lambda>v. v = hash) (Option.bind (rs_spec rs) (\<lambda>sp. map_of (rs_selector sp) ship_template_hash_label))"

abbreviation dep_name :: "deployment \<Rightarrow> string" where
  "dep_name dep \<equiv> unwrap_or [] (meta_name (dep_meta dep))"

definition deployment_template :: "deployment \<Rightarrow> controller_error + ship_template_spec" where
  "deployment_template dep =
     (let ns = unwrap_or [] (meta_namespace (dep_meta dep)) in
      case dep_spec dep of
        None \<Rightarrow> Inl (MissingDeploymentSpec ns (dep_name dep))
      | Some spec \<Rightarrow> (case dep_ship_template spec of
          None \<Rightarrow> Inl (MissingDeploymentTemplate ns (dep_name dep))
        | Some template \<Rightarrow> Inr template))"

definition deployment_template_hash :: "template_json \<Rightarrow> deployment \<Rightarrow> controller_error + string" where
  "deployment_template_hash J dep = map_sum id (template_hash J) (deployment_template dep)"

section \<open>ReplicaSets of a Deployment\<close>

abbreviation rs_name :: "replica_set \<Rightarrow> string option" where
  "rs_name rs \<equiv> meta_name (rs_meta rs)"

definition owner_reference_for_deployment :: "deployment \<Rightarrow> owner_reference" where
  "owner_reference_for_deployment dep = owner_reference_for ''apps/v1'' ''Deployment'' (dep_meta dep)"

definition is_owned_by_deployment :: "replica_set \<Rightarrow> deployment \<Rightarrow> bool" where
  "is_owned_by_deployment rs dep = is_controlled_by (rs_meta rs) (dep_meta dep) ''Deployment''"

definition managed_replicasets :: "replica_set list \<Rightarrow> deployment \<Rightarrow> replica_set list" where
  "managed_replicasets replicasets dep = filter (\<lambda>rs. is_owned_by_deployment rs dep) replicasets"

definition replicaset_creation_sort_key :: "replica_set \<Rightarrow> int \<times> int \<times> string" where
  "replicaset_creation_sort_key rs = creation_sort_key (rs_meta rs) (rs_name rs)"

definition active_replicaset :: "replica_set list \<Rightarrow> replica_set option" where
  "active_replicaset replicasets = max_by_key replicaset_creation_sort_key replicasets"

definition old_replicasets :: "replica_set list \<Rightarrow> string option \<Rightarrow> replica_set list" where
  "old_replicasets managed active_rs_name = filter (\<lambda>rs. rs_name rs \<noteq> active_rs_name) managed"

definition has_old_running_replicas :: "replica_set list \<Rightarrow> bool" where
  "has_old_running_replicas old = list_ex (\<lambda>rs.
     0 < unwrap_or 0 (case rs_status rs of Some st \<Rightarrow> Some (rss_replicas st) | None \<Rightarrow> Option.bind (rs_spec rs) rs_replicas)) old"

definition stale_replicasets_for_cleanup :: "replica_set list \<Rightarrow> nat \<Rightarrow> replica_set list" where
  "stale_replicasets_for_cleanup old limit =
     (let zeroed = sort_key replicaset_creation_sort_key (filter (\<lambda>rs.
            Option.bind (rs_spec rs) rs_replicas = Some 0 \<and> unwrap_or True (map_option (\<lambda>st. rss_replicas st = 0) (rs_status rs))) old)
      in take (length zeroed - min limit (length zeroed)) zeroed)"

definition revision_history_limit :: "deployment \<Rightarrow> nat" where
  "revision_history_limit dep = nat (max 0 (unwrap_or 0 (Option.bind (dep_spec dep) dep_revision_history_limit)))"

definition build_replicaset_with_replicas :: "deployment \<Rightarrow> string \<Rightarrow> int option \<Rightarrow> replica_set" where
  "build_replicaset_with_replicas dep hash replicas =
     (let spec = unwrap_or deployment_spec_default (dep_spec dep);
          selector = obj_insert ship_template_hash_label hash (dep_selector spec)
      in \<lparr>rs_meta = Some (object_meta_default\<lparr>om_name := Some (dep_name dep @ ''-'' @ hash),
            om_namespace := meta_namespace (dep_meta dep),
            om_labels := obj_insert ship_template_hash_label hash selector,
            om_owner_references := [owner_reference_for_deployment dep]\<rparr>),
          rs_spec = Some \<lparr>rs_replicas = replicas, rs_selector = selector, rs_ship_template = dep_ship_template spec\<rparr>,
          rs_status = None\<rparr>)"

definition build_replicaset :: "deployment \<Rightarrow> string \<Rightarrow> replica_set" where
  "build_replicaset dep hash = build_replicaset_with_replicas dep hash (Option.bind (dep_spec dep) dep_replicas)"

definition update_replicaset_for_in_place :: "replica_set \<Rightarrow> deployment \<Rightarrow> replica_set" where
  "update_replicaset_for_in_place active_rs dep =
     (let spec = unwrap_or deployment_spec_default (dep_spec dep)
      in active_rs\<lparr>rs_spec := Some ((unwrap_or replica_set_spec_default (rs_spec active_rs))\<lparr>
           rs_ship_template := dep_ship_template spec, rs_replicas := dep_replicas spec\<rparr>)\<rparr>)"

definition update_replicaset_replicas :: "replica_set \<Rightarrow> int option \<Rightarrow> replica_set option" where
  "update_replicaset_replicas active_rs replicas = (case rs_spec active_rs of
     None \<Rightarrow> None
   | Some spec \<Rightarrow>
       if rs_replicas spec = replicas then None
       else Some (active_rs\<lparr>rs_spec := Some (spec\<lparr>rs_replicas := replicas\<rparr>)\<rparr>))"

definition set_in_place_update_strategy :: "string option \<Rightarrow> replica_set \<Rightarrow> replica_set" where
  "set_in_place_update_strategy strategy rs =
     (let metadata = unwrap_or object_meta_default (rs_meta rs)
      in rs\<lparr>rs_meta := Some (metadata\<lparr>om_annotations := (case strategy of
           Some v \<Rightarrow> obj_insert ''tugboat.cloud/update-strategy'' v (om_annotations metadata)
         | None \<Rightarrow> obj_remove ''tugboat.cloud/update-strategy'' (om_annotations metadata))\<rparr>)\<rparr>)"

definition replicaset_spec_replicas :: "replica_set \<Rightarrow> int" where
  "replicaset_spec_replicas rs = unwrap_or 0 (Option.bind (rs_spec rs) rs_replicas)"

definition replicaset_status_replicas :: "replica_set \<Rightarrow> int" where
  "replicaset_status_replicas rs = (case rs_status rs of Some st \<Rightarrow> rss_replicas st | None \<Rightarrow> replicaset_spec_replicas rs)"

definition replicaset_ready_replicas :: "replica_set \<Rightarrow> int" where
  "replicaset_ready_replicas rs = unwrap_or 0 (map_option rss_ready_replicas (rs_status rs))"

definition rolling_update_limits :: "deployment \<Rightarrow> int \<times> int" where
  "rolling_update_limits dep =
     (let rolling = Option.bind (Option.bind (dep_spec dep) dep_strategy) ds_rolling_update
      in (max 0 (unwrap_or 1 (Option.bind rolling ru_max_surge)), max 0 (unwrap_or 1 (Option.bind rolling ru_max_unavailable))))"

definition sum_status_replicas :: "replica_set list \<Rightarrow> int" where
  "sum_status_replicas replicasets = i32_sum (map replicaset_status_replicas replicasets)"

definition sum_ready_replicas :: "replica_set list \<Rightarrow> int" where
  "sum_ready_replicas replicasets = i32_sum (map replicaset_ready_replicas replicasets)"

definition build_deployment_status :: "replica_set list \<Rightarrow> replica_set option \<Rightarrow> deployment_status" where
  "build_deployment_status managed active = \<lparr>dps_replicas = sum_status_replicas managed, dps_ready_replicas = sum_ready_replicas managed,
     dps_updated_replicas = unwrap_or 0 (map_option replicaset_status_replicas active)\<rparr>"

text \<open>The loop over the old ReplicaSets that hands out the removable replicas.\<close>

fun old_rotation_targets :: "int \<Rightarrow> replica_set list \<Rightarrow> (string \<times> int) list" where
  "old_rotation_targets can_remove [] = []"
| "old_rotation_targets can_remove (rs # old) =
     (if can_remove \<le> 0 then []
      else
        (let current = replicaset_spec_replicas rs in
         if current \<le> 0 then old_rotation_targets can_remove old
         else
           (let decrement = min current can_remove; target = i32_sub current decrement in
            if target \<noteq> current
            then (unwrap_or [] (rs_name rs), target) # old_rotation_targets (i32_sub can_remove decrement) old
            else old_rotation_targets can_remove old)))"

definition next_rolling_update_rotation_targets ::
  "deployment \<Rightarrow> replica_set \<Rightarrow> replica_set list \<Rightarrow> int option \<times> (string \<times> int) list \<times> bool" where
  "next_rolling_update_rotation_targets dep active_rs old =
     (let desired = max 0 (unwrap_or 1 (Option.bind (dep_spec dep) dep_replicas));
          (max_surge, max_unavailable) = rolling_update_limits dep;
          old_total = sum_status_replicas old; old_ready = sum_ready_replicas old;
          new_spec = replicaset_spec_replicas active_rs; new_total = replicaset_status_replicas active_rs;
          new_ready = replicaset_ready_replicas active_rs; total = i32_add old_total new_total;
          can_add = i32_sub (i32_add desired max_surge) total;
          target_new_spec = (if 0 < can_add \<and> new_spec < desired then Some (min (i32_add new_spec can_add) desired) else None);
          min_available = max 0 (i32_sub desired max_unavailable); available = i32_add old_ready new_ready;
          can_remove = (if target_new_spec \<noteq> None then 0 else max 0 (i32_sub available min_available));
          old_targets = old_rotation_targets can_remove old;
          progressed = (target_new_spec \<noteq> None \<or> old_targets \<noteq> []);
          rollout_complete = (old_total = 0 \<and> desired \<le> new_spec \<and> desired \<le> new_ready)
      in (target_new_spec, old_targets, progressed \<or> \<not> rollout_complete))"

section \<open>Writing ReplicaSets\<close>

definition create_replicaset_if_absent :: "('s, replica_set) api \<Rightarrow> replica_set \<Rightarrow> 's \<Rightarrow> (controller_error + unit) \<times> 's" where
  "create_replicaset_if_absent A rs s = (case ap_create A rs s of
     (Inr _, s) \<Rightarrow> (Inr (), s)
   | (Inl e, s) \<Rightarrow> (if e = ApiError 409 then Inr () else Inl (ClientError e), s))"

text \<open>The object that is written after a conflict.\<close>

definition merge_latest :: "replica_set \<Rightarrow> replica_set \<Rightarrow> replica_set" where
  "merge_latest updated latest = (case rs_meta updated of
     None \<Rightarrow> latest\<lparr>rs_spec := rs_spec updated\<rparr>
   | Some updated_meta \<Rightarrow>
       latest\<lparr>rs_spec := rs_spec updated, rs_meta := Some ((unwrap_or object_meta_default (rs_meta latest))\<lparr>
         om_labels := om_labels updated_meta, om_annotations := om_annotations updated_meta,
         om_owner_references := om_owner_references updated_meta\<rparr>)\<rparr>)"

definition replace_replicaset_if_changed ::
  "('s, replica_set) api \<Rightarrow> replica_set \<Rightarrow> replica_set \<Rightarrow> 's \<Rightarrow> (controller_error + bool) \<times> 's" where
  "replace_replicaset_if_changed A current updated s =
     (if updated = current then (Inr False, s)
      else case ap_replace A (unwrap_or [] (rs_name current)) updated s of
        (Inr _, s) \<Rightarrow> (Inr True, s)
      | (Inl e, s) \<Rightarrow>
          if e \<noteq> ApiError 409 then (Inl (ClientError e), s)
          else case rs_name current of
            None \<Rightarrow> (Inr False, s)
          | Some n \<Rightarrow>
              try_call (ap_get A n s) (\<lambda>found s. case found of
                None \<Rightarrow> (Inr False, s)
              | Some latest \<Rightarrow>
                  if rs_spec latest = rs_spec updated \<and>
                     map_option om_annotations (rs_meta latest) = map_option om_annotations (rs_meta updated)
                  then (Inr False, s)
                  else try_call (ap_replace A n (merge_latest updated latest) s) (\<lambda>_ s. (Inr True, s))))"

definition ensure_rotation_replicaset ::
  "template_json \<Rightarrow> ('s, replica_set) api \<Rightarrow> deployment \<Rightarrow> replica_set list \<Rightarrow> int option \<Rightarrow> 's \<Rightarrow>
   (controller_error + replica_set option) \<times> 's" where
  "ensure_rotation_replicaset J A dep managed initial_replicas s = (case deployment_template dep of
     Inl e \<Rightarrow> (Inl e, s)
   | Inr template \<Rightarrow>
       (let hash = template_hash J template in
        case find (\<lambda>rs. replicaset_has_template_hash rs hash) managed of
          Some existing_rs \<Rightarrow> (Inr (Some existing_rs), s)
        | None \<Rightarrow>
            try_step (create_replicaset_if_absent A (build_replicaset_with_replicas dep hash initial_replicas) s)
              (\<lambda>_ s. (Inr None, s))))"

section \<open>Strategies\<close>

abbreviation with_replicas :: "int option \<Rightarrow> replica_set \<Rightarrow> replica_set" where
  "with_replicas replicas rs \<equiv> rs\<lparr>rs_spec := Some ((unwrap_or replica_set_spec_default (rs_spec rs))\<lparr>rs_replicas := replicas\<rparr>)\<rparr>"

text \<open>The loop that scales the old ReplicaSets to zero; its result is whether one has changed.\<close>

fun scale_to_zero :: "('s, replica_set) api \<Rightarrow> bool \<Rightarrow> replica_set list \<Rightarrow> 's \<Rightarrow> (controller_error + bool) \<times> 's" where
  "scale_to_zero A changed [] s = (Inr changed, s)"
| "scale_to_zero A changed (rs # old) s =
     try_step (replace_replicaset_if_changed A rs (set_in_place_update_strategy None (with_replicas (Some 0) rs)) s)
       (\<lambda>c. scale_to_zero A (changed \<or> c) old)"

definition reconcile_recreate ::
  "template_json \<Rightarrow> ('s, replica_set) api \<Rightarrow> deployment \<Rightarrow> replica_set list \<Rightarrow> template_change_kind \<Rightarrow> 's \<Rightarrow>
   (controller_error + action) \<times> 's" where
  "reconcile_recreate J A dep managed change_kind s = (case change_kind of
     NoChange \<Rightarrow>
       (let active_rs = active_replicaset managed;
            old = old_replicasets managed (Option.bind active_rs rs_name);
            desired = unwrap_or 1 (dep_replicas (unwrap_or deployment_spec_default (dep_spec dep)))
        in if has_old_running_replicas old
           then try_step (scale_to_zero A False old s) (\<lambda>changed s. (Inr (if changed then requeue 2 else await_change), s))
           else case active_rs of
             None \<Rightarrow> (Inr await_change, s)
           | Some active_rs \<Rightarrow>
               try_step (replace_replicaset_if_changed A active_rs
                   (set_in_place_update_strategy None (with_replicas (Some desired) active_rs)) s)
                 (\<lambda>changed s. (Inr (if changed then requeue 2 else await_change), s)))
   | RequiresRotation \<Rightarrow>
       try_step (ensure_rotation_replicaset J A dep managed (Some 0) s) (\<lambda>found s. case found of
         None \<Rightarrow> (Inr (requeue 2), s)
       | Some active_rs \<Rightarrow>
           (let old = old_replicasets managed (rs_name active_rs);
                desired = unwrap_or 1 (Option.bind (dep_spec dep) dep_replicas)
            in if has_old_running_replicas old
               then try_step (scale_to_zero A False old s) (\<lambda>changed s. (Inr (if changed then requeue 2 else await_change), s))
               else case update_replicaset_replicas active_rs (Some desired) of
                 None \<Rightarrow> (Inr await_change, s)
               | Some updated_rs \<Rightarrow>
                   try_step (replace_replicaset_if_changed A active_rs (set_in_place_update_strategy None updated_rs) s)
                     (\<lambda>changed s. (Inr (if changed then requeue 2 else await_change), s))))
   | _ \<Rightarrow>
       (case active_replicaset managed of
          None \<Rightarrow> (case deployment_template_hash J dep of
            Inl e \<Rightarrow> (Inl e, s)
          | Inr hash \<Rightarrow> try_step (create_replicaset_if_absent A (build_replicaset dep hash) s) (\<lambda>_ s. (Inr await_change, s)))
        | Some active_rs \<Rightarrow>
            try_step (replace_replicaset_if_changed A active_rs
                (set_in_place_update_strategy (Some ''all'') (update_replicaset_for_in_place active_rs dep)) s)
              (\<lambda>_ s. (Inr await_change, s))))"

text \<open>The loop that scales down the first old ReplicaSet with a target; its result is whether there is one.\<close>

fun scale_down_old ::
  "('s, replica_set) api \<Rightarrow> (string \<times> int) list \<Rightarrow> replica_set list \<Rightarrow> 's \<Rightarrow> (controller_error + bool) \<times> 's" where
  "scale_down_old A targets [] s = (Inr False, s)"
| "scale_down_old A targets (rs # old) s =
     (case Option.bind (map_of targets (unwrap_or [] (rs_name rs))) (\<lambda>target. update_replicaset_replicas rs (Some target)) of
        None \<Rightarrow> scale_down_old A targets old s
      | Some updated_rs \<Rightarrow>
          try_step (replace_replicaset_if_changed A rs (set_in_place_update_strategy None updated_rs) s) (\<lambda>_ s. (Inr True, s)))"

definition create_initial_replicaset ::
  "template_json \<Rightarrow> ('s, replica_set) api \<Rightarrow> deployment \<Rightarrow> 's \<Rightarrow> (controller_error + action) \<times> 's" where
  "create_initial_replicaset J A dep s = (case deployment_template_hash J dep of
     Inl e \<Rightarrow> (Inl e, s)
   | Inr hash \<Rightarrow> try_step (create_replicaset_if_absent A (build_replicaset dep hash) s) (\<lambda>_ s. (Inr (requeue 2), s)))"

definition rotate_replicasets ::
  "template_json \<Rightarrow> ('s, replica_set) api \<Rightarrow> deployment \<Rightarrow> deployment_spec \<Rightarrow> replica_set list \<Rightarrow> 's \<Rightarrow>
   (controller_error + action) \<times> 's" where
  "rotate_replicasets J A dep spec managed s =
     (let initial_replicas = (if managed = [] then dep_replicas spec else Some 0) in
      try_step (ensure_rotation_replicaset J A dep managed initial_replicas s) (\<lambda>found s. case found of
        None \<Rightarrow> (Inr (requeue 2), s)
      | Some active_rs \<Rightarrow>
          (let old = old_replicasets managed (rs_name active_rs);
               (new_target, old_targets, should_requeue) = next_rolling_update_rotation_targets dep active_rs old
           in case Option.bind new_target (\<lambda>target. update_replicaset_replicas active_rs (Some target)) of
                Some updated_rs \<Rightarrow>
                  try_step (replace_replicaset_if_changed A active_rs (set_in_place_update_strategy None updated_rs) s)
                    (\<lambda>_ s. (Inr (requeue 2), s))
              | None \<Rightarrow>
                  try_step (scale_down_old A old_targets old s) (\<lambda>scaled s.
                    (Inr (if scaled \<or> should_requeue then requeue 2 else await_change), s)))))"

definition reconcile_rolling_update ::
  "template_json \<Rightarrow> ('s, replica_set) api \<Rightarrow> deployment \<Rightarrow> replica_set option \<Rightarrow> replica_set list \<Rightarrow> template_change_kind \<Rightarrow> 's \<Rightarrow>
   (controller_error + action) \<times> 's" where
  "reconcile_rolling_update J A dep active_rs previous change_kind =
     expect (MissingDeploymentSpec (unwrap_or [] (meta_namespace (dep_meta dep))) (dep_name dep)) (dep_spec dep) (\<lambda>spec s.
     case change_kind of
       NoChange \<Rightarrow>
         (case active_rs of
            None \<Rightarrow> create_initial_replicaset J A dep s
          | Some active_rs \<Rightarrow>
              (case update_replicaset_replicas active_rs (dep_replicas spec) of
                 None \<Rightarrow> (Inr await_change, s)
               | Some updated_rs \<Rightarrow>
                   try_step (replace_replicaset_if_changed A active_rs (set_in_place_update_strategy None updated_rs) s)
                     (\<lambda>_ s. (Inr await_change, s))))
     | RequiresRotation \<Rightarrow> rotate_replicasets J A dep spec ((case active_rs of None \<Rightarrow> [] | Some rs \<Rightarrow> [rs]) @ previous) s
     | _ \<Rightarrow>
         (case active_rs of
            None \<Rightarrow> create_initial_replicaset J A dep s
          | Some active_rs \<Rightarrow>
              try_step (replace_replicaset_if_changed A active_rs
                  (set_in_place_update_strategy None (update_replicaset_for_in_place active_rs dep)) s) (\<lambda>changed s.
                (Inr (if changed then requeue 2
                      else if replicaset_ready_replicas active_rs < max 0 (unwrap_or 1 (dep_replicas spec)) then requeue 5
                      else await_change), s))))"

section \<open>The reconciler\<close>

record 's dep_client =
  dc_deployments :: "string \<Rightarrow> ('s, deployment) api"
  dc_replicasets :: "string \<Rightarrow> ('s, replica_set) api"
  dc_runtime_classes :: "('s, runtime_class) api"

definition sync_deployment_status :: "('s, deployment) api \<Rightarrow> deployment \<Rightarrow> replica_set list \<Rightarrow> 's \<Rightarrow> (controller_error + unit) \<times> 's" where
  "sync_deployment_status A dep managed s =
     (let new_status = build_deployment_status managed (active_replicaset managed)
      in if dep_status dep = Some new_status then (Inr (), s)
         else try_call (ap_patch_status A (dep_name dep) (dep\<lparr>dep_status := Some new_status\<rparr>) s) (\<lambda>_ s. (Inr (), s)))"

fun delete_replicasets :: "('s, replica_set) api \<Rightarrow> replica_set list \<Rightarrow> 's \<Rightarrow> (controller_error + unit) \<times> 's" where
  "delete_replicasets A [] s = (Inr (), s)"
| "delete_replicasets A (rs # rss) s = try_call (ap_delete A (unwrap_or [] (rs_name rs)) s) (\<lambda>_. delete_replicasets A rss)"

definition rotation_change_kind :: "replica_set option \<Rightarrow> replica_set list \<Rightarrow> ship_template_spec \<Rightarrow> runtime_class option \<Rightarrow> template_change_kind" where
  "rotation_change_kind active_rs old template runtime_class =
     (let change_kind = unwrap_or RequiresRotation (map_option (\<lambda>rs.
            classify_template_change (unwrap_or ship_template_default (Option.bind (rs_spec rs) rs_ship_template)) template runtime_class) active_rs)
      in if change_kind = NoChange \<and> list_ex (\<lambda>rs. 0 < replicaset_spec_replicas rs \<or> 0 < replicaset_status_replicas rs) old
         then RequiresRotation else change_kind)"

definition reconcile_deployment_applied :: "template_json \<Rightarrow> 's dep_client \<Rightarrow> deployment \<Rightarrow> 's \<Rightarrow> (controller_error + action) \<times> 's" where
  "reconcile_deployment_applied J C dep =
     expect (MissingNamespace ''Deployment'') (meta_namespace (dep_meta dep)) (\<lambda>ns.
     expect (MissingDeploymentSpec ns (dep_name dep)) (dep_spec dep) (\<lambda>spec s.
     case deployment_template dep of Inl e \<Rightarrow> (Inl e, s) | Inr template \<Rightarrow>
     try_step (resolve_runtime_class (dc_runtime_classes C) (Some template) s) (\<lambda>runtime_class s.
     let A = dc_replicasets C ns in
     try_call (ap_list A s) (\<lambda>replicasets s.
     let managed = managed_replicasets replicasets dep;
         active_rs = active_replicaset managed;
         old = old_replicasets managed (Option.bind active_rs rs_name);
         stale = stale_replicasets_for_cleanup old (revision_history_limit dep);
         change_kind = rotation_change_kind active_rs old template runtime_class in
     try_step (if unwrap_or ''RollingUpdate'' (map_option ds_type (dep_strategy spec)) = ''Recreate''
         then reconcile_recreate J A dep managed change_kind s
         else reconcile_rolling_update J A dep active_rs old change_kind s) (\<lambda>act s.
     try_step (delete_replicasets A stale s) (\<lambda>_ s.
     let stale_names = filter_map rs_name stale;
         remaining = filter (\<lambda>rs. unwrap_or True (map_option (\<lambda>n. \<not> List.member stale_names n) (rs_name rs))) managed in
     try_step (sync_deployment_status (dc_deployments C ns) dep remaining s) (\<lambda>_ s. (Inr act, s))))))))"

definition reconcile_deployment_deleted :: "'s dep_client \<Rightarrow> deployment \<Rightarrow> 's \<Rightarrow> (controller_error + action) \<times> 's" where
  "reconcile_deployment_deleted C dep s =
     (let A = dc_replicasets C (unwrap_or [] (meta_namespace (dep_meta dep))) in
      try_call (ap_list A s) (\<lambda>replicasets s.
      try_step (delete_replicasets A (filter (\<lambda>rs. is_owned_by_deployment rs dep) replicasets) s) (\<lambda>_ s. (Inr await_change, s))))"

end
