(* ===== verification/Rollout.thy ===== *)
theory Rollout
  imports Deployment
begin

text \<open>
  What a rolling update of a Deployment guarantees: a reconciliation stays within the limits of the
  strategy whatever the API server answers, and repeated reconciliations complete the rotation.
\<close>

section \<open>Targets\<close>

text \<open>
  The status of a ReplicaSet is up to date: it has as many Ships as it is to have, some of them ready.
\<close>

definition up_to_date :: "replica_set \<Rightarrow> bool" where
  "up_to_date rs \<longleftrightarrow> rs_spec rs \<noteq> None \<and> replicaset_status_replicas rs = replicaset_spec_replicas rs \<and>
     0 \<le> replicaset_ready_replicas rs \<and> replicaset_ready_replicas rs \<le> replicaset_spec_replicas rs"

abbreviation spec_total :: "replica_set list \<Rightarrow> int" where
  "spec_total rss \<equiv> sum_list (map replicaset_spec_replicas rss)"

abbreviation ready_total :: "replica_set list \<Rightarrow> int" where
  "ready_total rss \<equiv> sum_list (map replicaset_ready_replicas rss)"

definition desired_replicas :: "deployment \<Rightarrow> int" where
  "desired_replicas dep = max 0 (unwrap_or 1 (Option.bind (dep_spec dep) dep_replicas))"

text \<open>All sums fit into 32 bits.\<close>

definition rollout_fits :: "deployment \<Rightarrow> replica_set list \<Rightarrow> bool" where
  "rollout_fits dep managed \<longleftrightarrow> desired_replicas dep + fst (rolling_update_limits dep) < 2 ^ 31 \<and>
     snd (rolling_update_limits dep) < 2 ^ 31 \<and> desired_replicas dep + fst (rolling_update_limits dep) + spec_total managed < 2 ^ 31"

lemma limits_nonneg: "0 \<le> fst (rolling_update_limits dep)" "0 \<le> snd (rolling_update_limits dep)" "0 \<le> desired_replicas dep"
  by (simp_all add: rolling_update_limits_def desired_replicas_def Let_def)

lemma totals_bounds:
  assumes "\<forall>rs \<in> set rss. up_to_date rs"
  shows "0 \<le> ready_total rss" "ready_total rss \<le> spec_total rss" "rs \<in> set rss \<Longrightarrow> replicaset_spec_replicas rs \<le> spec_total rss"
proof -
  show "0 \<le> ready_total rss" using assms by (intro sum_list_nonneg) (auto simp: up_to_date_def)
  show "ready_total rss \<le> spec_total rss" using assms by (intro sum_list_mono) (auto simp: up_to_date_def)
  show "replicaset_spec_replicas rs \<le> spec_total rss" if "rs \<in> set rss"
    using assms that by (intro member_le_sum_list) (auto simp: up_to_date_def)
qed

lemma totals_i32:
  assumes "\<forall>rs \<in> set rss. up_to_date rs" and "spec_total rss < 2 ^ 31"
  shows "sum_status_replicas rss = spec_total rss" "sum_ready_replicas rss = ready_total rss"
proof -
  have status: "map replicaset_status_replicas rss = map replicaset_spec_replicas rss" using assms by (simp add: up_to_date_def)
  show "sum_status_replicas rss = spec_total rss"
    using assms unfolding sum_status_replicas_def status by (intro i32_sum_id) (auto simp: up_to_date_def)
  show "sum_ready_replicas rss = ready_total rss"
    using assms totals_bounds(2) [OF assms(1)] by (auto simp: sum_ready_replicas_def up_to_date_def intro!: i32_sum_id)
qed

lemma old_targets_bound:
  assumes "(n, k) \<in> set (old_rotation_targets c old)" and "c < 2 ^ 31" and "\<forall>rs \<in> set old. replicaset_spec_replicas rs < 2 ^ 31"
  shows "\<exists>rs \<in> set old. n = unwrap_or [] (rs_name rs) \<and> 0 \<le> k \<and> k < replicaset_spec_replicas rs \<and> replicaset_spec_replicas rs - k \<le> c"
  using assms
proof (induction c old rule: old_rotation_targets.induct)
  case (2 c rs old)
  let ?cur = "replicaset_spec_replicas rs" and ?dec = "min (replicaset_spec_replicas rs) c"
  show ?case
  proof (cases "c \<le> 0 \<or> ?cur \<le> 0")
    case True
    then show ?thesis using 2 by (auto simp: Let_def split: if_splits)
  next
    case False
    then have sub: "i32_sub ?cur ?dec = ?cur - ?dec" "i32_sub c ?dec = c - ?dec" "?cur - ?dec \<noteq> ?cur" using 2(4-) by (auto intro!: i32_sub_id)
    then have "(n, k) = (unwrap_or [] (rs_name rs), ?cur - ?dec) \<or> (n, k) \<in> set (old_rotation_targets (c - ?dec) old)"
      using 2(4) False by (simp add: Let_def)
    then show ?thesis
    proof
      assume "(n, k) = (unwrap_or [] (rs_name rs), ?cur - ?dec)"
      then show ?thesis using False by auto
    next
      assume "(n, k) \<in> set (old_rotation_targets (c - ?dec) old)"
      then have "\<exists>rs \<in> set old. n = unwrap_or [] (rs_name rs) \<and> 0 \<le> k \<and> k < replicaset_spec_replicas rs \<and> replicaset_spec_replicas rs - k \<le> c - ?dec"
        using 2(2) [of ?cur ?dec "i32_sub ?cur ?dec"] 2(5-) False sub by auto
      then show ?thesis using False by fastforce
    qed
  qed
qed simp

lemma old_targets_nonempty:
  assumes "rs \<in> set old" and "0 < replicaset_spec_replicas rs" and "0 < c" and "\<forall>rs \<in> set old. replicaset_spec_replicas rs < 2 ^ 31"
  shows "old_rotation_targets c old \<noteq> []"
  using assms
proof (induction c old rule: old_rotation_targets.induct)
  case (2 c r old)
  let ?cur = "replicaset_spec_replicas r"
  have "i32_sub ?cur (min ?cur c) = ?cur - min ?cur c" if "0 < ?cur" using 2(6,7) that by (intro i32_sub_id) auto
  then show ?case using 2 by (auto simp: Let_def)
qed simp

text \<open>The targets without wrap-around.\<close>

lemma targets_eq:
  assumes "\<forall>rs \<in> set (a # old). up_to_date rs" and "rollout_fits dep (a # old)"
  defines "new \<equiv> replicaset_spec_replicas a" and "desired \<equiv> desired_replicas dep"
    and "surge \<equiv> fst (rolling_update_limits dep)" and "unavailable \<equiv> snd (rolling_update_limits dep)"
  defines "add \<equiv> desired + surge - (spec_total old + new)"
  shows "next_rolling_update_rotation_targets dep a old =
    (let nt = (if 0 < add \<and> new < desired then Some (min (new + add) desired) else None);
         remove = (if nt \<noteq> None then 0 else max 0 (ready_total (a # old) - max 0 (desired - unavailable)));
         ots = old_rotation_targets remove old
     in (nt, ots, nt \<noteq> None \<or> ots \<noteq> [] \<or> \<not> (spec_total old = 0 \<and> desired \<le> new \<and> desired \<le> replicaset_ready_replicas a)))"
proof -
  have old: "\<forall>rs \<in> set old. up_to_date rs" and a: "up_to_date a" using assms(1) by simp_all
  note b = totals_bounds [OF old] and all = totals_bounds [OF assms(1)] and nonneg = limits_nonneg [of dep]
  have ups: "0 \<le> new" "0 \<le> replicaset_ready_replicas a" "replicaset_ready_replicas a \<le> new"
    "replicaset_status_replicas a = new" "0 \<le> spec_total old"
    using a b(1,2) by (auto simp: up_to_date_def new_def)
  have fits: "desired + surge < 2 ^ 31" "unavailable < 2 ^ 31" "desired + surge + (new + spec_total old) < 2 ^ 31"
    "0 \<le> desired" "0 \<le> surge" "0 \<le> unavailable"
    using assms(2) nonneg by (simp_all add: rollout_fits_def new_def desired_def surge_def unavailable_def)
  have sums: "sum_status_replicas old = spec_total old" "sum_ready_replicas old = ready_total old"
    using totals_i32 [OF old] fits ups by auto
  have arith: "i32_add (spec_total old) new = spec_total old + new" "i32_add desired surge = desired + surge"
    "i32_sub (desired + surge) (spec_total old + new) = add" "i32_add new add = new + add"
    "i32_sub desired unavailable = desired - unavailable"
    "i32_add (ready_total old) (replicaset_ready_replicas a) = ready_total (a # old)"
    "i32_sub (ready_total (a # old)) (max 0 (desired - unavailable)) = ready_total (a # old) - max 0 (desired - unavailable)"
    using fits ups b(1,2) by (auto simp: add_def i32_add_id i32_sub_id)
  show ?thesis
    unfolding next_rolling_update_rotation_targets_def desired_replicas_def [symmetric] Let_def case_prod_beta sums ups(4)
      new_def [symmetric] desired_def [symmetric] surge_def [symmetric] unavailable_def [symmetric] arith
    by (simp add: disj_ac)
qed

lemma targets_bounds:
  assumes "\<forall>rs \<in> set (a # old). up_to_date rs" and "rollout_fits dep (a # old)"
    and "next_rolling_update_rotation_targets dep a old = (nt, ots, rq)"
  shows "nt = Some k \<Longrightarrow> replicaset_spec_replicas a < k \<and> k \<le> desired_replicas dep \<and>
      k + spec_total old \<le> desired_replicas dep + fst (rolling_update_limits dep)"
    and "(n, k) \<in> set ots \<Longrightarrow> \<exists>rs \<in> set old. n = unwrap_or [] (rs_name rs) \<and> 0 \<le> k \<and> k < replicaset_spec_replicas rs \<and>
      desired_replicas dep - snd (rolling_update_limits dep) \<le> ready_total (a # old) - (replicaset_spec_replicas rs - k)"
proof -
  note eq = assms(3) [unfolded targets_eq [OF assms(1,2)] Let_def]
  show "replicaset_spec_replicas a < k \<and> k \<le> desired_replicas dep \<and> k + spec_total old \<le> desired_replicas dep + fst (rolling_update_limits dep)"
    if "nt = Some k"
    using eq that by (auto split: if_splits)
  show "\<exists>rs \<in> set old. n = unwrap_or [] (rs_name rs) \<and> 0 \<le> k \<and> k < replicaset_spec_replicas rs \<and>
      desired_replicas dep - snd (rolling_update_limits dep) \<le> ready_total (a # old) - (replicaset_spec_replicas rs - k)"
    if "(n, k) \<in> set ots"
  proof -
    define remove where "remove = ready_total (a # old) - max 0 (desired_replicas dep - snd (rolling_update_limits dep))"
    have ots: "ots = old_rotation_targets (max 0 remove) old \<or> ots = old_rotation_targets 0 old"
      using eq by (auto simp: remove_def)
    have "old_rotation_targets 0 old = []" by (cases old) simp_all
    then have "(n, k) \<in> set (old_rotation_targets (max 0 remove) old)" using ots that by auto
    moreover have "spec_total (a # old) < 2 ^ 31" "ready_total (a # old) < 2 ^ 31"
      using assms(2) limits_nonneg [of dep] totals_bounds(2) [OF assms(1)] by (auto simp: rollout_fits_def)
    moreover from this have "max 0 remove < 2 ^ 31" by (auto simp: remove_def)
    moreover have "\<forall>rs \<in> set old. replicaset_spec_replicas rs < 2 ^ 31"
      using calculation(2) totals_bounds(3) [OF assms(1)] by fastforce
    ultimately obtain rs where "rs \<in> set old" "n = unwrap_or [] (rs_name rs)" "0 \<le> k" "k < replicaset_spec_replicas rs"
      "replicaset_spec_replicas rs - k \<le> max 0 remove"
      using old_targets_bound by blast
    then show ?thesis by (intro bexI [of _ rs]) (auto simp: remove_def)
  qed
qed

section \<open>Example\<close>

text \<open>A Deployment of three Ships with one surplus Ship allowed, its old ReplicaSet and the new one without replicas.\<close>

definition example_json :: template_json where
  "example_json = \<lparr>tj_to_value = (\<lambda>_. Inr JNull), tj_to_string = (\<lambda>_. Inr ''null''), tj_sha256 = (\<lambda>_. replicate 32 255)\<rparr>"

definition example_deployment :: deployment where
  "example_deployment = \<lparr>dep_meta = Some (object_meta_default\<lparr>om_name := Some ''web'', om_namespace := Some ''ns''\<rparr>),
     dep_spec = Some \<lparr>dep_replicas = Some 3, dep_selector = [], dep_ship_template = Some ship_template_default,
       dep_strategy = Some \<lparr>ds_type = ''RollingUpdate'', ds_rolling_update = Some \<lparr>ru_max_unavailable = Some 0, ru_max_surge = Some 1\<rparr>\<rparr>,
       dep_revision_history_limit = None\<rparr>,
     dep_status = None\<rparr>"

definition example_replicaset :: "string \<Rightarrow> string \<Rightarrow> int \<Rightarrow> replica_set" where
  "example_replicaset n hash k = \<lparr>rs_meta = Some (object_meta_default\<lparr>om_name := Some n, om_labels := [(''ship-template-hash'', hash)]\<rparr>),
     rs_spec = Some \<lparr>rs_replicas = Some k, rs_selector = [(''ship-template-hash'', hash)], rs_ship_template = None\<rparr>,
     rs_status = Some \<lparr>rss_replicas = k, rss_ready_replicas = k\<rparr>\<rparr>"

definition example_replicasets :: "replica_set list" where
  "example_replicasets = [example_replicaset ''web-new'' ''ffffffffffffffff'' 0, example_replicaset ''web-old'' ''0000000000000000'' 3]"

lemma example_hash: "template_hash example_json ship_template_default = ''ffffffffffffffff''"
  by code_simp

lemma example_rollout:
  "deployment_template example_deployment = Inr ship_template_default"
  "rolling_update_limits example_deployment = (1, 0)" "desired_replicas example_deployment = 3"
  "replicaset_spec_replicas (example_replicaset n hash k) = k" "replicaset_ready_replicas (example_replicaset n hash k) = k"
  "replicaset_status_replicas (example_replicaset n hash k) = k" "rs_name (example_replicaset n hash k) = Some n"
  "rs_spec (example_replicaset n hash k) = Some \<lparr>rs_replicas = Some k, rs_selector = [(''ship-template-hash'', hash)], rs_ship_template = None\<rparr>"
  by (simp_all add: deployment_template_def example_deployment_def rolling_update_limits_def desired_replicas_def example_replicaset_def
      replicaset_spec_replicas_def replicaset_ready_replicas_def replicaset_status_replicas_def)

section \<open>Limits\<close>

text \<open>The calls write one ReplicaSet, with \<open>k\<close> replicas.\<close>

definition scales :: "replica_set \<Rightarrow> int \<Rightarrow> replica_set api_call list \<Rightarrow> bool" where
  "scales rs k calls \<longleftrightarrow> (\<forall>c \<in> set calls. \<exists>v. c = Replace (unwrap_or [] (rs_name rs)) v \<and>
     rs_spec v = map_option (\<lambda>sp. sp\<lparr>rs_replicas := Some k\<rparr>) (rs_spec rs))"

lemma replace_calls:
  assumes "replace_replicaset_if_changed (recording A) current upd (s, calls) = (r, s', calls')"
  shows "\<exists>cs. calls' = calls @ cs \<and> (\<forall>c \<in> set cs. \<exists>v. c = Replace (unwrap_or [] (rs_name current)) v \<and> rs_spec v = rs_spec upd)"
proof -
  have "rs_spec (merge_latest upd latest) = rs_spec upd" for latest by (simp add: merge_latest_def split: option.split)
  then show ?thesis
    using assms by (auto simp: replace_replicaset_if_changed_def try_call_def split: if_splits prod.splits sum.splits option.splits)
qed

lemma update_replicas_Some:
  assumes "update_replicaset_replicas rs (Some k) = Some upd"
  shows "rs_spec (set_in_place_update_strategy st upd) = map_option (\<lambda>sp. sp\<lparr>rs_replicas := Some k\<rparr>) (rs_spec rs)"
  using assms by (auto simp: update_replicaset_replicas_def set_in_place_update_strategy_def Let_def split: option.splits if_splits)

lemma scale_calls_of:
  assumes "update_replicaset_replicas rs (Some k) = Some upd"
    and "replace_replicaset_if_changed (recording A) rs (set_in_place_update_strategy None upd) (s, calls) = (r, s', calls')"
  shows "\<exists>cs. calls' = calls @ cs \<and> scales rs k cs"
  using replace_calls [OF assms(2)] update_replicas_Some [OF assms(1)] unfolding scales_def by metis

lemma scale_down_calls:
  "scale_down_old (recording A) ots old (s, calls) = (r, s', calls') \<Longrightarrow>
   calls' = calls \<or> (\<exists>rs \<in> set old. \<exists>k cs. map_of ots (unwrap_or [] (rs_name rs)) = Some k \<and> calls' = calls @ cs \<and> scales rs k cs)"
proof (induction old)
  case (Cons rs old)
  show ?case
  proof (cases "Option.bind (map_of ots (unwrap_or [] (rs_name rs))) (\<lambda>k. update_replicaset_replicas rs (Some k))")
    case None
    then show ?thesis using Cons by auto
  next
    case (Some upd)
    then obtain k where k: "map_of ots (unwrap_or [] (rs_name rs)) = Some k" "update_replicaset_replicas rs (Some k) = Some upd"
      by (auto simp: bind_eq_Some_conv)
    obtain r0 s0 c0 where run: "replace_replicaset_if_changed (recording A) rs (set_in_place_update_strategy None upd) (s, calls) = (r0, s0, c0)"
      by (metis surj_pair)
    then have "calls' = c0" using Cons.prems Some by (auto simp: try_step_def split: sum.splits)
    then show ?thesis using scale_calls_of [OF k(2) run] k(1) by auto
  qed
qed simp

lemma create_if_absent_calls:
  "create_replicaset_if_absent (recording A) rs (s, calls) = (r, s', calls') \<Longrightarrow> calls' = calls @ [Create rs]"
  by (auto simp: create_replicaset_if_absent_def split: prod.splits sum.splits)

text \<open>The calls of a rotation.\<close>

lemma rotate_calls:
  assumes run: "rotate_replicasets J (recording A) dep spec managed (s, []) = (r, s', calls)"
    and template: "deployment_template dep = Inr template"
  shows "case find (\<lambda>rs. replicaset_has_template_hash rs (template_hash J template)) managed of
      None \<Rightarrow> calls = [Create (build_replicaset_with_replicas dep (template_hash J template) (if managed = [] then dep_replicas spec else Some 0))]
    | Some a \<Rightarrow> (case next_rolling_update_rotation_targets dep a (old_replicasets managed (rs_name a)) of (nt, ots, rq) \<Rightarrow>
        calls = [] \<or> (\<exists>k. nt = Some k \<and> scales a k calls) \<or>
        (\<exists>rs \<in> set (old_replicasets managed (rs_name a)). \<exists>k. map_of ots (unwrap_or [] (rs_name rs)) = Some k \<and> scales rs k calls))"
proof (cases "find (\<lambda>rs. replicaset_has_template_hash rs (template_hash J template)) managed")
  case None
  let ?rs = "build_replicaset_with_replicas dep (template_hash J template) (if managed = [] then dep_replicas spec else Some 0)"
  obtain r0 s0 c0 where c: "create_replicaset_if_absent (recording A) ?rs (s, []) = (r0, s0, c0)" by (metis surj_pair)
  then have "calls = c0"
    using run template None by (auto simp: rotate_replicasets_def ensure_rotation_replicaset_def try_step_def Let_def split: sum.splits)
  then show ?thesis using None create_if_absent_calls [OF c] by simp
next
  case (Some a)
  let ?old = "old_replicasets managed (rs_name a)"
  obtain nt ots rq where t: "next_rolling_update_rotation_targets dep a ?old = (nt, ots, rq)" by (metis surj_pair)
  have body: "(case Option.bind nt (\<lambda>k. update_replicaset_replicas a (Some k)) of
      Some upd \<Rightarrow> try_step (replace_replicaset_if_changed (recording A) a (set_in_place_update_strategy None upd) (s, [])) (\<lambda>_ s. (Inr (requeue 2), s))
    | None \<Rightarrow> try_step (scale_down_old (recording A) ots ?old (s, [])) (\<lambda>scaled s. (Inr (if scaled \<or> rq then requeue 2 else await_change), s))) = (r, s', calls)"
    using run template Some t by (simp add: rotate_replicasets_def ensure_rotation_replicaset_def try_step_def)
  show ?thesis
  proof (cases "Option.bind nt (\<lambda>k. update_replicaset_replicas a (Some k))")
    case None
    obtain r0 s0 c0 where d: "scale_down_old (recording A) ots ?old (s, []) = (r0, s0, c0)" by (metis surj_pair)
    then have "calls = c0" using body None by (auto simp: try_step_def split: sum.splits)
    then show ?thesis using scale_down_calls [OF d] Some t by auto
  next
    case upd: (Some upd)
    then obtain k where k: "nt = Some k" "update_replicaset_replicas a (Some k) = Some upd" by (auto simp: bind_eq_Some_conv)
    obtain r0 s0 c0 where run: "replace_replicaset_if_changed (recording A) a (set_in_place_update_strategy None upd) (s, []) = (r0, s0, c0)"
      by (metis surj_pair)
    then have "calls = c0" using body upd by (auto simp: try_step_def split: sum.splits)
    then show ?thesis using scale_calls_of [OF k(2) run] Some t k(1) by auto
  qed
qed

lemma old_replicasets_remove1:
  "distinct (map rs_name managed) \<Longrightarrow> a \<in> set managed \<Longrightarrow> old_replicasets managed (rs_name a) = remove1 a managed"
proof (induction managed)
  case (Cons rs managed)
  show ?case
  proof (cases "rs = a")
    case True
    then have "\<forall>r \<in> set managed. rs_name r \<noteq> rs_name a" using Cons.prems(1) by (auto simp: image_iff)
    then show ?thesis using True by (simp add: old_replicasets_def)
  next
    case False
    then have "rs_name rs \<noteq> rs_name a" using Cons.prems by force
    then show ?thesis using False Cons by (simp add: old_replicasets_def)
  qed
qed simp

lemma managed_sum:
  fixes f :: "replica_set \<Rightarrow> int"
  assumes "distinct (map rs_name managed)" and "a \<in> set managed"
  shows "sum_list (map f managed) = f a + sum_list (map f (old_replicasets managed (rs_name a)))"
  using assms by (simp add: old_replicasets_remove1 sum_list_map_remove1)

lemma find_SomeD: "find P xs = Some x \<Longrightarrow> x \<in> set xs \<and> P x"
  by (induction xs) (auto split: if_splits)

lemma same_name:
  "distinct (map rs_name managed) \<Longrightarrow> rs \<in> set managed \<Longrightarrow> rs' \<in> set managed \<Longrightarrow> rs_name rs = rs_name rs' \<Longrightarrow> rs = rs'"
  by (auto simp: distinct_map dest: inj_onD)

lemma disj_third: "\<not> P \<Longrightarrow> \<not> Q \<Longrightarrow> P \<or> Q \<or> R \<Longrightarrow> R"
  by blast

lemma unwrap_inj: "unwrap_or d y = unwrap_or d x \<Longrightarrow> x \<noteq> None \<Longrightarrow> y \<noteq> None \<Longrightarrow> x = y"
  by auto

text \<open>
  C3: Whatever the API server answers, one step of a rolling update over ReplicaSets with current
  statuses creates the new ReplicaSet, without replicas if there is an older one, or writes a single
  ReplicaSet, or none.  If it scales up, the Deployment has at most the desired number of Ships and the
  allowed surge, and the ReplicaSet not more than the desired number; if it scales down, the Ships
  that are ready are still enough even if all removed Ships are ready ones.
\<close>

theorem rolling_step_within_limits:
  assumes "distinct (map rs_name (active # previous))" and "\<forall>rs \<in> set (active # previous). up_to_date rs \<and> rs_name rs \<noteq> None"
    and "rollout_fits dep (active # previous)" and "deployment_template dep = Inr template"
    and "reconcile_rolling_update J (recording A) dep (Some active) previous RequiresRotation (s, []) = (r, s', calls)"
  shows "calls = [] \<or> (\<exists>rs. calls = [Create rs] \<and> replicaset_spec_replicas rs = 0) \<or>
    (\<exists>rs \<in> set (active # previous). \<exists>k. 0 \<le> k \<and> scales rs k calls \<and>
       (if replicaset_spec_replicas rs < k
        then k \<le> desired_replicas dep \<and>
          spec_total (active # previous) - replicaset_spec_replicas rs + k \<le> desired_replicas dep + fst (rolling_update_limits dep)
        else desired_replicas dep - snd (rolling_update_limits dep) \<le>
          ready_total (active # previous) - (replicaset_spec_replicas rs - k)))"
proof -
  let ?managed = "active # previous" and ?hash = "template_hash J template"
  obtain spec where "dep_spec dep = Some spec"
    using assms(4) by (auto simp: deployment_template_def Let_def split: option.splits)
  then have run: "rotate_replicasets J (recording A) dep spec ?managed (s, []) = (r, s', calls)"
    using assms(5) by (simp add: reconcile_rolling_update_def expect_def)
  note calls = rotate_calls [OF run assms(4)]
  show ?thesis
  proof (cases "find (\<lambda>rs. replicaset_has_template_hash rs ?hash) ?managed")
    case None
    then show ?thesis using calls
      by (auto simp: build_replicaset_with_replicas_def replicaset_spec_replicas_def Let_def split: if_splits)
  next
    case (Some a)
    let ?old = "old_replicasets ?managed (rs_name a)"
    have a: "a \<in> set ?managed" using find_SomeD [OF Some] by blast
    have old: "set ?old \<subseteq> set ?managed" by (auto simp: old_replicasets_def)
    note sum = managed_sum [OF assms(1) a]
    have current: "\<forall>rs \<in> set (a # ?old). up_to_date rs" using assms(2) a old by auto
    have fits: "rollout_fits dep (a # ?old)" using assms(3) sum [of replicaset_spec_replicas] by (simp add: rollout_fits_def)
    obtain nt ots rq where t: "next_rolling_update_rotation_targets dep a ?old = (nt, ots, rq)" by (metis surj_pair)
    note bounds = targets_bounds [OF current fits t]
    from calls [unfolded Some option.case t prod.case] consider "calls = []" | k where "nt = Some k" "scales a k calls"
      | rs k where "rs \<in> set ?old" "map_of ots (unwrap_or [] (rs_name rs)) = Some k" "scales rs k calls"
      by blast
    then show ?thesis
    proof cases
      case 2
      moreover have "0 \<le> replicaset_spec_replicas a" using current by (auto simp: up_to_date_def)
      ultimately show ?thesis using bounds(1) [of k] a sum [of replicaset_spec_replicas]
        by (intro disjI2 bexI [of _ a] exI [of _ k]) auto
    next
      case 3
      obtain rs' where "rs' \<in> set ?old" "unwrap_or [] (rs_name rs) = unwrap_or [] (rs_name rs')" and k: "0 \<le> k" "k < replicaset_spec_replicas rs'"
        "desired_replicas dep - snd (rolling_update_limits dep) \<le> ready_total (a # ?old) - (replicaset_spec_replicas rs' - k)"
        using bounds(2) [OF map_of_SomeD [OF 3(2)]] by (elim bexE conjE) (rule that)
      moreover have "rs' = rs"
      proof (rule same_name [OF assms(1)])
        show in_managed: "rs' \<in> set ?managed" "rs \<in> set ?managed" using calculation(1) 3(1) old by blast+
        show "rs_name rs' = rs_name rs"
          using assms(2) [rule_format, OF in_managed(1)] assms(2) [rule_format, OF in_managed(2)] by (intro unwrap_inj [OF calculation(2)]) simp_all
      qed
      ultimately show ?thesis using 3 old sum [of replicaset_ready_replicas]
        by (intro disjI2 bexI [of _ rs] exI [of _ k]) auto
    qed simp
  qed
qed

section \<open>Completion\<close>

text \<open>
  A server whose ReplicaSets are scaled at once: a written ReplicaSet gets the status that its
  controller reports when all its Ships run.
\<close>

definition settle :: "replica_set \<Rightarrow> replica_set" where
  "settle rs = rs\<lparr>rs_status := Some \<lparr>rss_replicas = replicaset_spec_replicas rs, rss_ready_replicas = replicaset_spec_replicas rs\<rparr>\<rparr>"

definition overwrite :: "string \<Rightarrow> replica_set \<Rightarrow> replica_set list \<Rightarrow> replica_set list" where
  "overwrite n v rss = map (\<lambda>rs. if rs_name rs = Some n then v else rs) rss"

definition prompt_api :: "(replica_set list, replica_set) api" where
  "prompt_api = \<lparr>ap_create = (\<lambda>v s. (Inr v, s @ [settle v])), ap_get = (\<lambda>n s. (Inr (find (\<lambda>rs. rs_name rs = Some n) s), s)),
     ap_list = (\<lambda>s. (Inr s, s)),
     ap_patch = (\<lambda>n v s. (Inr v, overwrite n (settle v) s)), ap_patch_status = (\<lambda>n v s. (Inr v, s)),
     ap_replace = (\<lambda>n v s. (Inr v, overwrite n (settle v) s)), ap_replace_status = (\<lambda>n v s. (Inr v, s)),
     ap_delete = (\<lambda>n s. (Inr None, filter (\<lambda>rs. rs_name rs \<noteq> Some n) s))\<rparr>"

text \<open>A rolling update that runs again and again.\<close>

definition rollout_step :: "template_json \<Rightarrow> deployment \<Rightarrow> deployment_spec \<Rightarrow> replica_set list \<Rightarrow> replica_set list" where
  "rollout_step J dep spec rss = snd (rotate_replicasets J prompt_api dep spec rss rss)"

definition rollout_complete :: "deployment \<Rightarrow> string \<Rightarrow> replica_set list \<Rightarrow> bool" where
  "rollout_complete dep hash rss \<longleftrightarrow> (\<exists>a \<in> set rss. replicaset_has_template_hash a hash \<and> desired_replicas dep \<le> replicaset_ready_replicas a \<and>
     (\<forall>rs \<in> set rss. rs_name rs \<noteq> rs_name a \<longrightarrow> replicaset_spec_replicas rs = 0))"

definition rescaled :: "replica_set \<Rightarrow> int \<Rightarrow> replica_set" where
  "rescaled rs k = settle (set_in_place_update_strategy None (rs\<lparr>rs_spec := map_option (\<lambda>sp. sp\<lparr>rs_replicas := Some k\<rparr>) (rs_spec rs)\<rparr>))"

lemma rescaled_simps:
  assumes "rs_name rs \<noteq> None" and "rs_spec rs \<noteq> None"
  shows "rs_name (rescaled rs k) = rs_name rs" "replicaset_spec_replicas (rescaled rs k) = k"
    "replicaset_ready_replicas (rescaled rs k) = k" "replicaset_status_replicas (rescaled rs k) = k" "rs_spec (rescaled rs k) \<noteq> None"
    "replicaset_has_template_hash (rescaled rs k) hash = replicaset_has_template_hash rs hash"
proof -
  obtain m sp where "rs_meta rs = Some m" "rs_spec rs = Some sp" using assms by (cases "rs_meta rs") auto
  then show "rs_name (rescaled rs k) = rs_name rs" "replicaset_spec_replicas (rescaled rs k) = k"
    "replicaset_ready_replicas (rescaled rs k) = k" "replicaset_status_replicas (rescaled rs k) = k" "rs_spec (rescaled rs k) \<noteq> None"
    "replicaset_has_template_hash (rescaled rs k) hash = replicaset_has_template_hash rs hash"
    by (simp_all add: rescaled_def settle_def set_in_place_update_strategy_def replicaset_spec_replicas_def replicaset_status_replicas_def
        replicaset_ready_replicas_def replicaset_has_template_hash_def Let_def)
qed

lemma prompt_replace:
  assumes "update_replicaset_replicas rs (Some k) = Some upd" and "rs_name rs = Some n"
  shows "replace_replicaset_if_changed prompt_api rs (set_in_place_update_strategy None upd) s = (Inr True, overwrite n (rescaled rs k) s)"
proof -
  have upd: "upd = rs\<lparr>rs_spec := map_option (\<lambda>sp. sp\<lparr>rs_replicas := Some k\<rparr>) (rs_spec rs)\<rparr>"
    and "map_option rs_replicas (rs_spec upd) \<noteq> map_option rs_replicas (rs_spec rs)"
    using assms(1) by (auto simp: update_replicaset_replicas_def split: option.splits if_splits)
  moreover have "rs_spec (set_in_place_update_strategy None upd) = rs_spec upd" by (simp add: set_in_place_update_strategy_def Let_def)
  ultimately have "set_in_place_update_strategy None upd \<noteq> rs" by metis
  then show ?thesis
    using assms(2) by (simp add: replace_replicaset_if_changed_def prompt_api_def rescaled_def upd)
qed

text \<open>The ReplicaSets of a rollout that the prompt server keeps.\<close>

definition rollout_ok :: "replica_set list \<Rightarrow> bool" where
  "rollout_ok rss \<longleftrightarrow> distinct (map rs_name rss) \<and> (\<forall>rs \<in> set rss. rs_name rs \<noteq> None \<and> rs_spec rs \<noteq> None \<and> 0 \<le> replicaset_spec_replicas rs \<and>
     replicaset_status_replicas rs = replicaset_spec_replicas rs \<and> replicaset_ready_replicas rs = replicaset_spec_replicas rs)"

lemma rollout_ok_up_to_date: "rollout_ok rss \<Longrightarrow> rs \<in> set rss \<Longrightarrow> up_to_date rs"
  by (auto simp: rollout_ok_def up_to_date_def)

definition rescale :: "replica_set \<Rightarrow> int \<Rightarrow> replica_set list \<Rightarrow> replica_set list" where
  "rescale r k rss = map (\<lambda>rs. if rs = r then rescaled r k else rs) rss"

lemma overwrite_rescale:
  "distinct (map rs_name rss) \<Longrightarrow> r \<in> set rss \<Longrightarrow> rs_name r = Some n \<Longrightarrow> overwrite n (rescaled r k) rss = rescale r k rss"
  unfolding overwrite_def rescale_def by (rule map_cong) (auto dest: same_name)

lemma update_other: "replicaset_spec_replicas rs \<noteq> k \<Longrightarrow> rs_spec rs \<noteq> None \<Longrightarrow> \<exists>upd. update_replicaset_replicas rs (Some k) = Some upd"
  by (auto simp: update_replicaset_replicas_def replicaset_spec_replicas_def)

lemma scale_down_prompt:
  assumes "distinct (map rs_name rss)" and "set old \<subseteq> set rss" and "\<forall>rs \<in> set rss. rs_name rs \<noteq> None \<and> rs_spec rs \<noteq> None"
    and "\<forall>rs \<in> set old. \<forall>k. map_of ots (unwrap_or [] (rs_name rs)) = Some k \<longrightarrow> replicaset_spec_replicas rs \<noteq> k"
  shows "if \<exists>rs \<in> set old. map_of ots (unwrap_or [] (rs_name rs)) \<noteq> None
    then \<exists>rs \<in> set old. \<exists>k. map_of ots (unwrap_or [] (rs_name rs)) = Some k \<and> scale_down_old prompt_api ots old rss = (Inr True, rescale rs k rss)
    else scale_down_old prompt_api ots old rss = (Inr False, rss)"
  using assms(2,4)
proof (induction old)
  case (Cons rs old)
  obtain n where n: "rs_name rs = Some n" using Cons.prems assms(3) by auto
  show ?case
  proof (cases "map_of ots n")
    case None
    then show ?thesis using Cons n by (auto split: if_splits)
  next
    case (Some k)
    then obtain upd where upd: "update_replicaset_replicas rs (Some k) = Some upd"
      using Cons.prems assms(3) n update_other [of rs k] by auto
    then have "scale_down_old prompt_api ots (rs # old) rss = (Inr True, rescale rs k rss)"
      using Some n Cons.prems prompt_replace [OF upd n, of rss] overwrite_rescale [OF assms(1) _ n, of k] by (simp add: try_step_def)
    then show ?thesis using Some n by auto
  qed
qed simp

lemma no_targets_complete:
  assumes ok: "\<forall>rs \<in> set (a # old). up_to_date rs \<and> replicaset_ready_replicas rs = replicaset_spec_replicas rs"
    and fits: "rollout_fits dep (a # old)" and limits: "0 < fst (rolling_update_limits dep) + snd (rolling_update_limits dep)"
    and t: "next_rolling_update_rotation_targets dep a old = (None, [], rq)"
  shows "spec_total old = 0 \<and> desired_replicas dep \<le> replicaset_spec_replicas a \<and> \<not> rq"
proof -
  let ?new = "replicaset_spec_replicas a" and ?desired = "desired_replicas dep" and ?remove = "ready_total (a # old) - max 0 (desired_replicas dep - snd (rolling_update_limits dep))"
  have current: "\<forall>rs \<in> set (a # old). up_to_date rs" using ok by blast
  note eq = t [unfolded targets_eq [OF current fits] Let_def]
  have add: "\<not> (0 < ?desired + fst (rolling_update_limits dep) - (spec_total old + ?new) \<and> ?new < ?desired)"
    using eq by (auto split: if_splits)
  then have ots: "old_rotation_targets (max 0 ?remove) old = []"
    and rq: "rq \<longleftrightarrow> \<not> (spec_total old = 0 \<and> ?desired \<le> ?new \<and> ?desired \<le> replicaset_ready_replicas a)"
    using eq by (auto split: if_splits)
  have ready: "ready_total (a # old) = ?new + spec_total old"
    using ok by (auto intro!: arg_cong [of _ _ sum_list])
  have nonneg: "0 \<le> ?new" "\<forall>rs \<in> set old. 0 \<le> replicaset_spec_replicas rs" using ok by (auto simp: up_to_date_def)
  have "spec_total (a # old) < 2 ^ 31" using fits limits_nonneg [of dep] by (simp add: rollout_fits_def)
  then have small: "\<forall>rs \<in> set old. replicaset_spec_replicas rs < 2 ^ 31" using totals_bounds(3) [OF current] by fastforce
  have old_zero: "spec_total old = 0"
  proof (rule ccontr)
    assume "spec_total old \<noteq> 0"
    then obtain rs where rs: "rs \<in> set old" "0 < replicaset_spec_replicas rs"
      using nonneg(2) sum_list_nonneg_eq_0_iff [of "map replicaset_spec_replicas old"] by force
    have "\<not> 0 < max 0 ?remove" using old_targets_nonempty [OF rs _ small] ots by blast
    then have "?remove \<le> 0" by simp
    moreover have "0 \<le> spec_total old" using nonneg(2) by (intro sum_list_nonneg) auto
    moreover note \<open>spec_total old \<noteq> 0\<close>
    ultimately show False using add ready nonneg(1) limits limits_nonneg [of dep] by auto
  qed
  then have "?desired \<le> ?new" using add limits_nonneg [of dep] by auto
  then show ?thesis using old_zero rq ok by auto
qed

lemma rollout_step_cases:
  assumes ok: "rollout_ok rss" and template: "deployment_template dep = Inr template" and fits: "rollout_fits dep rss"
    and a: "find (\<lambda>rs. replicaset_has_template_hash rs (template_hash J template)) rss = Some a"
    and limits: "0 < fst (rolling_update_limits dep) + snd (rolling_update_limits dep)"
  defines "old \<equiv> old_replicasets rss (rs_name a)"
  shows "spec_total old = 0 \<and> desired_replicas dep \<le> replicaset_spec_replicas a \<and>
      rotate_replicasets J prompt_api dep spec rss rss = (Inr await_change, rss) \<or>
    (\<exists>r \<in> set rss. \<exists>k. 0 \<le> k \<and> rollout_step J dep spec rss = rescale r k rss \<and>
      (r = a \<and> replicaset_spec_replicas a < k \<and> k \<le> desired_replicas dep \<and>
         k + spec_total old \<le> desired_replicas dep + fst (rolling_update_limits dep) \<or>
       r \<in> set old \<and> k < replicaset_spec_replicas r))"
proof -
  have names: "distinct (map rs_name rss)" "\<forall>rs \<in> set rss. rs_name rs \<noteq> None \<and> rs_spec rs \<noteq> None" using ok by (auto simp: rollout_ok_def)
  have a_in: "a \<in> set rss" using find_SomeD [OF a] by blast
  have sub: "set old \<subseteq> set rss" by (auto simp: old_def old_replicasets_def)
  have current: "\<forall>rs \<in> set (a # old). up_to_date rs" using ok a_in sub rollout_ok_up_to_date by auto
  have fits': "rollout_fits dep (a # old)"
    using fits managed_sum [OF names(1) a_in, of replicaset_spec_replicas] by (simp add: rollout_fits_def old_def)
  obtain nt ots rq where t: "next_rolling_update_rotation_targets dep a old = (nt, ots, rq)" by (metis surj_pair)
  note bounds = targets_bounds [OF current fits' t]
  have body: "rotate_replicasets J prompt_api dep spec rss rss = (case Option.bind nt (\<lambda>k. update_replicaset_replicas a (Some k)) of
      Some upd \<Rightarrow> try_step (replace_replicaset_if_changed prompt_api a (set_in_place_update_strategy None upd) rss) (\<lambda>_ s. (Inr (requeue 2), s))
    | None \<Rightarrow> try_step (scale_down_old prompt_api ots old rss) (\<lambda>scaled s. (Inr (if scaled \<or> rq then requeue 2 else await_change), s)))"
    using template a t unfolding old_def by (simp add: rotate_replicasets_def ensure_rotation_replicaset_def try_step_def)
  show ?thesis
  proof (cases nt)
    case (Some k)
    obtain n where n: "rs_name a = Some n" using names a_in by auto
    obtain upd where upd: "update_replicaset_replicas a (Some k) = Some upd"
      using update_other [of a k] bounds(1) [OF Some] names a_in by auto
    have "rollout_step J dep spec rss = rescale a k rss"
      using body Some upd prompt_replace [OF upd n] overwrite_rescale [OF names(1) a_in n] by (simp add: rollout_step_def try_step_def)
    moreover have "0 \<le> replicaset_spec_replicas a" using ok a_in by (auto simp: rollout_ok_def)
    ultimately show ?thesis using bounds(1) [OF Some] a_in by (intro disjI2 bexI [of _ a] exI [of _ k]) auto
  next
    case None
    have own: "0 \<le> k \<and> k < replicaset_spec_replicas rs" if "rs \<in> set old" "map_of ots (unwrap_or [] (rs_name rs)) = Some k" for rs k
    proof -
      note target = bounds(2) [OF map_of_SomeD [OF that(2)]]
      obtain rs' where rs': "rs' \<in> set old" "unwrap_or [] (rs_name rs) = unwrap_or [] (rs_name rs')" "0 \<le> k" "k < replicaset_spec_replicas rs'"
        using target by (elim bexE conjE) (rule that)
      have "rs' = rs"
        using names sub rs'(1) that(1) by (intro same_name [OF names(1)] unwrap_inj [OF rs'(2)]) auto
      then show ?thesis using rs' by simp
    qed
    have down: "if \<exists>rs \<in> set old. map_of ots (unwrap_or [] (rs_name rs)) \<noteq> None
      then \<exists>rs \<in> set old. \<exists>k. map_of ots (unwrap_or [] (rs_name rs)) = Some k \<and> scale_down_old prompt_api ots old rss = (Inr True, rescale rs k rss)
      else scale_down_old prompt_api ots old rss = (Inr False, rss)"
      using own by (intro scale_down_prompt [OF names(1) sub names(2)]) force
    show ?thesis
    proof (cases ots)
      case Nil
      have "spec_total old = 0 \<and> desired_replicas dep \<le> replicaset_spec_replicas a \<and> \<not> rq"
        using no_targets_complete [OF _ fits' limits t [unfolded None Nil]] current ok a_in sub by (auto simp: rollout_ok_def)
      then show ?thesis using down body None Nil by (simp add: try_step_def)
    next
      case (Cons p ps)
      obtain n k where "p = (n, k)" by fastforce
      then have "map_of ots n \<noteq> None" "(n, k) \<in> set ots" using Cons by auto
      then have "\<exists>rs \<in> set old. map_of ots (unwrap_or [] (rs_name rs)) \<noteq> None" using bounds(2) by metis
      then obtain rs k where "rs \<in> set old" "map_of ots (unwrap_or [] (rs_name rs)) = Some k"
        "scale_down_old prompt_api ots old rss = (Inr True, rescale rs k rss)" using down by auto
      then show ?thesis using own [of rs k] body None sub
        by (intro disjI2 bexI [of _ rs] exI [of _ k]) (auto simp: rollout_step_def try_step_def)
    qed
  qed
qed

theorem rolling_step_within_limits_witness:
  "\<exists>r s' calls. reconcile_rolling_update example_json (recording prompt_api) example_deployment
      (Some (example_replicaset ''web-new'' ''ffffffffffffffff'' 0)) [example_replicaset ''web-old'' ''0000000000000000'' 3] RequiresRotation
      (example_replicasets, []) = (r, s', calls) \<and> length calls = 1 \<and>
    (\<exists>rs \<in> set example_replicasets. \<exists>k. 0 \<le> k \<and> scales rs k calls \<and>
       (if replicaset_spec_replicas rs < k
        then k \<le> desired_replicas example_deployment \<and> spec_total example_replicasets - replicaset_spec_replicas rs + k \<le>
          desired_replicas example_deployment + fst (rolling_update_limits example_deployment)
        else desired_replicas example_deployment - snd (rolling_update_limits example_deployment) \<le>
          ready_total example_replicasets - (replicaset_spec_replicas rs - k)))"
proof -
  let ?new = "example_replicaset ''web-new'' ''ffffffffffffffff'' 0" and ?old = "example_replicaset ''web-old'' ''0000000000000000'' 3"
  let ?run = "reconcile_rolling_update example_json (recording prompt_api) example_deployment (Some ?new) [?old] RequiresRotation (example_replicasets, [])"
  obtain r s' calls where run: "?run = (r, s', calls)" by (metis surj_pair)
  have "(case ?run of (r, s', calls) \<Rightarrow> (case calls of [Replace n v] \<Rightarrow> True | _ \<Rightarrow> False))" by code_simp
  then have calls: "length calls = 1" "\<nexists>rs. calls = [Create rs]" using run by (auto split: list.splits api_call.splits)
  have up: "distinct (map rs_name [?new, ?old])" "\<forall>rs \<in> set [?new, ?old]. up_to_date rs \<and> rs_name rs \<noteq> None" "rollout_fits example_deployment [?new, ?old]"
    by (simp_all add: up_to_date_def rollout_fits_def example_rollout)
  have "calls \<noteq> []" using calls(1) by auto
  moreover have "\<nexists>rs. calls = [Create rs] \<and> replicaset_spec_replicas rs = 0" using calls(2) by blast
  moreover note rolling_step_within_limits [OF up example_rollout(1) run, folded example_replicasets_def]
  ultimately show ?thesis
    by (intro exI [of _ r] exI [of _ s'] exI [of _ calls] conjI run calls(1)) (rule disj_third)
qed

section \<open>Progress\<close>

lemma rescale_props:
  assumes "rollout_ok rss" and "r \<in> set rss" and "0 \<le> k"
  shows "rollout_ok (rescale r k rss)" "map rs_name (rescale r k rss) = map rs_name rss"
    and "find (\<lambda>rs. replicaset_has_template_hash rs hash) (rescale r k rss) =
      map_option (\<lambda>rs. if rs = r then rescaled r k else rs) (find (\<lambda>rs. replicaset_has_template_hash rs hash) rss)"
    and "old_replicasets (rescale r k rss) n = rescale r k (old_replicasets rss n)"
proof -
  have r: "rs_name r \<noteq> None" "rs_spec r \<noteq> None" using assms by (auto simp: rollout_ok_def)
  note simps = rescaled_simps [OF r, of k]
  show names: "map rs_name (rescale r k rss) = map rs_name rss" by (simp add: rescale_def simps)
  show "rollout_ok (rescale r k rss)"
    using assms(1,3) simps unfolding rollout_ok_def names by (auto simp: rescale_def)
  show "find (\<lambda>rs. replicaset_has_template_hash rs hash) (rescale r k rss) =
      map_option (\<lambda>rs. if rs = r then rescaled r k else rs) (find (\<lambda>rs. replicaset_has_template_hash rs hash) rss)"
    by (induction rss) (auto simp: rescale_def simps)
  show "old_replicasets (rescale r k rss) n = rescale r k (old_replicasets rss n)"
    by (induction rss) (auto simp: old_replicasets_def rescale_def simps)
qed

lemma spec_total_rescale:
  assumes "rs_name r \<noteq> None" and "rs_spec r \<noteq> None" and "distinct rss"
  shows "spec_total (rescale r k rss) = spec_total rss + (if r \<in> set rss then k - replicaset_spec_replicas r else 0)"
  using assms(3) by (induction rss) (auto simp: rescale_def rescaled_simps [OF assms(1,2)])

text \<open>What is left to do.\<close>

definition rollout_work :: "deployment \<Rightarrow> replica_set \<Rightarrow> replica_set list \<Rightarrow> nat" where
  "rollout_work dep a rss = nat (spec_total (old_replicasets rss (rs_name a)) + max 0 (desired_replicas dep - replicaset_spec_replicas a))"

lemma rollout_progress:
  assumes ok: "rollout_ok rss" and a: "find (\<lambda>rs. replicaset_has_template_hash rs hash) rss = Some a" and r: "r \<in> set rss" and k: "0 \<le> k"
    and move: "r = a \<and> replicaset_spec_replicas a < k \<and> k \<le> desired_replicas dep \<and>
         k + spec_total (old_replicasets rss (rs_name a)) \<le> limit \<or>
       r \<in> set (old_replicasets rss (rs_name a)) \<and> k < replicaset_spec_replicas r"
  shows "\<exists>a'. find (\<lambda>rs. replicaset_has_template_hash rs hash) (rescale r k rss) = Some a' \<and>
    rollout_work dep a' (rescale r k rss) < rollout_work dep a rss \<and> spec_total (rescale r k rss) \<le> max limit (spec_total rss)"
proof -
  let ?old = "old_replicasets rss (rs_name a)" and ?a = "if a = r then rescaled r k else a"
  have names: "distinct (map rs_name rss)" "distinct rss" "rs_name r \<noteq> None" "rs_spec r \<noteq> None"
    using ok r by (auto simp: rollout_ok_def distinct_map)
  have a_in: "a \<in> set rss" using find_SomeD [OF a] by blast
  note simps = rescaled_simps [OF names(3,4), of k] and props = rescale_props [OF ok r k]
  have old: "distinct ?old" "r \<in> set ?old \<longleftrightarrow> r \<noteq> a"
    using names(2) r same_name [OF names(1) r a_in] by (auto simp: old_replicasets_def)
  have nonneg: "0 \<le> spec_total ?old" using ok by (intro sum_list_nonneg) (auto simp: rollout_ok_def old_replicasets_def)
  have found: "find (\<lambda>rs. replicaset_has_template_hash rs hash) (rescale r k rss) = Some ?a" using props(3) a by simp
  have "rs_name ?a = rs_name a" using simps(1) by auto
  then have work: "rollout_work dep ?a (rescale r k rss) =
      nat (spec_total (rescale r k ?old) + max 0 (desired_replicas dep - replicaset_spec_replicas ?a))"
    by (simp add: rollout_work_def props(4))
  have total: "spec_total (rescale r k rss) = spec_total rss + (k - replicaset_spec_replicas r)"
    using r by (simp add: spec_total_rescale [OF names(3,4,2)])
  have sum: "spec_total rss = replicaset_spec_replicas a + spec_total ?old" using names(1) a_in by (rule managed_sum)
  have bound: "replicaset_spec_replicas r \<le> spec_total ?old" if "r \<in> set ?old"
    using that ok by (intro member_le_sum_list) (auto simp: rollout_ok_def old_replicasets_def)
  have "rollout_work dep ?a (rescale r k rss) < rollout_work dep a rss"
    using move nonneg old bound k simps(2)
    unfolding work by (auto simp: rollout_work_def spec_total_rescale [OF names(3,4) old(1)])
  moreover have "spec_total (rescale r k rss) \<le> max limit (spec_total rss)" using move total sum old(2) by auto
  ultimately show ?thesis using found by blast
qed

lemma complete_when_zero:
  assumes ok: "rollout_ok rss" and a: "find (\<lambda>rs. replicaset_has_template_hash rs hash) rss = Some a"
    and "spec_total (old_replicasets rss (rs_name a)) = 0" and "desired_replicas dep \<le> replicaset_spec_replicas a"
  shows "rollout_complete dep hash rss"
proof -
  have "\<forall>x \<in> set (map replicaset_spec_replicas (old_replicasets rss (rs_name a))). x = 0"
    using assms(3) ok by (subst (asm) sum_list_nonneg_eq_0_iff) (auto simp: old_replicasets_def rollout_ok_def)
  then show ?thesis
    using ok assms(4) find_SomeD [OF a] unfolding rollout_complete_def
    by (intro bexI [of _ a]) (auto simp: old_replicasets_def rollout_ok_def)
qed

lemma rollout_runs:
  assumes template: "deployment_template dep = Inr template" and limits: "0 < fst (rolling_update_limits dep) + snd (rolling_update_limits dep)"
    and ok: "rollout_ok rss" and a: "find (\<lambda>rs. replicaset_has_template_hash rs (template_hash J template)) rss = Some a"
    and top: "spec_total rss \<le> limit" "desired_replicas dep + fst (rolling_update_limits dep) \<le> limit"
    and fits: "desired_replicas dep + fst (rolling_update_limits dep) + limit < 2 ^ 31" "snd (rolling_update_limits dep) < 2 ^ 31"
  shows "\<exists>n \<le> rollout_work dep a rss. let rss' = (rollout_step J dep spec ^^ n) rss in
    rollout_complete dep (template_hash J template) rss' \<and> map rs_name rss' = map rs_name rss \<and>
    rotate_replicasets J prompt_api dep spec rss' rss' = (Inr await_change, rss')"
  using ok a top(1)
proof (induction "rollout_work dep a rss" arbitrary: rss a rule: less_induct)
  case less
  let ?hash = "template_hash J template" and ?old = "old_replicasets rss (rs_name a)"
  have fits': "rollout_fits dep rss" using less.prems(3) fits top(2) limits_nonneg [of dep] by (auto simp: rollout_fits_def)
  from rollout_step_cases [OF less.prems(1) template fits' less.prems(2) limits, of spec]
  consider "spec_total ?old = 0" "desired_replicas dep \<le> replicaset_spec_replicas a" "rotate_replicasets J prompt_api dep spec rss rss = (Inr await_change, rss)"
    | r k where "r \<in> set rss" "0 \<le> k" "rollout_step J dep spec rss = rescale r k rss"
      "r = a \<and> replicaset_spec_replicas a < k \<and> k \<le> desired_replicas dep \<and>
         k + spec_total ?old \<le> desired_replicas dep + fst (rolling_update_limits dep) \<or> r \<in> set ?old \<and> k < replicaset_spec_replicas r"
    by blast
  then show ?case
  proof cases
    case 1
    then show ?thesis using complete_when_zero [OF less.prems(1,2) 1(1,2)] by (intro exI [of _ 0]) simp
  next
    case 2
    obtain a' where a': "find (\<lambda>rs. replicaset_has_template_hash rs ?hash) (rescale r k rss) = Some a'"
      "rollout_work dep a' (rescale r k rss) < rollout_work dep a rss"
      "spec_total (rescale r k rss) \<le> max (desired_replicas dep + fst (rolling_update_limits dep)) (spec_total rss)"
      using rollout_progress [OF less.prems(1,2) 2(1,2,4)] by (elim exE conjE) (rule that)
    note props = rescale_props [OF less.prems(1) 2(1,2)]
    have "spec_total (rescale r k rss) \<le> limit" using a'(3) less.prems(3) top(2) by simp
    from less.hyps [OF a'(2) props(1) a'(1) this] obtain n where "n \<le> rollout_work dep a' (rescale r k rss)"
      and n: "let rss' = (rollout_step J dep spec ^^ Suc n) rss in rollout_complete dep ?hash rss' \<and> map rs_name rss' = map rs_name rss \<and>
        rotate_replicasets J prompt_api dep spec rss' rss' = (Inr await_change, rss')"
      by (auto simp: props(2) 2(3) funpow_swap1)
    moreover from this have "Suc n \<le> rollout_work dep a rss" using a'(2) by simp
    ultimately show ?thesis by blast
  qed
qed

text \<open>
  C4: A rolling update completes: where the ReplicaSets follow their specifications and the strategy
  allows a surge or an unavailable Ship, repeated steps reach, after at most as many of them as there
  are replicas to remove and to add, a state in which the ReplicaSet of the template has all desired
  replicas ready, all other ReplicaSets are scaled to zero, and the controller waits for a change.
\<close>

theorem rolling_update_completes:
  assumes "deployment_template dep = Inr template" and "0 < fst (rolling_update_limits dep) + snd (rolling_update_limits dep)"
    and "rollout_ok rss" and "find (\<lambda>rs. replicaset_has_template_hash rs (template_hash J template)) rss = Some a"
    and "desired_replicas dep + fst (rolling_update_limits dep) \<le> 2 ^ 29" and "spec_total rss \<le> 2 ^ 29" and "snd (rolling_update_limits dep) < 2 ^ 31"
  shows "\<exists>n \<le> nat (spec_total (old_replicasets rss (rs_name a)) + max 0 (desired_replicas dep - replicaset_spec_replicas a)).
    let rss' = (rollout_step J dep spec ^^ n) rss in
      rollout_complete dep (template_hash J template) rss' \<and> map rs_name rss' = map rs_name rss \<and>
      rotate_replicasets J prompt_api dep spec rss' rss' = (Inr await_change, rss')"
  using rollout_runs [OF assms(1-4,6,5) _ assms(7), of spec] assms(5) by (simp add: rollout_work_def)

theorem rolling_update_completes_witness:
  "\<exists>n \<le> 6. let rss' = (rollout_step example_json example_deployment deployment_spec_default ^^ n) example_replicasets in
     rollout_complete example_deployment ''ffffffffffffffff'' rss' \<and> map rs_name rss' = [Some ''web-new'', Some ''web-old''] \<and>
     rotate_replicasets example_json prompt_api example_deployment deployment_spec_default rss' rss' = (Inr await_change, rss')"
proof -
  let ?new = "example_replicaset ''web-new'' ''ffffffffffffffff'' 0" and ?old = "example_replicaset ''web-old'' ''0000000000000000'' 3"
  have ok: "rollout_ok example_replicasets" by (simp add: rollout_ok_def example_replicasets_def example_rollout)
  have found: "find (\<lambda>rs. replicaset_has_template_hash rs (template_hash example_json ship_template_default)) example_replicasets = Some ?new"
    by (simp add: example_hash example_replicasets_def replicaset_has_template_hash_def example_replicaset_def ship_template_hash_label_def)
  have work: "nat (spec_total (old_replicasets example_replicasets (rs_name ?new)) + max 0 (desired_replicas example_deployment - replicaset_spec_replicas ?new)) = 6"
    and names: "map rs_name example_replicasets = [Some ''web-new'', Some ''web-old'']"
    and small: "0 < fst (rolling_update_limits example_deployment) + snd (rolling_update_limits example_deployment)"
      "desired_replicas example_deployment + fst (rolling_update_limits example_deployment) \<le> 2 ^ 29" "spec_total example_replicasets \<le> 2 ^ 29"
      "snd (rolling_update_limits example_deployment) < 2 ^ 31"
    by (simp_all add: example_rollout example_replicasets_def old_replicasets_def)
  show ?thesis
    using rolling_update_completes [OF example_rollout(1) small(1) ok found small(2-), of deployment_spec_default]
    unfolding work names example_hash .
qed

section \<open>Statuses that lag behind\<close>

text \<open>
  A server on which the controller of the ReplicaSets has not reported yet: a written ReplicaSet keeps
  its old status, which \<^verbatim>\<open>reconcile_replicaset_status\<close> also writes in the reconciliation that creates Ships,
  since it counts those that were there before.
\<close>

definition lagging_api :: "(replica_set list, replica_set) api" where
  "lagging_api = prompt_api\<lparr>ap_replace := (\<lambda>n v s. (Inr v, overwrite n v s))\<rparr>"

text \<open>
  With statuses that lag behind, the limits are exceeded: three steps of the rolling update of a
  Deployment of three Ships with a surge of one ask for six Ships, three of them new.
\<close>

theorem rolling_update_outruns_status:
  "map replicaset_spec_replicas (((\<lambda>rss. snd (rotate_replicasets example_json lagging_api example_deployment deployment_spec_default rss rss)) ^^ 3)
     example_replicasets) = [3, 3] \<and>
   desired_replicas example_deployment = 3 \<and> fst (rolling_update_limits example_deployment) = 1"
proof -
  have "map replicaset_spec_replicas (((\<lambda>rss. snd (rotate_replicasets example_json lagging_api example_deployment deployment_spec_default rss rss)) ^^ 3)
     example_replicasets) = [3, 3]"
    by code_simp
  then show ?thesis by (simp add: example_rollout)
qed

end
