(* ===== verification/Fleet.thy ===== *)
theory Fleet
  imports Deployment
begin

text \<open>
  The Fleet controller (\<^verbatim>\<open>tugboat-controller-manager/src/fleet.rs\<close>), which keeps one ReplicaSet for each
  component of a Fleet, replaces it when the template of the component changes, and reports how many
  components are ready.
\<close>

section \<open>Fleets\<close>

record fleet_component =
  fc_name :: string
  fc_replicas :: int
  fc_ship_template :: "ship_template_spec option"

record fleet_spec =
  fs_network_class_name :: string
  fs_components :: "fleet_component list"

record fleet_status =
  fls_ready_components :: int
  fls_total_components :: int

record fleet =
  fl_meta :: "object_meta option"
  fl_spec :: "fleet_spec option"
  fl_status :: "fleet_status option"

definition fleet_name_label :: string where
  "fleet_name_label = ''fleet-name''"

definition fleet_component_label :: string where
  "fleet_component_label = ''fleet-component''"

definition owner_reference_for_fleet :: "fleet \<Rightarrow> owner_reference" where
  "owner_reference_for_fleet fleet = owner_reference_for ''apps/v1'' ''Fleet'' (fl_meta fleet)"

definition is_owned_by_fleet :: "replica_set \<Rightarrow> fleet \<Rightarrow> bool" where
  "is_owned_by_fleet rs fleet = is_controlled_by (rs_meta rs) (fl_meta fleet) ''Fleet''"

definition fleet_replicasets :: "replica_set list \<Rightarrow> fleet \<Rightarrow> replica_set list" where
  "fleet_replicasets replicasets fleet = filter (\<lambda>rs. is_owned_by_fleet rs fleet) replicasets"

text \<open>A label of a ReplicaSet, or else of its selector.\<close>

definition label_or_selector :: "string \<Rightarrow> replica_set \<Rightarrow> string option" where
  "label_or_selector label rs = (case Option.bind (rs_meta rs) (\<lambda>m. map_of (om_labels m) label) of
     Some v \<Rightarrow> Some v
   | None \<Rightarrow> Option.bind (rs_spec rs) (\<lambda>sp. map_of (rs_selector sp) label))"

definition component_name :: "replica_set \<Rightarrow> string option" where
  "component_name rs = label_or_selector fleet_component_label rs"

definition replicaset_template_hash :: "replica_set \<Rightarrow> string option" where
  "replicaset_template_hash rs = label_or_selector ship_template_hash_label rs"

definition component_replicasets :: "replica_set list \<Rightarrow> string \<Rightarrow> replica_set list" where
  "component_replicasets replicasets target = filter (\<lambda>rs. component_name rs = Some target) replicasets"

text \<open>The same steps as for the hash of a Deployment.\<close>

definition fleet_template_hash :: "template_json \<Rightarrow> ship_template_spec \<Rightarrow> string" where
  "fleet_template_hash J template = concat (map hex_byte (take 8 (tj_sha256 J (canonical_json_string J template))))"

definition inject_fleet_network :: "ship_template_spec \<Rightarrow> string \<Rightarrow> ship_template_spec" where
  "inject_fleet_network template network_class_name =
     (let spec = unwrap_or ship_spec_default (ts_spec template)
      in template\<lparr>ts_spec := Some (
           if list_ex (\<lambda>network. sncr_name network = network_class_name) (ss_network_class_ref spec) then spec
           else spec\<lparr>ss_network_class_ref := ss_network_class_ref spec @
             [\<lparr>sncr_kind = ''ClusterNetworkClass'', sncr_name = network_class_name, sncr_api_group = ''core''\<rparr>]\<rparr>)\<rparr>)"

definition desired_component_template :: "fleet_component \<Rightarrow> string \<Rightarrow> ship_template_spec" where
  "desired_component_template component network_class_name =
     inject_fleet_network (unwrap_or ship_template_default (fc_ship_template component)) network_class_name"

definition build_replicaset_for_component :: "template_json \<Rightarrow> fleet \<Rightarrow> fleet_component \<Rightarrow> string \<Rightarrow> replica_set" where
  "build_replicaset_for_component J fleet component network_class_name =
     (let fleet_name = unwrap_or [] (meta_name (fl_meta fleet));
          template = desired_component_template component network_class_name;
          hash = fleet_template_hash J template;
          selector = obj_insert fleet_name_label fleet_name
            (obj_insert fleet_component_label (fc_name component) (obj_insert ship_template_hash_label hash []))
      in \<lparr>rs_meta = Some (object_meta_default\<lparr>om_name := Some (fleet_name @ ''-'' @ fc_name component @ ''-'' @ hash),
            om_namespace := meta_namespace (fl_meta fleet), om_labels := selector,
            om_owner_references := [owner_reference_for_fleet fleet]\<rparr>),
          rs_spec = Some \<lparr>rs_replicas = Some (fc_replicas component), rs_selector = selector, rs_ship_template = Some template\<rparr>,
          rs_status = None\<rparr>)"

definition find_replicaset_for_template :: "replica_set list \<Rightarrow> string \<Rightarrow> replica_set option" where
  "find_replicaset_for_template replicasets desired_hash = find (\<lambda>rs. replicaset_template_hash rs = Some desired_hash) replicasets"

definition with_replicas :: "int \<Rightarrow> replica_set \<Rightarrow> replica_set" where
  "with_replicas k rs = rs\<lparr>rs_spec := Some ((unwrap_or replica_set_spec_default (rs_spec rs))\<lparr>rs_replicas := Some k\<rparr>)\<rparr>"

definition update_component_replicas :: "replica_set \<Rightarrow> int \<Rightarrow> replica_set option" where
  "update_component_replicas rs replicas =
     (if rs_replicas (unwrap_or replica_set_spec_default (rs_spec rs)) = Some replicas then None else Some (with_replicas replicas rs))"

definition replicaset_ready :: "replica_set \<Rightarrow> int \<Rightarrow> bool" where
  "replicaset_ready rs desired = unwrap_or False (map_option (\<lambda>st. desired \<le> rss_ready_replicas st \<and> desired \<le> rss_replicas st) (rs_status rs))"

definition delete_replicaset_ignore_not_found :: "('s, replica_set) api \<Rightarrow> string \<Rightarrow> 's \<Rightarrow> (controller_error + unit) \<times> 's" where
  "delete_replicaset_ignore_not_found A n s = (case ap_delete A n s of
     (Inr _, s) \<Rightarrow> (Inr (), s)
   | (Inl e, s) \<Rightarrow> (if e = ApiError 404 then Inr () else Inl (ClientError e), s))"

fun latest_by_component :: "replica_set list \<Rightarrow> (string \<times> replica_set) list \<Rightarrow> (string \<times> replica_set) list" where
  "latest_by_component [] latest = latest"
| "latest_by_component (rs # rss) latest = (case component_name rs of
     None \<Rightarrow> latest_by_component rss latest
   | Some n \<Rightarrow>
       latest_by_component rss
         (if is_some_and (\<lambda>current. replicaset_creation_sort_key rs \<le> replicaset_creation_sort_key current) (map_of latest n)
          then latest else obj_insert n rs latest))"

definition component_ready :: "replica_set \<Rightarrow> bool" where
  "component_ready rs = unwrap_or False (map_option (\<lambda>st. rss_ready_replicas st = rss_replicas st \<and> 0 < rss_replicas st) (rs_status rs))"

definition compute_fleet_status :: "replica_set list \<Rightarrow> nat \<Rightarrow> fleet_status" where
  "compute_fleet_status owned total_components = \<lparr>
     fls_ready_components = wrap_i32 (int (length (filter (\<lambda>(_, rs). component_ready rs) (latest_by_component owned [])))),
     fls_total_components = wrap_i32 (int total_components)\<rparr>"

section \<open>The reconciler\<close>

text \<open>The clean-up of the other ReplicaSets of a component, one call at most; whether a call was made.\<close>

fun retire_replicasets :: "('s, replica_set) api \<Rightarrow> replica_set \<Rightarrow> replica_set list \<Rightarrow> 's \<Rightarrow> (controller_error + bool) \<times> 's" where
  "retire_replicasets A desired_rs [] s = (Inr False, s)"
| "retire_replicasets A desired_rs (rs # rss) s =
     (if rs_name rs = rs_name desired_rs then retire_replicasets A desired_rs rss s
      else case update_component_replicas rs 0 of
        Some updated_rs \<Rightarrow> try_call (ap_replace A (unwrap_or [] (rs_name rs)) updated_rs s) (\<lambda>_ s. (Inr True, s))
      | None \<Rightarrow>
          if unwrap_or True (map_option (\<lambda>st. rss_replicas st = 0) (rs_status rs))
          then try_step (delete_replicaset_ignore_not_found A (unwrap_or [] (rs_name rs)) s) (\<lambda>_ s. (Inr True, s))
          else retire_replicasets A desired_rs rss s)"

text \<open>The body of the loop over the components; whether the reconciliation ends with a requeue.\<close>

definition reconcile_component ::
  "template_json \<Rightarrow> ('s, replica_set) api \<Rightarrow> fleet \<Rightarrow> fleet_spec \<Rightarrow> replica_set list \<Rightarrow> fleet_component \<Rightarrow> 's \<Rightarrow> (controller_error + bool) \<times> 's" where
  "reconcile_component J A fleet spec managed component s =
     (let own = component_replicasets managed (fc_name component);
          desired_hash = fleet_template_hash J (desired_component_template component (fs_network_class_name spec))
      in case find_replicaset_for_template own desired_hash of
        Some desired_rs \<Rightarrow>
          (case update_component_replicas desired_rs (fc_replicas component) of
             Some updated_rs \<Rightarrow> try_call (ap_replace A (unwrap_or [] (rs_name desired_rs)) updated_rs s) (\<lambda>_ s. (Inr True, s))
           | None \<Rightarrow>
               if list_ex (\<lambda>rs. rs_name rs \<noteq> rs_name desired_rs) own \<and> \<not> replicaset_ready desired_rs (fc_replicas component)
               then (Inr True, s)
               else retire_replicasets A desired_rs own s)
      | None \<Rightarrow>
          try_step (create_replicaset_if_absent A (build_replicaset_for_component J fleet component (fs_network_class_name spec)) s)
            (\<lambda>_ s. (Inr False, s)))"

fun reconcile_components ::
  "template_json \<Rightarrow> ('s, replica_set) api \<Rightarrow> fleet \<Rightarrow> fleet_spec \<Rightarrow> replica_set list \<Rightarrow> fleet_component list \<Rightarrow> 's \<Rightarrow> (controller_error + bool) \<times> 's" where
  "reconcile_components J A fleet spec managed [] s = (Inr False, s)"
| "reconcile_components J A fleet spec managed (component # components) s =
     try_step (reconcile_component J A fleet spec managed component s)
       (\<lambda>stop s. if stop then (Inr True, s) else reconcile_components J A fleet spec managed components s)"

fun delete_removed :: "('s, replica_set) api \<Rightarrow> fleet_spec \<Rightarrow> replica_set list \<Rightarrow> 's \<Rightarrow> (controller_error + unit) \<times> 's" where
  "delete_removed A spec [] s = (Inr (), s)"
| "delete_removed A spec (rs # rss) s = (case component_name rs of
     None \<Rightarrow> delete_removed A spec rss s
   | Some existing \<Rightarrow>
       if list_ex (\<lambda>component. fc_name component = existing) (fs_components spec) then delete_removed A spec rss s
       else case rs_name rs of
         None \<Rightarrow> delete_removed A spec rss s
       | Some n \<Rightarrow> try_step (delete_replicaset_ignore_not_found A n s) (\<lambda>_. delete_removed A spec rss))"

record 's fleet_client =
  fk_network_classes :: "('s, network_class) api"
  fk_replicasets :: "string \<Rightarrow> ('s, replica_set) api"
  fk_patch_status :: "string \<Rightarrow> string \<Rightarrow> fleet_status \<Rightarrow> 's \<Rightarrow> (client_error + fleet) \<times> 's"

definition sync_fleet_status :: "'s fleet_client \<Rightarrow> string \<Rightarrow> fleet \<Rightarrow> fleet_spec \<Rightarrow> 's \<Rightarrow> (controller_error + action) \<times> 's" where
  "sync_fleet_status K ns fleet spec s =
     try_call (ap_list (fk_replicasets K ns) s) (\<lambda>latest s.
     (let latest_managed = fleet_replicasets latest fleet;
          desired_status = compute_fleet_status latest_managed (length (fs_components spec));
          act = (if length latest_managed \<noteq> length (fs_components spec) \<or>
                   fls_ready_components desired_status < fls_total_components desired_status
                 then requeue 2 else await_change)
      in if fl_status fleet \<noteq> Some desired_status
         then try_call (fk_patch_status K ns (unwrap_or [] (meta_name (fl_meta fleet))) desired_status s) (\<lambda>_ s. (Inr act, s))
         else (Inr act, s)))"

definition reconcile_fleet_applied :: "template_json \<Rightarrow> 's fleet_client \<Rightarrow> fleet \<Rightarrow> 's \<Rightarrow> (controller_error + action) \<times> 's" where
  "reconcile_fleet_applied J K fleet s =
     expect (MissingNamespace ''Fleet'') (meta_namespace (fl_meta fleet)) (\<lambda>ns s.
     expect (MissingFleetSpec ns (unwrap_or [] (meta_name (fl_meta fleet)))) (fl_spec fleet) (\<lambda>spec s.
     try_call (ap_get (fk_network_classes K) (fs_network_class_name spec) s) (\<lambda>network_class s.
     if network_class = None then (Inr (requeue 30), s)
     else
       try_call (ap_list (fk_replicasets K ns) s) (\<lambda>replicasets s.
       (let managed = fleet_replicasets replicasets fleet in
        try_step (reconcile_components J (fk_replicasets K ns) fleet spec managed (fs_components spec) s) (\<lambda>stop s.
        if stop then (Inr (requeue 2), s)
        else
          try_step (delete_removed (fk_replicasets K ns) spec managed s) (\<lambda>_ s.
          sync_fleet_status K ns fleet spec s)))))) s) s"

fun delete_fleet_replicasets :: "('s, replica_set) api \<Rightarrow> replica_set list \<Rightarrow> 's \<Rightarrow> (controller_error + unit) \<times> 's" where
  "delete_fleet_replicasets A [] s = (Inr (), s)"
| "delete_fleet_replicasets A (rs # rss) s = (case rs_name rs of
     None \<Rightarrow> delete_fleet_replicasets A rss s
   | Some n \<Rightarrow> try_step (delete_replicaset_ignore_not_found A n s) (\<lambda>_. delete_fleet_replicasets A rss))"

definition reconcile_fleet_deleted :: "'s fleet_client \<Rightarrow> fleet \<Rightarrow> 's \<Rightarrow> (controller_error + action) \<times> 's" where
  "reconcile_fleet_deleted K fleet s =
     expect (MissingNamespace ''Fleet'') (meta_namespace (fl_meta fleet)) (\<lambda>ns s.
     try_call (ap_list (fk_replicasets K ns) s) (\<lambda>replicasets s.
     try_step (delete_fleet_replicasets (fk_replicasets K ns) (fleet_replicasets replicasets fleet) s) (\<lambda>_ s. (Inr await_change, s)))) s"

end
