(* ===== verification/Fleet_Correct.thy ===== *)
theory Fleet_Correct
  imports Fleet Rollout Replicaset_Correct
begin

text \<open>
  What the reconciliation of a Fleet writes, for any answers of the API server: a ReplicaSet is
  scaled to zero, and later deleted, only while the ReplicaSet of the current template of its
  component serves in its place.
\<close>

section \<open>Allowed writes\<close>

text \<open>A ReplicaSet of a component, made from a template with the given hash.\<close>

definition revision_of :: "fleet_component \<Rightarrow> string \<Rightarrow> replica_set \<Rightarrow> bool" where
  "revision_of component hash rs \<longleftrightarrow> component_name rs = Some (fc_name component) \<and> replicaset_template_hash rs = Some hash"

abbreviation current_hash :: "template_json \<Rightarrow> fleet_spec \<Rightarrow> fleet_component \<Rightarrow> string" where
  "current_hash J spec component \<equiv> template_hash J (desired_component_template component (fs_network_class_name spec))"

text \<open>The number of replicas that the specification of a ReplicaSet asks for.\<close>

definition asks_for :: "replica_set \<Rightarrow> int \<Rightarrow> bool" where
  "asks_for rs k \<longleftrightarrow> (\<exists>spec. rs_spec rs = Some spec \<and> rs_replicas spec = Some k)"

text \<open>A current ReplicaSet of the component has all replicas ready, beside another ReplicaSet.\<close>

definition replaced_by :: "template_json \<Rightarrow> fleet_spec \<Rightarrow> replica_set list \<Rightarrow> fleet_component \<Rightarrow> replica_set \<Rightarrow> bool" where
  "replaced_by J spec owned component rs \<longleftrightarrow>
     component_name rs = Some (fc_name component) \<and>
     (\<exists>new \<in> set owned. revision_of component (current_hash J spec component) new \<and> rs_name new \<noteq> rs_name rs \<and>
        asks_for new (fc_replicas component) \<and>
        (\<exists>st. rs_status new = Some st \<and> fc_replicas component \<le> rss_ready_replicas st \<and> fc_replicas component \<le> rss_replicas st))"

fun fleet_write_ok :: "template_json \<Rightarrow> fleet \<Rightarrow> fleet_spec \<Rightarrow> replica_set list \<Rightarrow> replica_set api_call \<Rightarrow> bool" where
  "fleet_write_ok J fleet spec owned (Create rs) \<longleftrightarrow>
     (\<exists>component \<in> set (fs_components spec). rs = build_replicaset_for_component J fleet component (fs_network_class_name spec) \<and>
        \<not> (\<exists>old \<in> set owned. revision_of component (current_hash J spec component) old))"
| "fleet_write_ok J fleet spec owned (Replace n rs') \<longleftrightarrow>
     (\<exists>component \<in> set (fs_components spec). \<exists>rs \<in> set owned. n = unwrap_or [] (rs_name rs) \<and>
        ((revision_of component (current_hash J spec component) rs \<and> rs' = with_replicas (fc_replicas component) rs) \<or>
         (replaced_by J spec owned component rs \<and> rs' = with_replicas 0 rs)))"
| "fleet_write_ok J fleet spec owned (Delete n) \<longleftrightarrow>
     (\<exists>rs \<in> set owned. n = unwrap_or [] (rs_name rs) \<and>
        ((\<exists>c. component_name rs = Some c \<and> c \<notin> fc_name ` set (fs_components spec)) \<or>
         (\<exists>component \<in> set (fs_components spec). replaced_by J spec owned component rs \<and> asks_for rs 0 \<and>
            (\<forall>st. rs_status rs = Some st \<longrightarrow> rss_replicas st = 0))))"
| "fleet_write_ok J fleet spec owned _ \<longleftrightarrow> False"

fun is_replace :: "'a api_call \<Rightarrow> bool" where
  "is_replace (Replace _ _) = True"
| "is_replace _ = False"

section \<open>The writes of each part\<close>

lemma update_None: "update_component_replicas rs k = None \<Longrightarrow> asks_for rs k"
  by (cases "rs_spec rs") (auto simp: update_component_replicas_def asks_for_def replica_set_spec_default_def split: if_splits)

lemma empty_status: "unwrap_or True (map_option P (rs_status rs)) \<longleftrightarrow> (\<forall>st. rs_status rs = Some st \<longrightarrow> P st)"
  by (cases "rs_status rs") auto

lemma update_Some: "update_component_replicas rs k = Some upd \<Longrightarrow> upd = with_replicas k rs"
  by (auto simp: update_component_replicas_def split: if_splits)

lemma delete_ignore_calls:
  "delete_replicaset_ignore_not_found (recording A) n (s, calls) = (r, s', calls') \<Longrightarrow> calls' = calls @ [Delete n]"
  by (auto simp: delete_replicaset_ignore_not_found_def split: prod.splits sum.splits)

lemma retire_calls:
  "retire_replicasets (recording A) new rss (s, calls) = (r, s', calls') \<Longrightarrow>
   (calls' = calls \<and> r = Inr False) \<or>
   (r \<noteq> Inr False \<and> (\<exists>rs \<in> set rss. rs_name rs \<noteq> rs_name new \<and>
      (calls' = calls @ [Replace (unwrap_or [] (rs_name rs)) (with_replicas 0 rs)] \<or>
       calls' = calls @ [Delete (unwrap_or [] (rs_name rs))] \<and> asks_for rs 0 \<and> (\<forall>st. rs_status rs = Some st \<longrightarrow> rss_replicas st = 0))))"
proof (induction rss)
  case (Cons rs rss)
  consider (skip) "retire_replicasets (recording A) new rss (s, calls) = (r, s', calls')"
    | (zero) upd where "rs_name rs \<noteq> rs_name new" "update_component_replicas rs 0 = Some upd"
        "try_call (ap_replace (recording A) (unwrap_or [] (rs_name rs)) upd (s, calls)) (\<lambda>_ s. (Inr True, s)) = (r, s', calls')"
    | (delete) "rs_name rs \<noteq> rs_name new" "update_component_replicas rs 0 = None" "\<forall>st. rs_status rs = Some st \<longrightarrow> rss_replicas st = 0"
        "try_step (delete_replicaset_ignore_not_found (recording A) (unwrap_or [] (rs_name rs)) (s, calls)) (\<lambda>_ s. (Inr True, s)) = (r, s', calls')"
    using Cons.prems by (auto simp: empty_status split: if_splits option.splits)
  then show ?case
  proof cases
    case skip
    then show ?thesis using Cons.IH by auto
  next
    case zero
    then have "calls' = calls @ [Replace (unwrap_or [] (rs_name rs)) (with_replicas 0 rs)]" "r \<noteq> Inr False"
      by (auto simp: call_defs dest: update_Some split: prod.splits sum.splits)
    then show ?thesis using zero(1) by auto
  next
    case delete
    then have "calls' = calls @ [Delete (unwrap_or [] (rs_name rs))]" "r \<noteq> Inr False"
      by (auto simp: call_defs dest: delete_ignore_calls split: prod.splits sum.splits)
    then show ?thesis using delete(1,3) update_None [OF delete(2)] by auto
  qed
qed simp

lemma current_hash_eq: "fleet_template_hash J template = template_hash J template"
  by (simp add: fleet_template_hash_def template_hash_def)

lemma find_template:
  "find_replicaset_for_template (component_replicasets owned (fc_name component)) hash = Some rs \<Longrightarrow> rs \<in> set owned \<and> revision_of component hash rs"
  "find_replicaset_for_template (component_replicasets owned (fc_name component)) hash = None \<Longrightarrow> \<not> (\<exists>rs \<in> set owned. revision_of component hash rs)"
  by (auto simp: find_replicaset_for_template_def component_replicasets_def revision_of_def find_None_iff dest!: find_SomeD)

lemma ready_status:
  "replicaset_ready rs k \<longleftrightarrow> (\<exists>st. rs_status rs = Some st \<and> k \<le> rss_ready_replicas st \<and> k \<le> rss_replicas st)"
  by (cases "rs_status rs") (auto simp: replicaset_ready_def)

lemma replaced_byI:
  assumes "new \<in> set owned" "revision_of component (current_hash J spec component) new" "update_component_replicas new (fc_replicas component) = None"
    "replicaset_ready new (fc_replicas component)" "rs \<in> set (component_replicasets owned (fc_name component))" "rs_name rs \<noteq> rs_name new"
  shows "rs \<in> set owned \<and> replaced_by J spec owned component rs"
  using assms(1,2,4-6) update_None [OF assms(3)] by (auto simp: replaced_by_def ready_status component_replicasets_def intro!: bexI [of _ new])

text \<open>A component is reconciled with one call at most, and the loop goes on only after a creation.\<close>

lemma component_calls:
  assumes "reconcile_component J (recording A) fleet spec owned component (s, calls) = (r, s', calls')" "component \<in> set (fs_components spec)"
  shows "\<exists>cs. calls' = calls @ cs \<and> list_all (fleet_write_ok J fleet spec owned) cs \<and> length cs \<le> 1 \<and>
           (r = Inr False \<longrightarrow> filter is_replace cs = [])"
proof (cases "find_replicaset_for_template (component_replicasets owned (fc_name component)) (current_hash J spec component)")
  case None
  obtain r0 s0 c0 where c: "create_replicaset_if_absent (recording A) (build_replicaset_for_component J fleet component (fs_network_class_name spec)) (s, calls) = (r0, s0, c0)"
    by (metis surj_pair)
  then have "calls' = c0" using assms(1) None by (auto simp: reconcile_component_def current_hash_eq call_defs split: sum.splits)
  then show ?thesis using create_if_absent_calls [OF c] find_template(2) [OF None] assms(2) by auto
next
  case (Some new)
  note new = find_template(1) [OF Some]
  let ?own = "component_replicasets owned (fc_name component)"
  consider (resize) upd where "update_component_replicas new (fc_replicas component) = Some upd"
      "try_call (ap_replace (recording A) (unwrap_or [] (rs_name new)) upd (s, calls)) (\<lambda>_ s. (Inr True, s)) = (r, s', calls')"
    | (wait) "r = Inr True" "calls' = calls"
    | (retire) "update_component_replicas new (fc_replicas component) = None" "retire_replicasets (recording A) new ?own (s, calls) = (r, s', calls')"
        "(\<exists>rs \<in> set ?own. rs_name rs \<noteq> rs_name new) \<longrightarrow> replicaset_ready new (fc_replicas component)"
    using assms(1) Some by (auto simp: reconcile_component_def current_hash_eq list_ex_iff Let_def split: option.splits if_splits)
  then show ?thesis
  proof cases
    case resize
    then have "calls' = calls @ [Replace (unwrap_or [] (rs_name new)) (with_replicas (fc_replicas component) new)] \<and> r \<noteq> Inr False"
      by (auto simp: call_defs dest: update_Some split: prod.splits sum.splits)
    then show ?thesis using new assms(2) by auto
  next
    case wait
    then show ?thesis by simp
  next
    case retire
    have replaced: "rs \<in> set owned \<and> replaced_by J spec owned component rs" if "rs \<in> set ?own" "rs_name rs \<noteq> rs_name new" for rs
      using that retire(3) new by (intro replaced_byI [OF _ _ retire(1)]) auto
    from retire_calls [OF retire(2)] show ?thesis
    proof (elim disjE conjE bexE)
      fix rs assume rs: "rs \<in> set ?own" "rs_name rs \<noteq> rs_name new" and "r \<noteq> Inr False"
        and "calls' = calls @ [Replace (unwrap_or [] (rs_name rs)) (with_replicas 0 rs)]"
      then show ?thesis using replaced [OF rs] assms(2) by auto
    next
      fix rs assume rs: "rs \<in> set ?own" "rs_name rs \<noteq> rs_name new" and "r \<noteq> Inr False" "asks_for rs 0" "\<forall>st. rs_status rs = Some st \<longrightarrow> rss_replicas st = 0"
        and "calls' = calls @ [Delete (unwrap_or [] (rs_name rs))]"
      then show ?thesis using replaced [OF rs] assms(2) by auto
    qed simp
  qed
qed

lemma replaces_short: "length cs \<le> 1 \<Longrightarrow> length (filter is_replace cs) \<le> 1"
  by (rule order_trans [OF length_filter_le])

lemma components_calls:
  "reconcile_components J (recording A) fleet spec owned components (s, calls) = (r, s', calls') \<Longrightarrow> set components \<subseteq> set (fs_components spec) \<Longrightarrow>
   \<exists>cs. calls' = calls @ cs \<and> list_all (fleet_write_ok J fleet spec owned) cs \<and> length (filter is_replace cs) \<le> 1 \<and>
     (r = Inr False \<longrightarrow> filter is_replace cs = [])"
proof (induction components arbitrary: s calls)
  case (Cons component components)
  obtain r0 s0 c0 where c: "reconcile_component J (recording A) fleet spec owned component (s, calls) = (r0, s0, c0)" by (metis surj_pair)
  obtain cs where cs: "c0 = calls @ cs" "list_all (fleet_write_ok J fleet spec owned) cs" "length cs \<le> 1" "r0 = Inr False \<longrightarrow> filter is_replace cs = []"
    using component_calls [OF c] Cons.prems(2) by auto
  show ?case
  proof (cases "r0 = Inr False")
    case True
    then have "reconcile_components J (recording A) fleet spec owned components (s0, c0) = (r, s', calls')" using Cons.prems(1) c by (simp add: call_defs)
    from Cons.IH [OF this] Cons.prems(2) obtain cs' where "calls' = c0 @ cs'" "list_all (fleet_write_ok J fleet spec owned) cs'"
      "length (filter is_replace cs') \<le> 1" "r = Inr False \<longrightarrow> filter is_replace cs' = []" by auto
    then show ?thesis using cs True by (intro exI [of _ "cs @ cs'"]) auto
  next
    case False
    then have "calls' = c0 \<and> r \<noteq> Inr False" using Cons.prems(1) c by (auto simp: call_defs split: sum.splits if_splits)
    then show ?thesis using cs replaces_short [OF cs(3)] by auto
  qed
qed simp

lemma removed_calls:
  "delete_removed (recording A) spec rss (s, calls) = (r, s', calls') \<Longrightarrow> set rss \<subseteq> set owned \<Longrightarrow>
   \<exists>cs. calls' = calls @ cs \<and> list_all (fleet_write_ok J fleet spec owned) cs \<and> filter is_replace cs = []"
proof (induction rss arbitrary: s calls)
  case (Cons rs rss)
  consider (skip) "delete_removed (recording A) spec rss (s, calls) = (r, s', calls')"
    | (delete) c n where "component_name rs = Some c" "c \<notin> fc_name ` set (fs_components spec)" "rs_name rs = Some n"
        "try_step (delete_replicaset_ignore_not_found (recording A) n (s, calls)) (\<lambda>_. delete_removed (recording A) spec rss) = (r, s', calls')"
    using Cons.prems(1) by (auto simp: list_ex_iff split: option.splits if_splits)
  then show ?case
  proof cases
    case skip
    then show ?thesis using Cons.IH Cons.prems(2) by auto
  next
    case delete
    obtain r0 s0 c0 where d: "delete_replicaset_ignore_not_found (recording A) n (s, calls) = (r0, s0, c0)" by (metis surj_pair)
    note c0 = delete_ignore_calls [OF d]
    have ok: "fleet_write_ok J fleet spec owned (Delete n)" using delete(1-3) Cons.prems(2) by (auto intro!: bexI [of _ rs])
    show ?thesis
    proof (cases r0)
      case (Inr u)
      then have "delete_removed (recording A) spec rss (s0, c0) = (r, s', calls')" using delete(4) d by (simp add: call_defs)
      from Cons.IH [OF this] Cons.prems(2) obtain cs where "calls' = c0 @ cs" "list_all (fleet_write_ok J fleet spec owned) cs" "filter is_replace cs = []" by auto
      then show ?thesis using c0 ok by (intro exI [of _ "Delete n # cs"]) auto
    next
      case (Inl e)
      then have "calls' = calls @ [Delete n]" using delete(4) d c0 by (simp add: call_defs)
      then show ?thesis using ok by (intro exI [of _ "[Delete n]"]) simp
    qed
  qed
qed simp

section \<open>The whole reconciliation\<close>

definition recording_replicasets :: "'s fleet_client \<Rightarrow> ('s \<times> replica_set api_call list) fleet_client" where
  "recording_replicasets K = \<lparr>fk_network_classes = unrecording (fk_network_classes K), fk_replicasets = (\<lambda>ns. recording (fk_replicasets K ns)),
     fk_patch_status = (\<lambda>ns n st. unrecorded (fk_patch_status K ns n st))\<rparr>"

lemma recording_replicasets_simps [simp]:
  "fk_network_classes (recording_replicasets K) = unrecording (fk_network_classes K)"
  "fk_replicasets (recording_replicasets K) ns = recording (fk_replicasets K ns)"
  "fk_patch_status (recording_replicasets K) ns n st = unrecorded (fk_patch_status K ns n st)"
  by (simp_all add: recording_replicasets_def)

lemma status_calls:
  "sync_fleet_status (recording_replicasets K) ns fleet spec (s, calls) = (r, s', calls') \<Longrightarrow> calls' = calls"
  by (auto simp: sync_fleet_status_def call_defs unrecorded_def Let_def split: prod.splits sum.splits if_splits)

lemma applied_steps:
  assumes "meta_namespace (fl_meta fleet) = Some ns" "fl_spec fleet = Some spec"
    and "ap_get (fk_network_classes K) (fs_network_class_name spec) s = (Inr (Some nc), s1)" "ap_list (fk_replicasets K ns) s1 = (Inr listed, s2)"
    and "reconcile_components J (recording (fk_replicasets K ns)) fleet spec (fleet_replicasets listed fleet) (fs_components spec) (s2, []) = (r0, s3, c0)"
  shows "reconcile_fleet_applied J (recording_replicasets K) fleet (s, []) = (case r0 of
      Inl e \<Rightarrow> (Inl e, s3, c0)
    | Inr True \<Rightarrow> (Inr (requeue 2), s3, c0)
    | Inr False \<Rightarrow> try_step (delete_removed (recording (fk_replicasets K ns)) spec (fleet_replicasets listed fleet) (s3, c0))
        (\<lambda>_. sync_fleet_status (recording_replicasets K) ns fleet spec))"
  using assms by (simp add: reconcile_fleet_applied_def call_defs Let_def split: sum.split bool.split)

text \<open>
  C15: Whatever the API server answers, the reconciliation of a Fleet creates only ReplicaSets of current
  templates that are missing, sets the number of replicas of a current ReplicaSet to that of its
  component, scales another ReplicaSet of a component to zero only while a current one has all
  replicas of the component ready, and deletes a ReplicaSet only if its component is gone or, while a
  current one is ready, if it asks for no replicas and has none.  At most one ReplicaSet is changed,
  no template ever is, and after a change the Fleet is reconciled again.
\<close>

theorem fleet_replaces_before_retiring:
  assumes "meta_namespace (fl_meta fleet) = Some ns" "fl_spec fleet = Some spec"
    and "ap_get (fk_network_classes K) (fs_network_class_name spec) s = (Inr (Some nc), s1)" "ap_list (fk_replicasets K ns) s1 = (Inr listed, s2)"
    and "reconcile_fleet_applied J (recording_replicasets K) fleet (s, []) = (r, s', calls)"
  shows "list_all (fleet_write_ok J fleet spec (fleet_replicasets listed fleet)) calls \<and> length (filter is_replace calls) \<le> 1 \<and>
         (filter is_replace calls \<noteq> [] \<longrightarrow> r = Inr (requeue 2) \<or> isl r)"
proof -
  let ?owned = "fleet_replicasets listed fleet" and ?A = "recording (fk_replicasets K ns)"
  obtain r0 s3 c0 where c: "reconcile_components J ?A fleet spec ?owned (fs_components spec) (s2, []) = (r0, s3, c0)" by (metis surj_pair)
  have c0: "list_all (fleet_write_ok J fleet spec ?owned) c0" "length (filter is_replace c0) \<le> 1" "r0 = Inr False \<longrightarrow> filter is_replace c0 = []"
    using components_calls [OF c] by auto
  note run = applied_steps [OF assms(1-4) c, unfolded assms(5)]
  show ?thesis
  proof (cases "r0 = Inr False")
    case False
    then have "c0 = calls \<and> (r = Inr (requeue 2) \<or> isl r)" using run by (auto split: sum.splits bool.splits)
    then show ?thesis using c0 by simp
  next
    case True
    obtain r1 s4 c1 where d: "delete_removed ?A spec ?owned (s3, c0) = (r1, s4, c1)" by (metis surj_pair)
    then have "calls = c1" using run True by (auto simp: call_defs dest: status_calls sym split: sum.splits)
    then show ?thesis using removed_calls [OF d, of ?owned J fleet] c0 True by auto
  qed
qed

definition example_fleet :: fleet where
  "example_fleet = \<lparr>fl_meta = Some (object_meta_default\<lparr>om_name := Some ''shop'', om_namespace := Some ''ns''\<rparr>),
     fl_spec = Some \<lparr>fs_network_class_name = ''net'', fs_components = [\<lparr>fc_name = ''web'', fc_replicas = 2, fc_ship_template = None\<rparr>]\<rparr>,
     fl_status = None\<rparr>"

definition example_revision :: "string \<Rightarrow> string \<Rightarrow> int \<Rightarrow> replica_set" where
  "example_revision n hash ready = \<lparr>rs_meta = Some (object_meta_default\<lparr>om_name := Some n,
       om_labels := [(''fleet-component'', ''web''), (''ship-template-hash'', hash)], om_owner_references := [owner_reference_for_fleet example_fleet]\<rparr>),
     rs_spec = Some \<lparr>rs_replicas = Some 2, rs_selector = [], rs_ship_template = None\<rparr>,
     rs_status = Some \<lparr>rss_replicas = 2, rss_ready_replicas = ready\<rparr>\<rparr>"

definition example_fleet_client :: "replica_set list \<Rightarrow> unit fleet_client" where
  "example_fleet_client rss = \<lparr>fk_network_classes = (accepting [])\<lparr>ap_get := \<lambda>n s. (Inr (Some \<lparr>nwc_meta = None, nwc_spec = None, nwc_status = None\<rparr>), s)\<rparr>,
     fk_replicasets = (\<lambda>ns. accepting rss), fk_patch_status = (\<lambda>ns n st s. (Inr (example_fleet\<lparr>fl_status := Some st\<rparr>), s))\<rparr>"

definition example_revisions :: "replica_set list" where
  "example_revisions = [example_revision ''shop-web-old'' ''0000000000000000'' 2, example_revision ''shop-web-new'' ''ffffffffffffffff'' 2]"

theorem fleet_replaces_before_retiring_witness:
  "\<exists>calls. reconcile_fleet_applied example_json (recording_replicasets (example_fleet_client example_revisions)) example_fleet ((), []) =
      (Inr (requeue 2), (), calls) \<and>
    calls = [Replace ''shop-web-old'' (with_replicas 0 (example_revision ''shop-web-old'' ''0000000000000000'' 2))] \<and>
    list_all (fleet_write_ok example_json example_fleet (the (fl_spec example_fleet)) example_revisions) calls"
proof -
  let ?K = "example_fleet_client example_revisions"
  have run: "reconcile_fleet_applied example_json (recording_replicasets ?K) example_fleet ((), []) = (Inr (requeue 2), (),
      [Replace ''shop-web-old'' (with_replicas 0 (example_revision ''shop-web-old'' ''0000000000000000'' 2))])"
    by code_simp
  have "fleet_replicasets example_revisions example_fleet = example_revisions" by code_simp
  moreover have "meta_namespace (fl_meta example_fleet) = Some ''ns''" "fl_spec example_fleet = Some (the (fl_spec example_fleet))" by code_simp+
  moreover have "ap_get (fk_network_classes ?K) (fs_network_class_name (the (fl_spec example_fleet))) () =
      (Inr (Some \<lparr>nwc_meta = None, nwc_spec = None, nwc_status = None\<rparr>), ())"
    "ap_list (fk_replicasets ?K ''ns'') () = (Inr example_revisions, ())"
    by (simp_all add: example_fleet_client_def accepting_def)
  ultimately show ?thesis using run fleet_replaces_before_retiring [OF _ _ _ _ run] by metis
qed

text \<open>
  A component counts as ready by the replicas its ReplicaSet has, not by those it asks for: with one
  of two replicas there and ready, the Fleet is reported ready and is not reconciled again.
\<close>

lemma partial_component_counts_ready:
  "(case sync_fleet_status (example_fleet_client [(example_revision ''shop-web-new'' ''ffffffffffffffff'' 1)\<lparr>rs_status := Some \<lparr>rss_replicas = 1, rss_ready_replicas = 1\<rparr>\<rparr>])
      ''ns'' example_fleet (the (fl_spec example_fleet)) () of (r, _) \<Rightarrow> r = Inr await_change)"
  by code_simp

text \<open>A component without replicas is never ready.\<close>

lemma zero_component_never_ready: "rs_status rs = Some st \<Longrightarrow> rss_replicas st = 0 \<Longrightarrow> \<not> component_ready rs"
  by (simp add: component_ready_def)

end
