(* ===== verification/Ship_Endpoints.thy ===== *)
theory Ship_Endpoints
  imports Api_Handlers Change_Classifier
begin

text \<open>
  The endpoints of Ships (\<^verbatim>\<open>tugboat-apiserver/src/endpoints/v1_core/ship.rs\<close>): the service account
  defaults, the rules on updates of the target node and of the snapshot, and the abortion of a
  migration.  The types of Ships, namespaces and service accounts, and whether the server issues
  service account tokens, are arguments.
\<close>

section \<open>Service account defaults\<close>

abbreviation in_quotes :: "string \<Rightarrow> string" where
  "in_quotes s \<equiv> [CHR 0x27] @ s @ [CHR 0x27]"

definition invalid :: "string \<Rightarrow> json option \<Rightarrow> status_response" where
  "invalid message details = with_all message ''Invalid'' 422 details"

definition ensure_service_account_exists ::
  "'s etcd \<Rightarrow> 'b resource_type \<Rightarrow> string \<Rightarrow> string \<Rightarrow> 's \<Rightarrow> (status_response + unit) \<times> 's" where
  "ensure_service_account_exists E S ns n s =
     try_store (get E S (Some ns) n s) (\<lambda>found s.
       (if unwrap_or False (map_option (\<lambda>data. deletion_timestamp (rt_meta S (apply_revision S data)) = None) found)
        then Inr ()
        else Inl (invalid ''spec.serviceAccountName references a ServiceAccount that does not exist''
          (Some (JObject [(''namespace'', JString ns), (''serviceAccountName'', JString n)]))), s))"

definition should_project_service_account_token :: "bool \<Rightarrow> bool option \<Rightarrow> bool" where
  "should_project_service_account_token token_issuer_enabled automount \<longleftrightarrow> token_issuer_enabled \<and> unwrap_or True automount"

definition default_service_account_token_volume :: ship_volume where
  "default_service_account_token_volume =
     \<lparr>sv_name = ''serviceaccount-token'', sv_persistent_volume_claim = None, sv_config_map = None, sv_secret = None,
      sv_projected = Some \<lparr>
        pvs_sources = [\<lparr>vp_service_account_token = Some \<lparr>satp_audience = None, satp_expiration_seconds = Some 3600, satp_path = ''token''\<rparr>,
          vp_config_map = None, vp_secret = None\<rparr>],
        pvs_default_mode = Some 384\<rparr>\<rparr>"

definition ensure_default_service_account_token_volume :: "ship_spec \<Rightarrow> status_response + ship_spec" where
  "ensure_default_service_account_token_volume spec =
     (case find (\<lambda>volume. sv_name volume = ''serviceaccount-token'') (ss_volumes spec) of
        Some existing \<Rightarrow>
          if is_default_service_account_token_volume existing then Inr spec
          else Inl (bad_request (''Ship volume '' @ in_quotes ''serviceaccount-token'' @ '' is reserved for the default ServiceAccount token projection'') None)
      | None \<Rightarrow> Inr (spec\<lparr>ss_volumes := ss_volumes spec @ [default_service_account_token_volume]\<rparr>))"

definition remove_default_service_account_token_volume :: "ship_spec \<Rightarrow> ship_spec" where
  "remove_default_service_account_token_volume spec =
     spec\<lparr>ss_volumes := filter (\<lambda>volume. \<not> is_default_service_account_token_volume volume) (ss_volumes spec)\<rparr>"

definition apply_ship_service_account_defaults ::
  "'s etcd \<Rightarrow> 'b resource_type \<Rightarrow> bool \<Rightarrow> string \<Rightarrow> ship \<Rightarrow> 's \<Rightarrow> (status_response + ship) \<times> 's" where
  "apply_ship_service_account_defaults E S tokens ns ship s = (case ship_spec ship of
     None \<Rightarrow> (Inr ship, s)
   | Some spec \<Rightarrow>
       (let name = unwrap_or ''default'' (ss_service_account_name spec);
            explicit = ss_service_account_name spec \<noteq> None;
            spec = spec\<lparr>ss_service_account_name := Some name\<rparr>
        in case (if explicit \<and> name \<noteq> ''default'' then ensure_service_account_exists E S ns name s else (Inr (), s)) of
             (Inl e, s) \<Rightarrow> (Inl e, s)
           | (Inr _, s) \<Rightarrow>
               if should_project_service_account_token tokens (ss_automount_service_account_token spec)
               then try_pure (ensure_default_service_account_token_volume spec) (\<lambda>spec s. (Inr (ship\<lparr>ship_spec := Some spec\<rparr>), s)) s
               else (Inr (ship\<lparr>ship_spec := Some (remove_default_service_account_token_volume spec)\<rparr>), s)))"

section \<open>Rules on updates\<close>

definition validate_ship_target_node_name_update :: "ship \<Rightarrow> ship \<Rightarrow> status_response + unit" where
  "validate_ship_target_node_name_update current updated =
     (let node_name = Option.bind (ship_spec updated) ss_node_name;
          target = Option.bind (ship_spec updated) ss_target_node_name
      in if target = Some [] then Inl (bad_request ''spec.targetNodeName must not be empty'' None)
         else if target \<noteq> None \<and> target = node_name
         then Inl (bad_request ''spec.targetNodeName must differ from spec.nodeName'' None)
         else if Option.bind (ship_spec current) ss_target_node_name \<noteq> target \<and> has_active_migration current
         then Inl (conflict ''Cannot change spec.targetNodeName while migration is in progress; use /migrate/abort to cancel it first'' None)
         else Inr ())"

definition ship_is_running :: "ship \<Rightarrow> bool" where
  "ship_is_running ship = is_some_and (\<lambda>node. node \<noteq> []) (Option.bind (ship_spec ship) ss_node_name)"

definition validate_ship_restore_from_snapshot_update :: "ship \<Rightarrow> ship \<Rightarrow> status_response + unit" where
  "validate_ship_restore_from_snapshot_update current updated =
     (let v = Option.bind (ship_spec updated) ss_restore_from_snapshot
      in if v = Some [] then Inl (bad_request ''spec.restoreFromSnapshot must not be empty'' None)
         else if Option.bind (ship_spec current) ss_restore_from_snapshot \<noteq> v \<and> ship_is_running current
         then Inl (conflict ''spec.restoreFromSnapshot is immutable after the Ship is running'' None)
         else Inr ())"

section \<open>Endpoints\<close>

definition ship_options :: replace_options where
  "ship_options = \<lparr>ro_preserve_status = True, ro_use_client_resource_version = True, ro_update_generation = True\<rparr>"

definition create_ship_with_defaults ::
  "'s etcd \<Rightarrow> 'n resource_type \<Rightarrow> 'b resource_type \<Rightarrow> ship api_type \<Rightarrow> bool \<Rightarrow> string \<Rightarrow> time \<Rightarrow> (nat \<Rightarrow> string) \<Rightarrow> ship \<Rightarrow> string \<Rightarrow> 's \<Rightarrow>
   (status_response + ship modify_response) \<times> 's" where
  "create_ship_with_defaults E N S T tokens uuid now samples ship ns s =
     (case ensure_namespace_exists E N ns s of
        (Inl e, s) \<Rightarrow> (Inl e, s)
      | (Inr _, s) \<Rightarrow>
          try_pure (extract_object_meta T ship) (\<lambda>meta s.
          case apply_ship_service_account_defaults E S tokens ns ship s of
            (Inl e, s) \<Rightarrow> (Inl e, s)
          | (Inr ship, s) \<Rightarrow>
              try_pure (validate_resource T ship) (\<lambda>_.
              create_object E T uuid now samples (apply_namespace meta ns) ship) s) s)"

text \<open>The part that \<^verbatim>\<open>handle_ship_replace\<close> and \<^verbatim>\<open>handle_ship_patch\<close> share: from the new object to the answer.\<close>

definition store_ship_update ::
  "'s etcd \<Rightarrow> 'b resource_type \<Rightarrow> ship api_type \<Rightarrow> bool \<Rightarrow> string \<Rightarrow> ship \<Rightarrow> ship \<Rightarrow> 's \<Rightarrow> (status_response + ship modify_response) \<times> 's" where
  "store_ship_update E S T tokens ns current updated s =
     (case apply_ship_service_account_defaults E S tokens ns updated s of
        (Inl e, s) \<Rightarrow> (Inl e, s)
      | (Inr updated, s) \<Rightarrow>
          try_pure (validate_resource T updated) (\<lambda>_.
          try_pure (validate_ship_target_node_name_update current updated) (\<lambda>_.
          try_pure (validate_ship_restore_from_snapshot_update current updated) (\<lambda>_.
          put_if_changed E T current updated Updated))) s)"

definition handle_ship_replace ::
  "'s etcd \<Rightarrow> 'b resource_type \<Rightarrow> ship api_type \<Rightarrow> bool \<Rightarrow> string \<Rightarrow> string \<Rightarrow> ship \<Rightarrow> 's \<Rightarrow> (status_response + ship modify_response) \<times> 's" where
  "handle_ship_replace E S T tokens ns n replacement = with_current E T (Some ns) n (\<lambda>current.
     try_pure (validate_resource_name T replacement n) (\<lambda>_.
     try_pure (apply_replacement T current ship_options replacement) (\<lambda>replaced.
     store_ship_update E S T tokens ns current replaced)))"

definition handle_ship_patch ::
  "'s etcd \<Rightarrow> 'b resource_type \<Rightarrow> ship api_type \<Rightarrow> bool \<Rightarrow> string \<Rightarrow> string \<Rightarrow> json_map \<Rightarrow> 's \<Rightarrow> (status_response + ship modify_response) \<times> 's" where
  "handle_ship_patch E S T tokens ns n patch = with_current E T (Some ns) n (\<lambda>current.
     try_pure (apply_patch T current ship_options patch) (\<lambda>patched.
     store_ship_update E S T tokens ns current patched))"

definition ship_migration_status_default :: ship_migration_status where
  "ship_migration_status_default = \<lparr>sms_phase = [], sms_source_node_name = None, sms_target_node_name = None,
     sms_target_address = None, sms_target_port = None, sms_message = [], sms_timestamp = None, sms_bytes_transferred = None,
     sms_bytes_remaining = None\<rparr>"

definition abort_ship_migration :: "ship api_type \<Rightarrow> time \<Rightarrow> ship \<Rightarrow> status_response + ship" where
  "abort_ship_migration T now ship = (case Option.bind (ship_spec ship) ss_target_node_name of
     None \<Rightarrow> Inl (conflict ''Ship does not have a pending migration target'' None)
   | Some target \<Rightarrow>
       (let ship = bump_generation T (ship\<lparr>ship_spec := map_option (\<lambda>sp. sp\<lparr>ss_target_node_name := None\<rparr>) (ship_spec ship)\<rparr>);
            status = unwrap_or ship_status_default (ship_status ship);
            migration = unwrap_or ship_migration_status_default (st_migration status);
            migration = migration\<lparr>sms_phase := ''Failed'',
              sms_target_node_name := Some (unwrap_or target (sms_target_node_name migration)),
              sms_message := ''Live migration aborted via API request'', sms_timestamp := Some now\<rparr>;
            condition = \<lparr>sc_status = ''VmMigrationAborted'',
              sc_message = ''Live migration to node '' @ in_quotes target @ '' was aborted by API request'', sc_timestamp = Some now\<rparr>
        in Inr (ship\<lparr>ship_status := Some (status\<lparr>st_migration := Some migration,
             st_conditions := st_conditions status @ [condition]\<rparr>)\<rparr>)))"

definition handle_ship_migration_abort ::
  "'s etcd \<Rightarrow> ship api_type \<Rightarrow> time \<Rightarrow> string \<Rightarrow> string \<Rightarrow> 's \<Rightarrow> (status_response + ship modify_response) \<times> 's" where
  "handle_ship_migration_abort E T now ns n = with_current E T (Some ns) n (\<lambda>current.
     try_pure (abort_ship_migration T now current) (\<lambda>aborted s.
     try_store (put E (at_resource T) aborted s) (\<lambda>data s. (Inr (Updated (apply_revision (at_resource T) data)), s))))"

end
