(* ===== verification/Ship_Updates.thy ===== *)
theory Ship_Updates
  imports Api_Effects Ship_Endpoints Replicaset
begin

text \<open>
  How the endpoints of Ships and the ReplicaSet controller work together: the server completes the
  service account settings of every Ship that the controller writes, and the controller compares the
  result with its template again.
\<close>

section \<open>The Ship type\<close>

text \<open>
  The generated accessors of the metadata, and what serde does with the specification: it is one member
  of the JSON object, and reading an object with the same member yields the same specification.
\<close>

definition ship_type :: "ship api_type \<Rightarrow> bool" where
  "ship_type T \<longleftrightarrow> at_meta T = ship_meta \<and> at_set_meta T = (\<lambda>m v. v\<lparr>ship_meta := m\<rparr>) \<and> at_set_type_meta T = (\<lambda>_ v. v)"

definition spec_reads_back :: "ship api_type \<Rightarrow> ship \<Rightarrow> bool" where
  "spec_reads_back T v \<longleftrightarrow> (\<exists>obj j. at_to_json T v = Inr (JObject obj) \<and> obj_get obj ''spec'' = Some j \<and>
     (\<forall>obj' w. obj_get obj' ''spec'' = Some j \<and> at_from_json T (JObject obj') = Inr w \<longrightarrow> ship_spec w = ship_spec v))"

text \<open>
  The member of the runtime class in JSON as \<^verbatim>\<open>tugboat-resources/build.rs\<close> configures serde: a field with its
  default value is left out, and a member that is present is read.
\<close>

definition runtime_class_json :: "ship api_type \<Rightarrow> bool" where
  "runtime_class_json T \<longleftrightarrow>
     (\<forall>v sp. ship_spec v = Some sp \<longrightarrow> (\<exists>obj m. at_to_json T v = Inr (JObject obj) \<and> map_sorted obj \<and> obj_get obj ''spec'' = Some (JObject m) \<and>
        map_sorted m \<and> obj_get m ''runtimeClass'' = map_option JString (ss_runtime_class sp))) \<and>
     (\<forall>obj m x w. obj_get obj ''spec'' = Some (JObject m) \<and> obj_get m ''runtimeClass'' = Some (JString x) \<and>
        at_from_json T (JObject obj) = Inr w \<longrightarrow> Option.bind (ship_spec w) ss_runtime_class = Some x)"

lemma apply_revision_spec: "ship_type T \<Longrightarrow> ship_spec (apply_revision (at_resource T) c) = ship_spec (cd_data c)"
  by (simp add: apply_revision_def ship_type_def Let_def split: option.split)

lemma enforce_metadata_spec: "ship_type T \<Longrightarrow> ship_spec (enforce_metadata T current options pm changed v) = ship_spec v"
  by (simp add: enforce_metadata_def ship_type_def split: option.split)

section \<open>Example\<close>

text \<open>
  The Ship type with a part of the JSON conversion, and a database that has every key and accepts every
  transaction; the stored Ship has a runtime class.
\<close>

definition small_ship :: "ship_spec \<Rightarrow> ship" where
  "small_ship sp = \<lparr>ship_meta = Some (object_meta_default\<lparr>om_name := Some ''a'', om_namespace := Some ''ns''\<rparr>), ship_spec = Some sp, ship_status = None\<rparr>"

definition small_spec :: "string \<Rightarrow> string option \<Rightarrow> ship_spec" where
  "small_spec img rc = ship_spec_default\<lparr>ss_image := img, ss_runtime_class := rc\<rparr>"

definition small_to_json :: "ship \<Rightarrow> string + json" where
  "small_to_json v = Inr (JObject (case ship_spec v of None \<Rightarrow> []
     | Some sp \<Rightarrow> [(''spec'', JObject ((''image'', JString (ss_image sp)) #
         (case ss_runtime_class sp of None \<Rightarrow> [] | Some rc \<Rightarrow> [(''runtimeClass'', JString rc)])))]))"

definition small_from_json :: "json \<Rightarrow> string + ship" where
  "small_from_json v = Inr (small_ship (small_spec (unwrap_or [] (Option.bind (pointer v [''spec'', ''image'']) as_str))
     (Option.bind (pointer v [''spec'', ''runtimeClass'']) as_str)))"

definition small_api :: "ship api_type" where
  "small_api = \<lparr>at_resource = \<lparr>rt_descriptor = ship_descriptor, rt_meta = ship_meta, rt_set_meta = (\<lambda>m v. v\<lparr>ship_meta := m\<rparr>),
       rt_encode = (\<lambda>v. []), rt_decode = (\<lambda>b. Some (small_ship (small_spec ''img:1'' (Some ''kvm''))))\<rparr>,
     at_to_json = small_to_json, at_from_json = small_from_json, at_set_type_meta = (\<lambda>_ v. v), at_validate = (\<lambda>v. True)\<rparr>"

definition full_etcd :: "unit etcd" where
  "full_etcd = \<lparr>et_get = (\<lambda>k s. (Inr \<lparr>gr_revision = Some 2, gr_kvs = [fresh_kv k [] 2]\<rparr>, s)),
     et_get_prefix = (\<lambda>p l s. (Inr \<lparr>gr_revision = Some 2, gr_kvs = []\<rparr>, s)),
     et_delete = (\<lambda>k s. (Inr [], s)),
     et_txn = (\<lambda>cs th el s. (Inr \<lparr>tr_succeeded = True, tr_revision = Some 3, tr_responses = [RespPut]\<rparr>, s))\<rparr>"

lemma small_ship_type: "ship_type small_api"
  by (simp add: ship_type_def small_api_def)

lemma small_pointer:
  "obj_get obj ''spec'' = Some (JObject m) \<Longrightarrow> pointer (JObject obj) [''spec'', k] = obj_get m k"
  by (simp add: value_get_def)

lemma small_reads_back: "spec_reads_back small_api (small_ship (small_spec img rc))"
proof -
  let ?m = "(''image'', JString img) # (case rc of None \<Rightarrow> [] | Some x \<Rightarrow> [(''runtimeClass'', JString x)])"
  have "at_to_json small_api (small_ship (small_spec img rc)) = Inr (JObject [(''spec'', JObject ?m)])"
    by (simp add: small_api_def small_to_json_def small_ship_def small_spec_def)
  moreover have "ship_spec w = ship_spec (small_ship (small_spec img rc))"
    if "obj_get obj ''spec'' = Some (JObject ?m)" "at_from_json small_api (JObject obj) = Inr w" for obj w
    using that(2) small_pointer [OF that(1)] by (cases rc) (auto simp: small_api_def small_from_json_def simp del: pointer.simps)
  ultimately show ?thesis unfolding spec_reads_back_def by (intro exI conjI) auto
qed

lemma small_runtime_class_json: "runtime_class_json small_api"
  by (auto simp: runtime_class_json_def small_api_def small_to_json_def small_from_json_def small_pointer small_ship_def small_spec_def
      simp del: pointer.simps split: option.split)

section \<open>Defaults of the server and normalization by the controller\<close>

lemma default_volume [simp]: "is_default_service_account_token_volume default_service_account_token_volume"
  by (simp add: is_default_service_account_token_volume_def default_service_account_token_volume_def)

definition placed_like :: "ship_spec \<Rightarrow> ship_spec \<Rightarrow> ship_spec" where
  "placed_like t spec = spec\<lparr>ss_node_name := ss_node_name t, ss_scheduler_name := ss_scheduler_name t, ss_target_node_name := ss_target_node_name t\<rparr>"

lemma normalize_named:
  "normalize_service_account_defaults
     (placed_like t (spec\<lparr>ss_service_account_name := Some (unwrap_or ''default'' (ss_service_account_name spec))\<rparr>)) =
   normalize_service_account_defaults (placed_like t spec)"
  by (cases "ss_service_account_name spec") (simp_all add: normalize_service_account_defaults_def placed_like_def)

lemma normalize_volumes:
  assumes "filter (\<lambda>volume. \<not> is_default_service_account_token_volume volume) vs =
    filter (\<lambda>volume. \<not> is_default_service_account_token_volume volume) (ss_volumes spec)"
  shows "normalize_service_account_defaults (placed_like t (spec\<lparr>ss_volumes := vs\<rparr>)) = normalize_service_account_defaults (placed_like t spec)"
  using assms by (simp add: normalize_service_account_defaults_def placed_like_def)

lemma ensured_volumes:
  assumes "ensure_default_service_account_token_volume spec = Inr w"
  shows "w = spec \<or> w = spec\<lparr>ss_volumes := ss_volumes spec @ [default_service_account_token_volume]\<rparr>"
  using assms by (simp add: ensure_default_service_account_token_volume_def split: option.splits if_splits)

lemma normalize_completed:
  "ensure_default_service_account_token_volume spec = Inr w \<or> w = remove_default_service_account_token_volume spec \<Longrightarrow>
   normalize_service_account_defaults (placed_like t w) = normalize_service_account_defaults (placed_like t spec)"
  by (auto simp: remove_default_service_account_token_volume_def intro!: normalize_volumes dest!: ensured_volumes)

lemma needs_spec_update_iff:
  "needs_spec_update t spec \<longleftrightarrow> normalize_service_account_defaults t \<noteq> normalize_service_account_defaults (placed_like t spec)"
  by (simp add: needs_spec_update_def placed_like_def)

lemma defaults_settle:
  assumes "apply_ship_service_account_defaults E S tokens ns ship s = (Inr ship', s')"
  shows "ship_needs_update ship' t = ship_needs_update ship t"
proof (cases "ship_spec ship")
  case None
  then show ?thesis using assms by (simp add: apply_ship_service_account_defaults_def)
next
  case (Some spec)
  let ?named = "spec\<lparr>ss_service_account_name := Some (unwrap_or ''default'' (ss_service_account_name spec))\<rparr>"
  have "ship_spec ship' = Some (remove_default_service_account_token_volume ?named) \<or>
    (\<exists>w. ensure_default_service_account_token_volume ?named = Inr w \<and> ship_spec ship' = Some w)"
    using assms Some by (auto simp: apply_ship_service_account_defaults_def Let_def try_pure_def split: prod.splits sum.splits if_splits)
  then obtain w where "ship_spec ship' = Some w"
    "normalize_service_account_defaults (placed_like t w) = normalize_service_account_defaults (placed_like t ?named)"
    using normalize_completed [of ?named _ t] by blast
  then show ?thesis
    using Some normalize_named [of t spec] by (simp add: ship_needs_update_def needs_spec_update_iff)
qed

section \<open>Writes of the controller settle\<close>

lemma put_data:
  "put E R v s = (Inr c, s') \<Longrightarrow> cd_data c = v"
  "put_if_not_exists E R v s = (Inr (Some c), s') \<Longrightarrow> cd_data c = v"
  by (auto simp: put_def put_if_not_exists_def split: sum.splits prod.splits option.splits if_splits)

lemma create_generated_spec:
  "ship_type T \<Longrightarrow> create_generated E T meta gn object samples s = (Inr r, s') \<Longrightarrow> \<exists>v. r = Created v \<and> ship_spec v = ship_spec object"
  by (induction samples arbitrary: s)
    (auto simp: try_store_def apply_revision_spec ship_type_def dest!: put_data(2) split: sum.splits prod.splits option.splits)

lemma create_object_spec:
  assumes "ship_type T" and "create_object E T uuid now samples meta object s = (Inr r, s')"
  shows "\<exists>v. r = Created v \<and> ship_spec v = ship_spec object"
proof (cases "om_name meta")
  case None
  then show ?thesis
    using assms create_generated_spec [OF assms(1)]
    by (auto simp: create_object_def Let_def ship_type_def apply_uid_def split: option.splits)
next
  case (Some n)
  then show ?thesis
    using assms by (auto simp: create_object_def Let_def try_store_def apply_revision_spec ship_type_def apply_uid_def
      dest!: put_data(2) split: sum.splits prod.splits option.splits)
qed

lemma create_ship_settles:
  assumes "ship_type T" and "create_ship_with_defaults E N S T tokens uuid now samples ship ns s = (Inr r, s')"
  shows "\<exists>v. r = Created v \<and> ship_needs_update v t = ship_needs_update ship t"
proof -
  obtain s1 ship' s2 m where d: "apply_ship_service_account_defaults E S tokens ns ship s1 = (Inr ship', s2)"
    and c: "create_object E T uuid now samples m ship' s2 = (Inr r, s')"
    using assms(2) by (auto simp: create_ship_with_defaults_def try_pure_def split: sum.splits prod.splits)
  show ?thesis
    using create_object_spec [OF assms(1) c] defaults_settle [OF d, of t] by (auto simp: ship_needs_update_def)
qed

lemma store_ship_update_settles:
  assumes "ship_type T" and "store_ship_update E S T tokens ns current ship s = (Inr r, s')"
  shows "\<exists>v. r = Updated v \<and> ship_needs_update v t = ship_needs_update ship t"
proof -
  obtain ship' s1 where d: "apply_ship_service_account_defaults E S tokens ns ship s = (Inr ship', s1)"
    and p: "put_if_changed E T current ship' Updated s1 = (Inr r, s')"
    using assms(2) by (auto simp: store_ship_update_def try_pure_def split: sum.splits prod.splits)
  have "\<exists>v. r = Updated v \<and> ship_spec v = ship_spec ship'"
    using p by (auto simp: put_if_changed_def try_store_def apply_revision_spec [OF assms(1)] dest!: put_data(1)
      split: if_splits sum.splits prod.splits)
  then show ?thesis using defaults_settle [OF d, of t] by (auto simp: ship_needs_update_def)
qed

lemma map_of_insert_other: "k' \<noteq> k \<Longrightarrow> map_of (obj_insert k v m) k' = map_of m k'"
  by (induction m) auto

lemma map_of_or_insert_other: "k' \<noteq> k \<Longrightarrow> map_of (obj_or_insert k v m) k' = map_of m k'"
  by (simp add: obj_or_insert_def map_of_insert_other split: option.split)

lemma spec_of_updated:
  "obj_get (patched_object options current obj) ''spec'' = obj_get obj ''spec''"
  "obj_get (preserve_metadata_map cm field obj) ''spec'' = obj_get obj ''spec''"
  by (simp_all add: patched_object_def restore_type_def restore_status_def preserve_metadata_map_def Let_def map_of_insert_other
      map_of_or_insert_other split: option.split json.split)

lemma spec_of_replaced: "obj_get (replaced_object options current obj) ''spec'' = obj_get obj ''spec''"
  by (simp add: replaced_object_def Let_def spec_of_updated split: option.split json.split)

lemma replacement_spec:
  assumes "ship_type T" and "spec_reads_back T v" and "apply_replacement T current options v = Inr w"
  shows "ship_spec w = ship_spec v"
proof -
  obtain obj j where j: "at_to_json T v = Inr (JObject obj)" "obj_get obj ''spec'' = Some j"
    "\<forall>obj' u. obj_get obj' ''spec'' = Some j \<and> at_from_json T (JObject obj') = Inr u \<longrightarrow> ship_spec u = ship_spec v"
    using assms(2) unfolding spec_reads_back_def by (elim exE conjE) (rule that)
  then obtain cur u where "at_from_json T (JObject (replaced_object options cur obj)) = Inr u" "ship_spec w = ship_spec u"
    using assms(3) by (auto simp: apply_replacement_Inr enforce_metadata_spec [OF assms(1)])
  then show ?thesis using j(2) j(3) [rule_format, of "replaced_object options cur obj" u] by (simp add: spec_of_replaced)
qed

text \<open>
  C16: The server's defaults do not make the controller update a Ship again: a Ship that the controller
  creates from a template, or replaces with the template applied, comes back from the server as one
  that does not differ from the template, whatever service account settings the server has filled in.
\<close>

theorem ship_writes_settle:
  assumes "ship_type T" and "spec_reads_back T (apply_template_spec ship t)"
  shows "(\<forall>r s'. create_ship_with_defaults E N S T tokens uuid now samples (build_ship x rs \<lparr>ts_metadata = tm, ts_spec = Some t\<rparr>) ns s =
       (Inr r, s') \<longrightarrow> (\<exists>v. r = Created v \<and> \<not> ship_needs_update v t)) \<and>
    (\<forall>r s'. handle_ship_replace E S T tokens ns n (apply_template_spec ship t) s = (Inr r, s') \<longrightarrow>
       (\<exists>v. r = Updated v \<and> \<not> ship_needs_update v t))"
proof (intro conjI allI impI)
  fix r s' assume "create_ship_with_defaults E N S T tokens uuid now samples (build_ship x rs \<lparr>ts_metadata = tm, ts_spec = Some t\<rparr>) ns s = (Inr r, s')"
  from create_ship_settles [OF assms(1) this, of t] show "\<exists>v. r = Created v \<and> \<not> ship_needs_update v t"
    by (auto simp: build_ship_def ship_needs_update_def needs_spec_update_def Let_def)
next
  fix r s' assume run: "handle_ship_replace E S T tokens ns n (apply_template_spec ship t) s = (Inr r, s')"
  obtain current w s1 where w: "apply_replacement T current ship_options (apply_template_spec ship t) = Inr w"
    and u: "store_ship_update E S T tokens ns current w s1 = (Inr r, s')"
    using run by (auto simp: handle_ship_replace_def with_current_def try_store_def try_pure_def split: sum.splits prod.splits option.splits)
  have "ship_spec w = ship_spec (apply_template_spec ship t)" using assms w by (rule replacement_spec)
  then have "\<not> ship_needs_update w t" by (simp add: ship_needs_update_def needs_spec_update_def apply_template_spec_def Let_def)
  then show "\<exists>v. r = Updated v \<and> \<not> ship_needs_update v t" using store_ship_update_settles [OF assms(1) u, of t] by auto
qed

theorem ship_writes_settle_witness:
  "\<exists>v s'. handle_ship_replace full_etcd (at_resource small_api) small_api True ''ns'' ''a''
      (apply_template_spec (small_ship (small_spec ''img:1'' (Some ''kvm''))) (small_spec ''img:2'' (Some ''kvm''))) () = (Inr (Updated v), s') \<and>
    \<not> ship_needs_update v (small_spec ''img:2'' (Some ''kvm''))"
proof -
  let ?t = "small_spec ''img:2'' (Some ''kvm'')" and ?ship = "small_ship (small_spec ''img:1'' (Some ''kvm''))"
  have applied: "apply_template_spec ?ship ?t = small_ship ?t"
    by (simp add: apply_template_spec_def small_ship_def small_spec_def ship_spec_default_def)
  have "\<not> isl (fst (handle_ship_replace full_etcd (at_resource small_api) small_api True ''ns'' ''a'' (small_ship ?t) ()))"
    by code_simp
  then obtain r s' where "handle_ship_replace full_etcd (at_resource small_api) small_api True ''ns'' ''a'' (small_ship ?t) () = (Inr r, s')"
    by (metis sum.collapse(2) prod.collapse)
  then show ?thesis
    using ship_writes_settle [OF small_ship_type small_reads_back [of "''img:2''" "Some ''kvm''", folded applied]] applied by metis
qed

section \<open>Patches cannot clear a field\<close>

lemma patched_runtime_class:
  assumes "ship_type T" and json: "runtime_class_json T"
    and "ship_spec current = Some sp" and "ss_runtime_class sp = Some rc"
    and "ship_spec v = Some spec" and "ss_runtime_class spec = None" and patch: "at_to_json T v = Inr (JObject patch)"
    and "apply_patch T current options patch = Inr w"
  shows "Option.bind (ship_spec w) ss_runtime_class = Some rc"
proof -
  obtain obj m where obj: "at_to_json T current = Inr (JObject obj)" "map_sorted obj" "obj_get obj ''spec'' = Some (JObject m)"
    "map_sorted m" "obj_get m ''runtimeClass'' = Some (JString rc)"
    using json assms(3,4) unfolding runtime_class_json_def by force
  obtain m' where m': "map_sorted patch" "obj_get patch ''spec'' = Some (JObject m')" "map_sorted m'" "obj_get m' ''runtimeClass'' = None"
    using json assms(5,6) patch unfolding runtime_class_json_def by force
  obtain u where u: "at_from_json T (JObject (patched_object options obj (merge_entries obj patch))) = Inr u" "ship_spec w = ship_spec u"
    using assms(8) obj(1) by (auto simp: apply_patch_Inr enforce_metadata_spec [OF assms(1)])
  have "obj_get (merge_entries obj patch) ''spec'' = Some (JObject (merge_entries m m'))"
    using obj(3) m'(2) by (simp add: merge_entries_lookup [OF obj(2) map_sorted_distinct [OF m'(1)]])
  moreover have "obj_get (merge_entries m m') ''runtimeClass'' = Some (JString rc)"
    using obj(5) m'(4) by (simp add: merge_entries_lookup [OF obj(4) map_sorted_distinct [OF m'(3)]])
  ultimately have "Option.bind (ship_spec u) ss_runtime_class = Some rc"
    using json [unfolded runtime_class_json_def, THEN conjunct2, rule_format,
        of "patched_object options obj (merge_entries obj patch)" "merge_entries m m'" rc u] u(1) by (simp add: spec_of_updated)
  then show ?thesis using u(2) by simp
qed



end
