(* ===== verification/Node_Drain.thy ===== *)
theory Node_Drain
  imports Api_Handlers Sched_Framework "HOL-Library.Sublist"
begin

text \<open>
  The drain of a node (\<^verbatim>\<open>tugboat-apiserver/src/endpoints/v1_core/node.rs\<close>): the API server marks the node
  unschedulable, plans a migration for each of its Ships with plugins of the scheduler, and writes the
  node and the target nodes of the Ships in one transaction.
\<close>

section \<open>Planning\<close>

record drain_planning_resources =
  dr_nodes :: "node list"
  dr_ships :: "ship list"
  dr_ship_classes :: "ship_class list"
  dr_network_classes :: "network_class list"
  dr_cluster_network_classes :: "network_class list"
  dr_runtime_classes :: "runtime_class list"
  dr_persistent_volume_claims :: "persistent_volume_claim list"
  dr_persistent_volumes :: "persistent_volume list"

record node_drain_warning =
  nw_ship :: string
  nw_reason :: string

record planned_migration =
  pm_ship_key :: string
  pm_ship_namespace :: string
  pm_ship_name :: string
  pm_target_node_name :: string

record drain_plan =
  dp_started :: "planned_migration list"
  dp_warnings :: "node_drain_warning list"

definition build_drain_framework :: framework where
  "build_drain_framework =
     build_framework [''Unschedulable'', ''NetworkFit'', ''TaintToleration'', ''ResourceFit'', ''StorageFit''] [''TaintToleration'', ''LeastAllocated'']"

fun replace_first :: "('a \<Rightarrow> bool) \<Rightarrow> 'a \<Rightarrow> 'a list \<Rightarrow> 'a list" where
  "replace_first P v [] = [v]"
| "replace_first P v (x # xs) = (if P x then v # xs else x # replace_first P v xs)"

definition apply_drain_node_state :: "drain_planning_resources \<Rightarrow> string \<Rightarrow> node \<Rightarrow> drain_planning_resources" where
  "apply_drain_node_state resources n node =
     resources\<lparr>dr_nodes := replace_first (\<lambda>candidate. meta_name (node_meta candidate) = Some n) node (dr_nodes resources)\<rparr>"

definition ship_key :: "ship \<Rightarrow> string" where
  "ship_key ship = unwrap_or ''default'' (meta_namespace (ship_meta ship)) @ ''/'' @ unwrap_or ''unknown'' (meta_name (ship_meta ship))"

fun check_migration_volumes :: "string \<Rightarrow> drain_planning_resources \<Rightarrow> ship_volume list \<Rightarrow> string + unit" where
  "check_migration_volumes ns resources [] = Inr ()"
| "check_migration_volumes ns resources (volume # volumes) =
     (case sv_persistent_volume_claim volume of
        None \<Rightarrow> check_migration_volumes ns resources volumes
      | Some pvc_source \<Rightarrow>
          (case find (\<lambda>pvc. meta_name (pvc_meta pvc) = Some pvc_source \<and> meta_namespace (pvc_meta pvc) = Some ns)
                  (dr_persistent_volume_claims resources) of
             None \<Rightarrow> check_migration_volumes ns resources volumes
           | Some pvc \<Rightarrow>
               if \<not> unwrap_or False (map_option (\<lambda>item. list_ex (\<lambda>mode. mode = ''ReadWriteMany'') (pvcs_access_modes item)) (pvc_spec pvc))
               then Inl (''PersistentVolumeClaim '' @ quoted (unwrap_or ''<unknown>'' (meta_name (pvc_meta pvc))) @ '' does not support '' @ quoted ''ReadWriteMany'')
               else
                 (let pv_name = unwrap_or [] (Option.bind (pvc_spec pvc) pvcs_volume_name) in
                  if pv_name = [] then check_migration_volumes ns resources volumes
                  else case find (\<lambda>pv. meta_name (pv_meta pv) = Some pv_name) (dr_persistent_volumes resources) of
                    None \<Rightarrow> check_migration_volumes ns resources volumes
                  | Some pv \<Rightarrow>
                      if unwrap_or False (map_option (\<lambda>item. list_ex (\<lambda>mode. mode = ''ReadWriteMany'') (pvs_access_modes item)) (pv_spec pv))
                      then check_migration_volumes ns resources volumes
                      else Inl (''PersistentVolume '' @ quoted pv_name @ '' does not support '' @ quoted ''ReadWriteMany''))))"

definition ensure_ship_supports_migration_storage :: "ship \<Rightarrow> drain_planning_resources \<Rightarrow> string + unit" where
  "ensure_ship_supports_migration_storage ship resources = (case ship_spec ship of
     None \<Rightarrow> Inr ()
   | Some spec \<Rightarrow> check_migration_volumes (unwrap_or ''default'' (meta_namespace (ship_meta ship))) resources (ss_volumes spec))"

definition build_planned_migration :: "string \<Rightarrow> ship \<Rightarrow> string \<Rightarrow> string \<Rightarrow> node_drain_warning + planned_migration" where
  "build_planned_migration drained ship key target =
     (if target = drained then Inl \<lparr>nw_ship = key, nw_reason = ''selected target node matched the drained node''\<rparr>
      else case meta_namespace (ship_meta ship) of
        None \<Rightarrow> Inl \<lparr>nw_ship = key, nw_reason = ''ship is missing namespace metadata''\<rparr>
      | Some ns \<Rightarrow>
          (case meta_name (ship_meta ship) of
             None \<Rightarrow> Inl \<lparr>nw_ship = key, nw_reason = ''ship is missing name metadata''\<rparr>
           | Some n \<Rightarrow> Inr \<lparr>pm_ship_key = key, pm_ship_namespace = ns, pm_ship_name = n, pm_target_node_name = target\<rparr>))"

definition reserve_ship_on_target :: "ship \<Rightarrow> string \<Rightarrow> ship" where
  "reserve_ship_on_target ship target =
     ship\<lparr>ship_spec := Some ((unwrap_or ship_spec_default (ship_spec ship))\<lparr>ss_node_name := Some target, ss_target_node_name := None\<rparr>)\<rparr>"

definition drain_context :: "drain_planning_resources \<Rightarrow> ship list \<Rightarrow> ship \<Rightarrow> ship_class \<Rightarrow> scheduling_context" where
  "drain_context resources shadow ship cls =
     \<lparr>ctx_ship = ship, ctx_ship_class = cls, ctx_cluster_network_classes = dr_cluster_network_classes resources,
      ctx_network_classes = dr_network_classes resources, ctx_runtime_classes = dr_runtime_classes resources,
      ctx_ships = shadow, ctx_nodes = dr_nodes resources, ctx_ship_classes = dr_ship_classes resources,
      ctx_pvcs = dr_persistent_volume_claims resources, ctx_pvs = dr_persistent_volumes resources, ctx_storage_classes = []\<rparr>"

text \<open>
  The decision for one Ship: \<open>None\<close> if it is not on the drained node, a warning, or a migration and the
  Ship as it will run on the target.
\<close>

definition plan_ship ::
  "string \<Rightarrow> drain_planning_resources \<Rightarrow> framework \<Rightarrow> ship list \<Rightarrow> ship \<Rightarrow> (node_drain_warning + planned_migration \<times> ship) option" where
  "plan_ship drained resources fw shadow ship =
     (let key = ship_key ship; warning = (\<lambda>reason. Some (Inl \<lparr>nw_ship = key, nw_reason = reason\<rparr>)) in
      case ship_spec ship of
        None \<Rightarrow> None
      | Some spec \<Rightarrow>
          if ss_node_name spec \<noteq> Some drained then None
          else if has_active_migration ship then warning ''ship already has an active migration''
          else if is_some_and (\<lambda>target. target \<noteq> []) (ss_target_node_name spec) then warning ''ship already has spec.targetNodeName set''
          else case ensure_ship_supports_migration_storage ship resources of
            Inl reason \<Rightarrow> warning reason
          | Inr _ \<Rightarrow>
              (case find (\<lambda>cls. meta_name (scl_meta cls) = Some (ss_ship_class spec)) (dr_ship_classes resources) of
                 None \<Rightarrow> warning (''ShipClass '' @ quoted (ss_ship_class spec) @ '' was not found'')
               | Some cls \<Rightarrow>
                   (case framework_schedule fw (drain_context resources shadow ship cls) (dr_nodes resources) of
                      None \<Rightarrow> warning ''no suitable target node found''
                    | Some node \<Rightarrow>
                        (case meta_name (node_meta node) of
                           None \<Rightarrow> warning ''selected target node has no metadata.name''
                         | Some target \<Rightarrow>
                             Some (map_sum id (\<lambda>migration. (migration, reserve_ship_on_target ship target))
                               (build_planned_migration drained ship key target))))))"

fun plan_ships ::
  "string \<Rightarrow> drain_planning_resources \<Rightarrow> framework \<Rightarrow> ship list \<Rightarrow> drain_plan \<Rightarrow> ship list \<Rightarrow> drain_plan" where
  "plan_ships drained resources fw shadow plan [] = plan"
| "plan_ships drained resources fw shadow plan (ship # ships) = (case plan_ship drained resources fw shadow ship of
     None \<Rightarrow> plan_ships drained resources fw shadow plan ships
   | Some (Inl warning) \<Rightarrow> plan_ships drained resources fw shadow (plan\<lparr>dp_warnings := dp_warnings plan @ [warning]\<rparr>) ships
   | Some (Inr (migration, reserved)) \<Rightarrow>
       plan_ships drained resources fw (shadow @ [reserved]) (plan\<lparr>dp_started := dp_started plan @ [migration]\<rparr>) ships)"

definition plan_node_drain :: "string \<Rightarrow> drain_planning_resources \<Rightarrow> framework \<Rightarrow> drain_plan" where
  "plan_node_drain drained resources fw =
     plan_ships drained resources fw (dr_ships resources) \<lparr>dp_started = [], dp_warnings = []\<rparr> (dr_ships resources)"

section \<open>The handler\<close>

text \<open>The types of the resources that a drain reads.\<close>

record drain_types =
  dt_node :: "node api_type"
  dt_ship :: "ship api_type"
  dt_ship_class :: "ship_class resource_type"
  dt_network_class :: "network_class resource_type"
  dt_cluster_network_class :: "network_class resource_type"
  dt_runtime_class :: "runtime_class resource_type"
  dt_persistent_volume_claim :: "persistent_volume_claim resource_type"
  dt_persistent_volume :: "persistent_volume resource_type"

record node_drain_response =
  nd_node :: node
  nd_started_ships :: "string list"
  nd_started_count :: nat
  nd_warnings :: "node_drain_warning list"

definition with_all_of ::
  "'s etcd \<Rightarrow> 'a resource_type \<Rightarrow> ('a list \<Rightarrow> 's \<Rightarrow> (status_response + 'b) \<times> 's) \<Rightarrow> 's \<Rightarrow> (status_response + 'b) \<times> 's" where
  "with_all_of E T f s = try_store (Store.list_resources E T None None s) (\<lambda>cs. f (map (apply_revision T) cs))"

definition load_drain_resources :: "'s etcd \<Rightarrow> drain_types \<Rightarrow> 's \<Rightarrow> (status_response + drain_planning_resources) \<times> 's" where
  "load_drain_resources E D =
     with_all_of E (at_resource (dt_node D)) (\<lambda>nodes.
     with_all_of E (at_resource (dt_ship D)) (\<lambda>ships.
     with_all_of E (dt_ship_class D) (\<lambda>ship_classes.
     with_all_of E (dt_network_class D) (\<lambda>network_classes.
     with_all_of E (dt_cluster_network_class D) (\<lambda>cluster_network_classes.
     with_all_of E (dt_persistent_volume_claim D) (\<lambda>pvcs.
     with_all_of E (dt_persistent_volume D) (\<lambda>pvs.
     with_all_of E (dt_runtime_class D) (\<lambda>runtime_classes s.
       (Inr \<lparr>dr_nodes = nodes, dr_ships = ships, dr_ship_classes = ship_classes, dr_network_classes = network_classes,
          dr_cluster_network_classes = cluster_network_classes, dr_runtime_classes = runtime_classes,
          dr_persistent_volume_claims = pvcs, dr_persistent_volumes = pvs\<rparr>, s)))))))))"

definition node_spec_default :: node_spec where
  "node_spec_default = \<lparr>nsp_overcommit = None, nsp_ips = [], nsp_resource = None, nsp_taints = [], nsp_unschedulable = None\<rparr>"

definition prepare_node_unschedulable :: "node api_type \<Rightarrow> node \<Rightarrow> node \<times> bool" where
  "prepare_node_unschedulable T node =
     (let spec = unwrap_or node_spec_default (node_spec node) in
      if nsp_unschedulable spec = Some True then (node\<lparr>node_spec := Some spec\<rparr>, False)
      else (bump_generation T (node\<lparr>node_spec := Some (spec\<lparr>nsp_unschedulable := Some True\<rparr>)\<rparr>), True))"

definition prepare_ship_for_drain :: "ship api_type \<Rightarrow> ship \<Rightarrow> string \<Rightarrow> ship" where
  "prepare_ship_for_drain T ship target =
     bump_generation T (ship\<lparr>ship_spec := Some ((unwrap_or ship_spec_default (ship_spec ship))\<lparr>ss_target_node_name := Some target\<rparr>)\<rparr>)"

definition store_result :: "store_error + 'a \<Rightarrow> status_response + 'a" where
  "store_result r = map_sum from_store_error id r"

fun drain_requests ::
  "'s etcd \<Rightarrow> ship api_type \<Rightarrow> planned_migration list \<Rightarrow> put_request list \<Rightarrow> 's \<Rightarrow> (status_response + put_request list) \<times> 's" where
  "drain_requests E T [] requests s = (Inr requests, s)"
| "drain_requests E T (migration # started) requests s =
     with_current E T (Some (pm_ship_namespace migration)) (pm_ship_name migration) (\<lambda>current.
     try_pure (store_result (prepare_put_inner (at_resource T) (prepare_ship_for_drain T current (pm_target_node_name migration)))) (\<lambda>request.
     drain_requests E T started (requests @ [request]))) s"

definition handle_node_drain :: "'s etcd \<Rightarrow> drain_types \<Rightarrow> string \<Rightarrow> 's \<Rightarrow> (status_response + node_drain_response) \<times> 's" where
  "handle_node_drain E D n = with_current E (dt_node D) None n (\<lambda>current s.
     let (node, node_changed) = prepare_node_unschedulable (dt_node D) current in
     case load_drain_resources E D s of (Inl e, s) \<Rightarrow> (Inl e, s) | (Inr resources, s) \<Rightarrow>
     let plan = plan_node_drain n (apply_drain_node_state resources n node) build_drain_framework in
     try_pure (if node_changed then map_sum id (\<lambda>r. [r]) (store_result (prepare_put_inner (at_resource (dt_node D)) node)) else Inr []) (\<lambda>node_requests s.
     case drain_requests E (dt_ship D) (dp_started plan) node_requests s of (Inl e, s) \<Rightarrow> (Inl e, s) | (Inr requests, s) \<Rightarrow>
     try_store (if requests = [] then (Inr None, s) else map_prod (map_sum id Some) id (put_many E requests s)) (\<lambda>revision s.
       (Inr \<lparr>nd_node = (case revision of Some r \<Rightarrow> if node_changed then apply_revision (at_resource (dt_node D)) \<lparr>cd_data = node, cd_revision = r\<rparr> else node
             | None \<Rightarrow> node),
          nd_started_ships = map pm_ship_key (dp_started plan), nd_started_count = length (dp_started plan),
          nd_warnings = dp_warnings plan\<rparr>, s))) s)"

section \<open>Capacity of the targets\<close>

text \<open>The migrations of a plan with their Ships, in the order in which they are planned.\<close>

fun plan_moves ::
  "string \<Rightarrow> drain_planning_resources \<Rightarrow> framework \<Rightarrow> ship list \<Rightarrow> ship list \<Rightarrow> (ship \<times> planned_migration) list" where
  "plan_moves drained resources fw shadow [] = []"
| "plan_moves drained resources fw shadow (ship # ships) = (case plan_ship drained resources fw shadow ship of
     Some (Inr (migration, reserved)) \<Rightarrow> (ship, migration) # plan_moves drained resources fw (shadow @ [reserved]) ships
   | _ \<Rightarrow> plan_moves drained resources fw shadow ships)"

lemma plan_ships_moves:
  "dp_started (plan_ships drained R fw shadow plan ships) = dp_started plan @ map snd (plan_moves drained R fw shadow ships)"
  by (induction ships arbitrary: shadow plan) (auto split: option.split sum.split)

lemma plan_moves_subseq: "subseq (map fst (plan_moves drained R fw shadow ships)) ships"
  by (induction ships arbitrary: shadow) (auto split: option.split sum.split)

lemma no_target: "is_some_and (\<lambda>target. target \<noteq> []) x \<longleftrightarrow> \<not> (x = None \<or> x = Some [])"
  by (cases x) auto

lemma plan_ship_move:
  assumes "plan_ship drained R fw shadow ship = Some (Inr (m, reserved))"
  obtains spec cls node where "ship_spec ship = Some spec" "ss_node_name spec = Some drained" "\<not> has_active_migration ship"
    "ss_target_node_name spec = None \<or> ss_target_node_name spec = Some []"
    "ensure_ship_supports_migration_storage ship R = Inr ()"
    "find_named scl_meta (ss_ship_class spec) (dr_ship_classes R) = Some cls"
    "framework_schedule fw (drain_context R shadow ship cls) (dr_nodes R) = Some node"
    "meta_name (node_meta node) = Some (pm_target_node_name m)" "reserved = reserve_ship_on_target ship (pm_target_node_name m)"
    "pm_target_node_name m \<noteq> drained" "meta_namespace (ship_meta ship) = Some (pm_ship_namespace m)" "meta_name (ship_meta ship) = Some (pm_ship_name m)"
  using assms
  by (auto simp: plan_ship_def build_planned_migration_def find_named_def no_target Let_def
      split: option.splits if_splits sum.splits)

text \<open>The demand of a Ship, by the classes at hand.\<close>

definition drain_demand :: "drain_planning_resources \<Rightarrow> ship \<Rightarrow> nat \<times> nat" where
  "drain_demand R s = (case Option.bind (find_named scl_meta (ship_class_name s) (dr_ship_classes R)) scl_spec of
     None \<Rightarrow> (0, 0)
   | Some spec \<Rightarrow>
       (case scs_cpu spec of None \<Rightarrow> 0 | Some c \<Rightarrow> cpu_cores c,
        case scs_memory spec of None \<Rightarrow> 0 | Some m \<Rightarrow> parse_memory_size m))"

abbreviation load_on :: "(nat \<times> nat \<Rightarrow> nat) \<Rightarrow> drain_planning_resources \<Rightarrow> string \<Rightarrow> ship list \<Rightarrow> nat" where
  "load_on f R n ships \<equiv> \<Sum>s \<leftarrow> filter (\<lambda>s. assigned_node s = Some n) ships. f (drain_demand R s)"

lemma drain_demand_context: "ship_demand (drain_context R shadow ship cls) s = drain_demand R s"
  by (simp add: ship_demand_def drain_demand_def find_ship_class_def drain_context_def)

lemma drain_request:
  assumes "ship_spec ship = Some spec" and "find_named scl_meta (ss_ship_class spec) (dr_ship_classes R) = Some cls"
  shows "requested_resources (drain_context R shadow ship cls) = drain_demand R ship"
  using assms by (auto simp: requested_resources_def drain_demand_def drain_context_def ship_class_name_def Let_def split: option.split)

lemma reserved_load:
  "drain_demand R (reserve_ship_on_target ship n) = drain_demand R ship \<or> ship_spec ship = None"
  "assigned_node (reserve_ship_on_target ship n) = Some n"
  by (auto simp: drain_demand_def reserve_ship_on_target_def ship_class_name_def assigned_node_def)

lemma drain_filters:
  "fw_filter_plugins build_drain_framework =
     [unschedulable_filter, network_fit_filter, taint_toleration_filter, resource_fit_filter, storage_fit_filter]"
  by (simp add: build_drain_framework_def build_framework_plugins create_filter_plugin_def)

lemma drain_target:
  assumes "framework_schedule build_drain_framework ctx nodes = Some node"
  shows "node \<in> set nodes" "unschedulable_filter ctx node = Accept" "taint_toleration_filter ctx node = Accept"
    "resource_fit_filter ctx node = Accept"
  using assms unfolding schedule_as_find by (auto dest!: find_eq_Some_in simp: drain_filters)

lemma drain_move_fits:
  assumes "plan_ship drained R build_drain_framework shadow ship = Some (Inr (m, reserved))"
    and nodes: "distinct (map (\<lambda>node. meta_name (node_meta node)) (dr_nodes R))" "node \<in> set (dr_nodes R)" "meta_name (node_meta node) = Some n"
    and "f = fst \<or> f = snd"
  shows "drain_demand R reserved = drain_demand R ship" "assigned_node reserved = Some (pm_target_node_name m)"
    and "pm_target_node_name m = n \<Longrightarrow> f (drain_demand R ship) = 0 \<or> load_on f R n shadow + f (drain_demand R ship) \<le> f (node_allocatable node)"
proof -
  obtain spec cls target where t: "ship_spec ship = Some spec" "find_named scl_meta (ss_ship_class spec) (dr_ship_classes R) = Some cls"
    "framework_schedule build_drain_framework (drain_context R shadow ship cls) (dr_nodes R) = Some target"
    "meta_name (node_meta target) = Some (pm_target_node_name m)" "reserved = reserve_ship_on_target ship (pm_target_node_name m)"
    by (rule plan_ship_move [OF assms(1)]) (rule that)
  show "drain_demand R reserved = drain_demand R ship" "assigned_node reserved = Some (pm_target_node_name m)"
    using reserved_load(1) [of R ship "pm_target_node_name m"] reserved_load(2) [of ship "pm_target_node_name m"] t(1,5) by auto
  assume n: "pm_target_node_name m = n"
  note target = drain_target [OF t(3)]
  have "inj_on (\<lambda>node. meta_name (node_meta node)) (set (dr_nodes R))" using nodes(1) by (simp add: distinct_map)
  then have "target = node" by (rule inj_onD) (use nodes target(1) t(4) n in simp_all)
  then show "f (drain_demand R ship) = 0 \<or> load_on f R n shadow + f (drain_demand R ship) \<le> f (node_allocatable node)"
    using target(4) nodes(3) assms(5) unfolding resource_fit_iff drain_request [OF t(1,2)] drain_demand_context
    by (auto simp: node_name_or_def ships_on_def drain_context_def split: prod.splits)
qed

lemma drain_moves_fit:
  assumes "distinct (map (\<lambda>node. meta_name (node_meta node)) (dr_nodes R))" "node \<in> set (dr_nodes R)" "meta_name (node_meta node) = Some n"
    and f: "f = fst \<or> f = snd"
  shows "let moved = (\<Sum>(ship, m) \<leftarrow> filter (\<lambda>(ship, m). pm_target_node_name m = n) (plan_moves drained R build_drain_framework shadow ships). f (drain_demand R ship))
    in moved = 0 \<or> load_on f R n shadow + moved \<le> f (node_allocatable node)"
proof (induction ships arbitrary: shadow)
  case (Cons ship ships)
  show ?case
  proof (cases "\<exists>m reserved. plan_ship drained R build_drain_framework shadow ship = Some (Inr (m, reserved))")
    case True
    then obtain m reserved where p: "plan_ship drained R build_drain_framework shadow ship = Some (Inr (m, reserved))" by blast
    note move = drain_move_fits [OF p assms(1-3) f]
    let ?moved = "\<lambda>moves. \<Sum>(ship, m) \<leftarrow> filter (\<lambda>(ship, m). pm_target_node_name m = n) moves. f (drain_demand R ship)"
    define rest where "rest = ?moved (plan_moves drained R build_drain_framework (shadow @ [reserved]) ships)"
    have "?moved (plan_moves drained R build_drain_framework shadow (ship # ships)) =
        (if pm_target_node_name m = n then f (drain_demand R ship) + rest else rest)"
      using p by (simp add: rest_def)
    moreover have "load_on f R n (shadow @ [reserved]) = (if pm_target_node_name m = n then load_on f R n shadow + f (drain_demand R ship) else load_on f R n shadow)"
      using move by simp
    ultimately show ?thesis
      using Cons.IH [of "shadow @ [reserved]", folded rest_def] move(3) by (auto simp: Let_def split: if_splits)
  next
    case False
    then have "plan_moves drained R build_drain_framework shadow (ship # ships) = plan_moves drained R build_drain_framework shadow ships"
      by (auto split: option.split sum.split)
    then show ?thesis using Cons.IH [of shadow] by simp
  qed
qed simp

lemma plan_moves_in:
  "(ship, m) \<in> set (plan_moves drained R fw shadow ships) \<Longrightarrow> \<exists>shadow' reserved. plan_ship drained R fw shadow' ship = Some (Inr (m, reserved))"
  by (induction ships arbitrary: shadow) (auto split: option.splits sum.splits)


text \<open>A drained node with a Ship of two processors, and a node with room for it beside the Ship it has.\<close>

definition example_drain :: drain_planning_resources where
  "example_drain = \<lparr>dr_nodes = [plain_node],
     dr_ships = [example_ship ''s1'' ''c'' (Some ''a''), example_ship ''s2'' ''c'' (Some ''b'')],
     dr_ship_classes = [example_class ''c'' 2 (nat_to_string 1024)], dr_network_classes = [], dr_cluster_network_classes = [],
     dr_runtime_classes = [], dr_persistent_volume_claims = [], dr_persistent_volumes = []\<rparr>"

lemma example_drain_plan:
  "plan_ship ''a'' example_drain build_drain_framework (dr_ships example_drain) (example_ship ''s1'' ''c'' (Some ''a'')) =
     Some (Inr (\<lparr>pm_ship_key = ''default/s1'', pm_ship_namespace = ''default'', pm_ship_name = ''s1'', pm_target_node_name = ''b''\<rparr>,
       reserve_ship_on_target (example_ship ''s1'' ''c'' (Some ''a'')) ''b''))"
proof -
  let ?cls = "example_class ''c'' 2 (nat_to_string 1024)" and ?ship = "example_ship ''s1'' ''c'' (Some ''a'')"
  let ?ctx = "drain_context example_drain (dr_ships example_drain) ?ship ?cls"
  have ctx: "?ctx = example_context ?ship ?cls (dr_ships example_drain) [plain_node]"
    by (simp add: drain_context_def example_drain_def example_context_def)
  have "feasible default_framework ?ctx plain_node"
    unfolding ctx plain_node_def feasible_example resource_fit_iff
    by (simp add: allocatable_example requested_example demand_example ships_on_def parse_memory_size_bytes u64_max_def example_drain_def)
  then have "feasible build_drain_framework ?ctx plain_node" by (simp add: drain_filters default_filters)
  then have s: "framework_schedule build_drain_framework ?ctx [plain_node] = Some plain_node"
    unfolding schedule_as_find by simp
  have "meta_name (node_meta plain_node) = Some ''b''" by (simp add: plain_node_def)
  moreover have "\<not> has_active_migration ?ship" by (simp add: has_active_migration_def example_ship_def)
  moreover have "find (\<lambda>cls. meta_name (scl_meta cls) = Some ''c'') (dr_ship_classes example_drain) = Some ?cls"
    by (simp add: example_drain_def example_class_def meta_name_def named_meta_def)
  moreover have "ensure_ship_supports_migration_storage ?ship example_drain = Inr ()"
    by (simp add: ensure_ship_supports_migration_storage_def example_ship_def ship_spec_default_def)
  moreover have "dr_nodes example_drain = [plain_node]" by (simp add: example_drain_def)
  ultimately show ?thesis
    using s by (simp add: plan_ship_def Let_def example_ship_def ship_spec_default_def build_planned_migration_def ship_key_def
        namespaced_meta_def meta_name_def meta_namespace_def)
qed


end
