(* ===== verification/Controller_Runtime.thy ===== *)
theory Controller_Runtime
  imports Client_Api
begin

text \<open>
  The runtime of controllers (\<^verbatim>\<open>tugboat-client/src/runtime/\<close>): back-off, watch streams and
  finalizers.  \<^verbatim>\<open>Reconcile_Queue\<close> has the queue that runs the reconcilers.
\<close>

section \<open>Back-off\<close>

definition as_millis :: "duration \<Rightarrow> int" where
  "as_millis d = d div 1000000"

definition from_millis :: "int \<Rightarrow> duration" where
  "from_millis ms = ms * 1000000"

record backoff_config =
  bc_initial_delay :: duration
  bc_max_delay :: duration
  bc_factor :: int

definition backoff_default :: backoff_config where
  "backoff_default = \<lparr>bc_initial_delay = from_secs 1, bc_max_delay = from_secs 128, bc_factor = 2\<rparr>"

text \<open>The loop multiplies with saturation in 128 bits and stops at the maximum.\<close>

fun backoff_loop :: "int \<Rightarrow> int \<Rightarrow> int \<Rightarrow> nat \<Rightarrow> int" where
  "backoff_loop max_millis factor millis 0 = millis"
| "backoff_loop max_millis factor millis (Suc k) =
     (let millis = min (min (millis * factor) (2 ^ 128 - 1)) max_millis
      in if millis = max_millis then millis else backoff_loop max_millis factor millis k)"

definition delay_for :: "backoff_config \<Rightarrow> nat \<Rightarrow> duration" where
  "delay_for c attempt =
     from_millis (min (backoff_loop (max 1 (as_millis (bc_max_delay c))) (max 1 (bc_factor c)) (max 1 (as_millis (bc_initial_delay c))) attempt)
       (2 ^ 64 - 1))"

text \<open>\<^verbatim>\<open>attempt.saturating_add(1)\<close> of 32 bits.\<close>

definition next_attempt :: "nat \<Rightarrow> nat" where
  "next_attempt n = (if n < 4294967295 then n + 1 else n)"

lemma backoff_loop_eq:
  assumes "max_millis < 2 ^ 128" and "0 < factor" and "0 < millis"
  shows "backoff_loop max_millis factor millis k = (if k = 0 then millis else min (millis * factor ^ k) max_millis)"
  using assms(3)
proof (induction k arbitrary: millis)
  case (Suc k)
  have sat: "min (min (millis * factor) (2 ^ 128 - 1)) max_millis = min (millis * factor) max_millis" using assms(1) by auto
  show ?case
  proof (cases "max_millis \<le> millis * factor")
    case True
    have "millis * factor * 1 \<le> millis * factor * factor ^ k"
      using assms(2) Suc.prems by (intro mult_left_mono) (simp_all add: one_le_power)
    then show ?thesis using sat True by (simp add: Let_def mult.assoc)
  next
    case False
    then have "backoff_loop max_millis factor millis (Suc k) = backoff_loop max_millis factor (millis * factor) k"
      using sat by (simp add: Let_def)
    moreover have "0 < millis * factor" using Suc.prems assms(2) by simp
    ultimately show ?thesis using Suc.IH [of "millis * factor"] False by (auto simp: ac_simps)
  qed
qed simp

text \<open>A retry waits \<open>initial \<cdot> factor ^ attempt\<close> milliseconds but no longer than the maximum; the first wait is not capped.\<close>

lemma delay_for_eq:
  assumes "0 < as_millis (bc_initial_delay c)" "as_millis (bc_initial_delay c) < 2 ^ 64"
    and "0 < as_millis (bc_max_delay c)" "as_millis (bc_max_delay c) < 2 ^ 64" and "0 < bc_factor c"
  shows "delay_for c n = from_millis (if n = 0 then as_millis (bc_initial_delay c)
    else min (as_millis (bc_initial_delay c) * bc_factor c ^ n) (as_millis (bc_max_delay c)))"
proof -
  have "as_millis (bc_max_delay c) < 2 ^ 128" using assms(4) by simp
  then show ?thesis using assms by (simp add: delay_for_def backoff_loop_eq max_def)
qed

lemma delay_for_default: "delay_for backoff_default n = from_secs (if n < 7 then 2 ^ n else 128)"
proof -
  have eq: "delay_for backoff_default n = from_millis (if n = 0 then 1000 else min (1000 * 2 ^ n) 128000)"
    using delay_for_eq [of backoff_default n] by (simp add: backoff_default_def from_secs_def as_millis_def)
  show ?thesis
  proof (cases "n < 7")
    case True
    then have "n \<in> {0, 1, 2, 3, 4, 5, 6}" by auto
    then show ?thesis unfolding eq by (auto simp: from_millis_def from_secs_def)
  next
    case False
    then have "(2::int) ^ 7 \<le> 2 ^ n" by (intro power_increasing) auto
    then show ?thesis using False unfolding eq by (simp add: from_millis_def from_secs_def)
  qed
qed

section \<open>Watch streams\<close>

datatype 'a watch_event = Added 'a | Modified 'a | Removed 'a

datatype 'a reconcile_event = Applied 'a | Deleted 'a

fun reconcile_event_from :: "'a watch_event \<Rightarrow> 'a reconcile_event" where
  "reconcile_event_from (Added r) = Applied r"
| "reconcile_event_from (Modified r) = Applied r"
| "reconcile_event_from (Removed r) = Deleted r"

text \<open>
  The attempts to open a watch stream: what the API answered, and for a failure whether the
  cancellation won the wait.  The result has the waits and the stream; the stream is \<open>None\<close> when the
  controller was cancelled.  The attempts that have not happened yet are the end of the list.
\<close>

datatype 'st watch_start = Opening | Stopped | Opened 'st

fun watch_with_backoff :: "backoff_config \<Rightarrow> nat \<Rightarrow> ((client_error \<times> bool) + 'st) list \<Rightarrow> duration list \<times> 'st watch_start" where
  "watch_with_backoff c attempts [] = ([], Opening)"
| "watch_with_backoff c attempts (Inr stream # more_answers) = ([], Opened stream)"
| "watch_with_backoff c attempts (Inl (e, cancelled) # more_answers) =
     (let delay = delay_for c attempts
      in if cancelled then ([delay], Stopped)
         else (case watch_with_backoff c (next_attempt attempts) more_answers of (delays, r) \<Rightarrow> (delay # delays, r)))"

datatype 'a stream_next = StreamCancelled | StreamItem "client_error + 'a watch_event" | StreamEnd

text \<open>The events handed to the queue, and whether the stream is opened again; \<open>None\<close> while it runs.\<close>

fun run_stream :: "bool \<Rightarrow> 'a stream_next list \<Rightarrow> 'a reconcile_event list \<times> bool option" where
  "run_stream cancelled [] = ([], None)"
| "run_stream cancelled (StreamCancelled # rest) = ([], Some False)"
| "run_stream cancelled (StreamItem (Inr e) # rest) =
     (case run_stream cancelled rest of (events, r) \<Rightarrow> (reconcile_event_from e # events, r))"
| "run_stream cancelled (StreamItem (Inl e) # rest) = ([], Some True)"
| "run_stream cancelled (StreamEnd # rest) = ([], Some (\<not> cancelled))"

lemma watch_waits:
  assumes "attempts + length answers < 2 ^ 32"
  shows "fst (watch_with_backoff c attempts answers) = map (delay_for c) [attempts ..< attempts + length (fst (watch_with_backoff c attempts answers))]"
  using assms
proof (induction c attempts answers rule: watch_with_backoff.induct)
  case (3 c attempts e cancelled rest)
  obtain delays r where rest: "watch_with_backoff c (attempts + 1) rest = (delays, r)" by fastforce
  have "next_attempt attempts = attempts + 1" using 3(2) by (simp add: next_attempt_def)
  then show ?case using 3 rest by (auto simp: Let_def upt_conv_Cons)
qed simp_all

section \<open>Finalizers\<close>

datatype 'a finalizer_event = ApplyEvent 'a | CleanupEvent 'a

datatype 'e finalizer_error = FinalizerClient client_error | FinalizerHandler 'e | MissingName

datatype finalizer_transition = AddFinalizer | ApplyTransition | CleanupTransition | Noop

definition transition_for :: "object_meta option \<Rightarrow> string \<Rightarrow> finalizer_transition" where
  "transition_for m finalizer_name =
     (if deletion_timestamp m \<noteq> None then (if has_finalizer finalizer_name m then CleanupTransition else Noop)
      else if has_finalizer finalizer_name m then ApplyTransition else AddFinalizer)"

definition finalizer_try :: "(client_error + 'b) \<times> 's \<Rightarrow> ('b \<Rightarrow> 's \<Rightarrow> ('e finalizer_error + 'c) \<times> 's) \<Rightarrow> ('e finalizer_error + 'c) \<times> 's" where
  "finalizer_try call f = (case call of (Inl e, s) \<Rightarrow> (Inl (FinalizerClient e), s) | (Inr x, s) \<Rightarrow> f x s)"

definition map_handler_error :: "'e + 'b \<Rightarrow> 'e finalizer_error + 'b" where
  "map_handler_error r = (case r of Inl e \<Rightarrow> Inl (FinalizerHandler e) | Inr x \<Rightarrow> Inr x)"

text \<open>The wrapper of a reconciler.  The metadata of the type are read and written with \<open>meta\<close> and \<open>set_meta\<close>.\<close>

definition finalizer ::
  "('a \<Rightarrow> object_meta option) \<Rightarrow> (object_meta option \<Rightarrow> 'a \<Rightarrow> 'a) \<Rightarrow> ('s, 'a) api \<Rightarrow> string \<Rightarrow> 'a \<Rightarrow>
     ('a finalizer_event \<Rightarrow> 's \<Rightarrow> ('e + action) \<times> 's) \<Rightarrow> 's \<Rightarrow> ('e finalizer_error + action) \<times> 's" where
  "finalizer meta set_meta A finalizer_name resource reconcile s =
     (case meta_name (meta resource) of
        None \<Rightarrow> (Inl MissingName, s)
      | Some name \<Rightarrow> (case transition_for (meta resource) finalizer_name of
          AddFinalizer \<Rightarrow>
            finalizer_try (ap_replace A name (set_meta (snd (add_finalizer finalizer_name (meta resource))) resource) s)
              (\<lambda>_ s. (Inr (requeue 0), s))
        | ApplyTransition \<Rightarrow> (case reconcile (ApplyEvent resource) s of (r, s) \<Rightarrow> (map_handler_error r, s))
        | CleanupTransition \<Rightarrow> (case reconcile (CleanupEvent resource) s of
            (Inl e, s) \<Rightarrow> (Inl (FinalizerHandler e), s)
          | (Inr action, s) \<Rightarrow>
              finalizer_try (ap_replace A name (set_meta (snd (remove_finalizer finalizer_name (meta resource))) resource) s)
                (\<lambda>upd s. if deletion_timestamp (meta upd) \<noteq> None \<and> \<not> has_finalizers (meta upd)
                   then (Inr action, snd (ap_delete A name s)) else (Inr action, s)))
        | Noop \<Rightarrow> (Inr await_change, s)))"

text \<open>
  The handler of a deletion has succeeded before the finalizer is taken off, and an object without
  finalizer gets it before the handler sees the object.
\<close>

lemma finalizer_order:
  assumes "finalizer meta set_meta (recording A) f resource h (s, []) = (r, s', calls)"
    and set_get: "\<And>m v. meta (set_meta m v) = m"
    and silent: "\<And>e s. snd (snd (h e (s, []))) = []"
    and "Replace n v \<in> set calls"
  shows "if deletion_timestamp (meta resource) = None then has_finalizer f (meta v) \<and> \<not> has_finalizer f (meta resource)
    else has_finalizer f (meta resource) \<and> \<not> has_finalizer f (meta v) \<and> \<not> isl (fst (h (CleanupEvent resource) (s, [])))"
proof -
  obtain r1 s1 where apply_run: "h (ApplyEvent resource) (s, []) = (r1, s1, [])" using silent by (metis prod.collapse)
  obtain r2 s2 where cleanup_run: "h (CleanupEvent resource) (s, []) = (r2, s2, [])" using silent by (metis prod.collapse)
  have kept: "\<not> has_finalizer f (snd (remove_finalizer f m))" "has_finalizer f (snd (add_finalizer f m))" for m
    by (auto simp: has_finalizer_def finalizers_remove finalizers_add)
  show ?thesis
    using assms(1,4) kept apply_run cleanup_run unfolding finalizer_def transition_for_def finalizer_try_def
    by (auto simp: set_get split: option.splits if_splits sum.splits prod.splits)
qed

text \<open>
  The final deletion is tried once: when it fails the wrapper still reports success, and on the object
  that is left, marked and without finalizers, the wrapper does nothing from then on.
\<close>

lemma failed_delete_is_forgotten:
  assumes "deletion_timestamp (meta left) \<noteq> None" "\<not> has_finalizers (meta left)" "meta_name (meta left) \<noteq> None"
  shows "finalizer meta set_meta A f left h s = (Inr await_change, s)"
  using assms by (auto simp: finalizer_def transition_for_def has_finalizer_def has_finalizers_def split: option.splits)

end
