(* ===== verification/Reconcile_Queue.thy ===== *)
theory Reconcile_Queue
  imports Controller_Runtime
begin

text \<open>
  The queue of a controller (\<^verbatim>\<open>tugboat-client/src/runtime/queue.rs\<close>, \<^verbatim>\<open>runner.rs\<close>), which runs a task per
  event and cancels the task of an object when a newer one starts.  Tasks run concurrently: a task is a
  state machine cut where it awaits, an action is one uninterrupted part of one task together with what
  it awaited, and a run of the queue is any sequence of enabled actions.  Reconcilers and API answers
  are arbitrary; a reconciler that panics is not modelled.
\<close>

section \<open>Tasks and the queue\<close>

text \<open>
  A task has its number, its event, its key unless the object has no name, and whether its token was
  cancelled.  In \<open>Waiting\<close> it sleeps, in \<open>Fetching\<close> it awaits the object, in \<open>Requeued\<close> the reconciler.
\<close>

datatype 'a task_phase =
  Spawned | Registered | Reconciling | Waiting duration nat | Fetching nat | Requeued 'a nat | Finishing | Done

record 'a task =
  tk_id :: nat
  tk_key :: "string option"
  tk_event :: "'a reconcile_event"
  tk_cancelled :: bool
  tk_phase :: "'a task_phase"

text \<open>
  The map \<^verbatim>\<open>in_flight\<close> has for a key the number of the task and its token, which is the position of the
  task.  The counter of 64 bits is taken not to wrap.
\<close>

record 'a reconcile_queue =
  qu_in_flight :: "string \<Rightarrow> (nat \<times> nat) option"
  qu_counter :: nat
  qu_shutdown :: bool
  qu_tasks :: "'a task list"

definition reconcile_queue_new :: "'a reconcile_queue" where
  "reconcile_queue_new = \<lparr>qu_in_flight = (\<lambda>_. None), qu_counter = 0, qu_shutdown = False, qu_tasks = []\<rparr>"

fun event_object :: "'a reconcile_event \<Rightarrow> 'a" where
  "event_object (Applied r) = r"
| "event_object (Deleted r) = r"

definition resource_name :: "('a \<Rightarrow> object_meta option) \<Rightarrow> 'a reconcile_event \<Rightarrow> string option" where
  "resource_name meta e = meta_name (meta (event_object e))"

definition resource_key :: "('a \<Rightarrow> object_meta option) \<Rightarrow> 'a reconcile_event \<Rightarrow> string option" where
  "resource_key meta e =
     (case meta_name (meta (event_object e)) of
        None \<Rightarrow> None
      | Some name \<Rightarrow> (case meta_namespace (meta (event_object e)) of
          Some ns \<Rightarrow> Some (ns @ ''/'' @ name)
        | None \<Rightarrow> Some name))"

definition process_requeue :: "('a \<Rightarrow> object_meta option) \<Rightarrow> 'a reconcile_event \<Rightarrow> duration \<Rightarrow> nat \<Rightarrow> 'a task_phase" where
  "process_requeue meta event delay attempt = (if resource_name meta event = None then Finishing else Waiting delay attempt)"

definition process_action :: "('a \<Rightarrow> object_meta option) \<Rightarrow> 'a reconcile_event \<Rightarrow> action \<Rightarrow> 'a task_phase" where
  "process_action meta event act = (case requeue_after act of None \<Rightarrow> Finishing | Some delay \<Rightarrow> process_requeue meta event delay 0)"

definition process_reconcile_result ::
  "('a \<Rightarrow> object_meta option) \<Rightarrow> backoff_config \<Rightarrow> 'a reconcile_event \<Rightarrow> 'e + action \<Rightarrow> nat \<Rightarrow> 'a task_phase" where
  "process_reconcile_result meta c event result attempt = (case result of
     Inr act \<Rightarrow> process_action meta event act
   | Inl e \<Rightarrow> process_requeue meta event (delay_for c attempt) (next_attempt attempt))"

text \<open>The rest of a turn of the loop of \<^verbatim>\<open>process_requeue\<close>: after the read of the object and after its reconciliation.\<close>

definition requeue_fetched :: "backoff_config \<Rightarrow> nat \<Rightarrow> client_error + 'a option \<Rightarrow> 'a task_phase" where
  "requeue_fetched c attempt answer = (case answer of
     Inr (Some r) \<Rightarrow> Requeued r attempt
   | Inr None \<Rightarrow> Finishing
   | Inl e \<Rightarrow> Waiting (delay_for c attempt) (next_attempt attempt))"

definition requeue_reconciled :: "backoff_config \<Rightarrow> nat \<Rightarrow> 'e + action \<Rightarrow> 'a task_phase" where
  "requeue_reconciled c attempt result = (case result of
     Inr act \<Rightarrow> (case requeue_after act of None \<Rightarrow> Finishing | Some delay \<Rightarrow> Waiting delay 0)
   | Inl e \<Rightarrow> Waiting (delay_for c attempt) (next_attempt attempt))"

definition set_phase :: "nat \<Rightarrow> 'a task_phase \<Rightarrow> 'a reconcile_queue \<Rightarrow> 'a reconcile_queue" where
  "set_phase i p q = q\<lparr>qu_tasks := (qu_tasks q)[i := (qu_tasks q ! i)\<lparr>tk_phase := p\<rparr>]\<rparr>"

definition cancel_task :: "nat \<Rightarrow> 'a reconcile_queue \<Rightarrow> 'a reconcile_queue" where
  "cancel_task i q = q\<lparr>qu_tasks := (qu_tasks q)[i := (qu_tasks q ! i)\<lparr>tk_cancelled := True\<rparr>]\<rparr>"

text \<open>A token is cancelled with its parent.\<close>

definition is_cancelled :: "'a reconcile_queue \<Rightarrow> nat \<Rightarrow> bool" where
  "is_cancelled q i \<longleftrightarrow> tk_cancelled (qu_tasks q ! i) \<or> qu_shutdown q"

definition spawn :: "('a \<Rightarrow> object_meta option) \<Rightarrow> 'a reconcile_event \<Rightarrow> 'a reconcile_queue \<Rightarrow> 'a reconcile_queue" where
  "spawn meta event q = (case resource_key meta event of
     None \<Rightarrow> q\<lparr>qu_tasks := qu_tasks q @
       [\<lparr>tk_id = 0, tk_key = None, tk_event = event, tk_cancelled = False, tk_phase = Reconciling\<rparr>]\<rparr>
   | Some key \<Rightarrow> q\<lparr>qu_counter := qu_counter q + 1, qu_tasks := qu_tasks q @
       [\<lparr>tk_id = qu_counter q, tk_key = Some key, tk_event = event, tk_cancelled = False, tk_phase = Spawned\<rparr>]\<rparr>)"

definition register :: "nat \<Rightarrow> string \<Rightarrow> 'a reconcile_queue \<Rightarrow> 'a reconcile_queue" where
  "register i key q =
     (let q = (case qu_in_flight q key of Some (_, prev) \<Rightarrow> cancel_task prev q | None \<Rightarrow> q);
          q = q\<lparr>qu_in_flight := (qu_in_flight q)(key \<mapsto> (tk_id (qu_tasks q ! i), i))\<rparr>
      in set_phase i Registered q)"

definition unregister :: "nat \<Rightarrow> 'a reconcile_queue \<Rightarrow> 'a reconcile_queue" where
  "unregister i q =
     (let q = (case tk_key (qu_tasks q ! i) of
        None \<Rightarrow> q
      | Some key \<Rightarrow> (case qu_in_flight q key of
          Some (current_id, _) \<Rightarrow>
            if current_id = tk_id (qu_tasks q ! i) then q\<lparr>qu_in_flight := (qu_in_flight q)(key := None)\<rparr> else q
        | None \<Rightarrow> q))
      in set_phase i Done q)"

datatype ('a, 'e) queue_action =
  Spawn "'a reconcile_event"
| Register nat
| Start nat
| Reconciled nat "'e + action"
| Interrupted nat
| Awoken nat
| Fetched nat "client_error + 'a option"
| Unregister nat
| Shutdown

text \<open>
  An action of a task in its phase; \<open>None\<close> where it is not enabled.  A reconciliation that is over may
  win the \<^verbatim>\<open>select!\<close> against the cancellation; a requeued one is not raced with it.
\<close>

definition task_step ::
  "('a \<Rightarrow> object_meta option) \<Rightarrow> backoff_config \<Rightarrow> ('a, 'e) queue_action \<Rightarrow> nat \<Rightarrow> 'a reconcile_queue \<Rightarrow> 'a reconcile_queue option" where
  "task_step meta c act i q =
     (if i < length (qu_tasks q) then
        let t = qu_tasks q ! i in
        (case tk_phase t of
           Spawned \<Rightarrow> (case act of Register _ \<Rightarrow> map_option (\<lambda>key. register i key q) (tk_key t) | _ \<Rightarrow> None)
         | Registered \<Rightarrow> (case act of Start _ \<Rightarrow> Some (set_phase i (if is_cancelled q i then Done else Reconciling) q) | _ \<Rightarrow> None)
         | Reconciling \<Rightarrow> (case act of
             Reconciled _ r \<Rightarrow> Some (set_phase i (process_reconcile_result meta c (tk_event t) r 0) q)
           | Interrupted _ \<Rightarrow> if is_cancelled q i then Some (set_phase i Finishing q) else None
           | _ \<Rightarrow> None)
         | Waiting delay attempt \<Rightarrow> (case act of
             Awoken _ \<Rightarrow> Some (set_phase i (if is_cancelled q i then Finishing else Fetching attempt) q)
           | _ \<Rightarrow> None)
         | Fetching attempt \<Rightarrow> (case act of Fetched _ r \<Rightarrow> Some (set_phase i (requeue_fetched c attempt r) q) | _ \<Rightarrow> None)
         | Requeued v attempt \<Rightarrow> (case act of Reconciled _ r \<Rightarrow> Some (set_phase i (requeue_reconciled c attempt r) q) | _ \<Rightarrow> None)
         | Finishing \<Rightarrow> (case act of Unregister _ \<Rightarrow> Some (unregister i q) | _ \<Rightarrow> None)
         | Done \<Rightarrow> None)
      else None)"

fun actor :: "('a, 'e) queue_action \<Rightarrow> nat option" where
  "actor (Spawn e) = None"
| "actor Shutdown = None"
| "actor (Register i) = Some i"
| "actor (Start i) = Some i"
| "actor (Reconciled i r) = Some i"
| "actor (Interrupted i) = Some i"
| "actor (Awoken i) = Some i"
| "actor (Fetched i r) = Some i"
| "actor (Unregister i) = Some i"

definition queue_step ::
  "('a \<Rightarrow> object_meta option) \<Rightarrow> backoff_config \<Rightarrow> ('a, 'e) queue_action \<Rightarrow> 'a reconcile_queue \<Rightarrow> 'a reconcile_queue option" where
  "queue_step meta c act q = (case act of
     Spawn e \<Rightarrow> Some (spawn meta e q)
   | Shutdown \<Rightarrow> Some (q\<lparr>qu_shutdown := True\<rparr>)
   | _ \<Rightarrow> Option.bind (actor act) (\<lambda>i. task_step meta c act i q))"

fun queue_run ::
  "('a \<Rightarrow> object_meta option) \<Rightarrow> backoff_config \<Rightarrow> ('a, 'e) queue_action list \<Rightarrow> 'a reconcile_queue \<Rightarrow> 'a reconcile_queue option" where
  "queue_run meta c [] q = Some q"
| "queue_run meta c (act # acts) q = Option.bind (queue_step meta c act q) (queue_run meta c acts)"

section \<open>One live task per object\<close>

abbreviation task_at :: "'a reconcile_queue \<Rightarrow> nat \<Rightarrow> 'a task" where
  "task_at q i \<equiv> qu_tasks q ! i"

text \<open>A live task may still reconcile: it is registered, has not ended and was not told to stop.\<close>

definition live :: "'a reconcile_queue \<Rightarrow> nat \<Rightarrow> bool" where
  "live q i \<longleftrightarrow> i < length (qu_tasks q) \<and> tk_phase (task_at q i) \<noteq> Spawned \<and> tk_phase (task_at q i) \<noteq> Done \<and> \<not> is_cancelled q i"

text \<open>
  Tasks have their own numbers; entries of the map are of registered tasks; and a registered task that
  has neither ended nor been cancelled is the entry of its key.
\<close>

definition own_numbers :: "'a reconcile_queue \<Rightarrow> bool" where
  "own_numbers q \<longleftrightarrow> (\<forall>i j. i < length (qu_tasks q) \<longrightarrow> j < length (qu_tasks q) \<longrightarrow> tk_key (task_at q i) \<noteq> None \<longrightarrow>
     tk_key (task_at q j) \<noteq> None \<longrightarrow> tk_id (task_at q i) = tk_id (task_at q j) \<longrightarrow> i = j)"

definition numbers_used :: "'a reconcile_queue \<Rightarrow> bool" where
  "numbers_used q \<longleftrightarrow> (\<forall>i. i < length (qu_tasks q) \<longrightarrow> tk_key (task_at q i) \<noteq> None \<longrightarrow> tk_id (task_at q i) < qu_counter q)"

definition entries_registered :: "'a reconcile_queue \<Rightarrow> bool" where
  "entries_registered q \<longleftrightarrow> (\<forall>k n i. qu_in_flight q k = Some (n, i) \<longrightarrow>
     i < length (qu_tasks q) \<and> tk_key (task_at q i) = Some k \<and> tk_id (task_at q i) = n \<and> tk_phase (task_at q i) \<noteq> Spawned)"

definition live_entries :: "'a reconcile_queue \<Rightarrow> bool" where
  "live_entries q \<longleftrightarrow> (\<forall>i k. i < length (qu_tasks q) \<longrightarrow> tk_key (task_at q i) = Some k \<longrightarrow> tk_phase (task_at q i) \<noteq> Spawned \<longrightarrow>
     tk_phase (task_at q i) \<noteq> Done \<longrightarrow> \<not> tk_cancelled (task_at q i) \<longrightarrow> qu_in_flight q k = Some (tk_id (task_at q i), i))"

definition queue_inv :: "'a reconcile_queue \<Rightarrow> bool" where
  "queue_inv q \<longleftrightarrow> own_numbers q \<and> numbers_used q \<and> entries_registered q \<and> live_entries q"

lemma set_phase_simps [simp]:
  "length (qu_tasks (set_phase i p q)) = length (qu_tasks q)"
  "qu_in_flight (set_phase i p q) = qu_in_flight q" "qu_counter (set_phase i p q) = qu_counter q" "qu_shutdown (set_phase i p q) = qu_shutdown q"
  "j < length (qu_tasks q) \<Longrightarrow> task_at (set_phase i p q) j = (if i = j then (task_at q j)\<lparr>tk_phase := p\<rparr> else task_at q j)"
  by (simp_all add: set_phase_def)

lemma cancel_task_simps [simp]:
  "length (qu_tasks (cancel_task i q)) = length (qu_tasks q)"
  "qu_in_flight (cancel_task i q) = qu_in_flight q" "qu_counter (cancel_task i q) = qu_counter q" "qu_shutdown (cancel_task i q) = qu_shutdown q"
  "j < length (qu_tasks q) \<Longrightarrow> task_at (cancel_task i q) j = (if i = j then (task_at q j)\<lparr>tk_cancelled := True\<rparr> else task_at q j)"
  by (simp_all add: cancel_task_def)

lemma queue_invI:
  assumes "\<And>i j. i < length (qu_tasks q) \<Longrightarrow> j < length (qu_tasks q) \<Longrightarrow> tk_key (task_at q i) \<noteq> None \<Longrightarrow> tk_key (task_at q j) \<noteq> None \<Longrightarrow>
      tk_id (task_at q i) = tk_id (task_at q j) \<Longrightarrow> i = j"
    and "\<And>i. i < length (qu_tasks q) \<Longrightarrow> tk_key (task_at q i) \<noteq> None \<Longrightarrow> tk_id (task_at q i) < qu_counter q"
    and "\<And>k n i. qu_in_flight q k = Some (n, i) \<Longrightarrow>
      i < length (qu_tasks q) \<and> tk_key (task_at q i) = Some k \<and> tk_id (task_at q i) = n \<and> tk_phase (task_at q i) \<noteq> Spawned"
    and "\<And>i k. i < length (qu_tasks q) \<Longrightarrow> tk_key (task_at q i) = Some k \<Longrightarrow> tk_phase (task_at q i) \<noteq> Spawned \<Longrightarrow>
      tk_phase (task_at q i) \<noteq> Done \<Longrightarrow> \<not> tk_cancelled (task_at q i) \<Longrightarrow> qu_in_flight q k = Some (tk_id (task_at q i), i)"
  shows "queue_inv q"
proof -
  have "own_numbers q" unfolding own_numbers_def using assms(1) by blast
  moreover have "numbers_used q" unfolding numbers_used_def using assms(2) by blast
  moreover have "entries_registered q" unfolding entries_registered_def using assms(3) by blast
  moreover have "live_entries q" unfolding live_entries_def using assms(4) by blast
  ultimately show ?thesis by (simp add: queue_inv_def)
qed

lemma queue_invD:
  assumes "queue_inv q"
  shows "i < length (qu_tasks q) \<Longrightarrow> j < length (qu_tasks q) \<Longrightarrow> tk_key (task_at q i) \<noteq> None \<Longrightarrow> tk_key (task_at q j) \<noteq> None \<Longrightarrow>
      tk_id (task_at q i) = tk_id (task_at q j) \<Longrightarrow> i = j"
    and "i < length (qu_tasks q) \<Longrightarrow> tk_key (task_at q i) \<noteq> None \<Longrightarrow> tk_id (task_at q i) < qu_counter q"
    and "qu_in_flight q k = Some (n, i) \<Longrightarrow>
      i < length (qu_tasks q) \<and> tk_key (task_at q i) = Some k \<and> tk_id (task_at q i) = n \<and> tk_phase (task_at q i) \<noteq> Spawned"
    and "i < length (qu_tasks q) \<Longrightarrow> tk_key (task_at q i) = Some k \<Longrightarrow> tk_phase (task_at q i) \<noteq> Spawned \<Longrightarrow>
      tk_phase (task_at q i) \<noteq> Done \<Longrightarrow> \<not> tk_cancelled (task_at q i) \<Longrightarrow> qu_in_flight q k = Some (tk_id (task_at q i), i)"
proof -
  have parts: "own_numbers q" "numbers_used q" "entries_registered q" "live_entries q" using assms by (simp_all add: queue_inv_def)
  show "i < length (qu_tasks q) \<Longrightarrow> j < length (qu_tasks q) \<Longrightarrow> tk_key (task_at q i) \<noteq> None \<Longrightarrow> tk_key (task_at q j) \<noteq> None \<Longrightarrow>
      tk_id (task_at q i) = tk_id (task_at q j) \<Longrightarrow> i = j" using parts(1) unfolding own_numbers_def by blast
  show "i < length (qu_tasks q) \<Longrightarrow> tk_key (task_at q i) \<noteq> None \<Longrightarrow> tk_id (task_at q i) < qu_counter q"
    using parts(2) unfolding numbers_used_def by blast
  show "qu_in_flight q k = Some (n, i) \<Longrightarrow>
      i < length (qu_tasks q) \<and> tk_key (task_at q i) = Some k \<and> tk_id (task_at q i) = n \<and> tk_phase (task_at q i) \<noteq> Spawned"
    using parts(3) unfolding entries_registered_def by blast
  show "i < length (qu_tasks q) \<Longrightarrow> tk_key (task_at q i) = Some k \<Longrightarrow> tk_phase (task_at q i) \<noteq> Spawned \<Longrightarrow>
      tk_phase (task_at q i) \<noteq> Done \<Longrightarrow> \<not> tk_cancelled (task_at q i) \<Longrightarrow> qu_in_flight q k = Some (tk_id (task_at q i), i)"
    using parts(4) unfolding live_entries_def by blast
qed

lemma queue_inv_new: "queue_inv reconcile_queue_new"
  by (rule queue_invI) (simp_all add: reconcile_queue_new_def)

lemma queue_inv_set_phase:
  assumes "queue_inv q" and "i < length (qu_tasks q)" and "tk_phase (task_at q i) \<noteq> Spawned" "tk_phase (task_at q i) \<noteq> Done"
    and "p \<noteq> Spawned"
  shows "queue_inv (set_phase i p q)"
proof (rule queue_invI)
  fix k n j assume "qu_in_flight (set_phase i p q) k = Some (n, j)"
  then show "j < length (qu_tasks (set_phase i p q)) \<and> tk_key (task_at (set_phase i p q) j) = Some k \<and>
      tk_id (task_at (set_phase i p q) j) = n \<and> tk_phase (task_at (set_phase i p q) j) \<noteq> Spawned"
    using queue_invD(3) [OF assms(1), of k n j] assms(5) by simp
qed (use queue_invD(1,2,4) [OF assms(1)] assms(2-5) in \<open>simp_all split: if_splits\<close>)

lemma spawn_nth:
  "i < length (qu_tasks q) \<Longrightarrow> task_at (spawn meta e q) i = task_at q i"
  "length (qu_tasks (spawn meta e q)) = Suc (length (qu_tasks q))" "qu_in_flight (spawn meta e q) = qu_in_flight q"
  "qu_counter (spawn meta e q) = qu_counter q + (if resource_key meta e = None then 0 else 1)" "qu_shutdown (spawn meta e q) = qu_shutdown q"
  "task_at (spawn meta e q) (length (qu_tasks q)) = \<lparr>tk_id = (if resource_key meta e = None then 0 else qu_counter q),
     tk_key = resource_key meta e, tk_event = e, tk_cancelled = False, tk_phase = (if resource_key meta e = None then Reconciling else Spawned)\<rparr>"
  by (simp_all add: spawn_def nth_append split: option.splits)

lemma queue_inv_spawn:
  assumes "queue_inv q"
  shows "queue_inv (spawn meta e q)"
proof (rule queue_invI)
  fix i j
  assume "i < length (qu_tasks (spawn meta e q))" "j < length (qu_tasks (spawn meta e q))"
    "tk_key (task_at (spawn meta e q) i) \<noteq> None" "tk_key (task_at (spawn meta e q) j) \<noteq> None"
    "tk_id (task_at (spawn meta e q) i) = tk_id (task_at (spawn meta e q) j)"
  then show "i = j"
    using queue_invD(1) [OF assms, of i j] queue_invD(2) [OF assms, of i] queue_invD(2) [OF assms, of j]
    by (cases "i = length (qu_tasks q)"; cases "j = length (qu_tasks q)") (auto simp: spawn_nth)
next
  fix i assume "i < length (qu_tasks (spawn meta e q))" "tk_key (task_at (spawn meta e q) i) \<noteq> None"
  then show "tk_id (task_at (spawn meta e q) i) < qu_counter (spawn meta e q)"
    using queue_invD(2) [OF assms, of i] by (cases "i = length (qu_tasks q)") (auto simp: spawn_nth)
next
  fix k n i assume "qu_in_flight (spawn meta e q) k = Some (n, i)"
  then show "i < length (qu_tasks (spawn meta e q)) \<and> tk_key (task_at (spawn meta e q) i) = Some k \<and>
      tk_id (task_at (spawn meta e q) i) = n \<and> tk_phase (task_at (spawn meta e q) i) \<noteq> Spawned"
    using queue_invD(3) [OF assms, of k n i] by (simp add: spawn_nth)
next
  fix i k
  assume "i < length (qu_tasks (spawn meta e q))" "tk_key (task_at (spawn meta e q) i) = Some k"
    "tk_phase (task_at (spawn meta e q) i) \<noteq> Spawned" "tk_phase (task_at (spawn meta e q) i) \<noteq> Done" "\<not> tk_cancelled (task_at (spawn meta e q) i)"
  then show "qu_in_flight (spawn meta e q) k = Some (tk_id (task_at (spawn meta e q) i), i)"
    using queue_invD(4) [OF assms, of i k] by (cases "i = length (qu_tasks q)") (simp_all add: spawn_nth)
qed

lemma register_simps:
  assumes "i < length (qu_tasks q)"
  shows "length (qu_tasks (register i key q)) = length (qu_tasks q)" "qu_counter (register i key q) = qu_counter q"
    "qu_shutdown (register i key q) = qu_shutdown q" "qu_in_flight (register i key q) = (qu_in_flight q)(key \<mapsto> (tk_id (task_at q i), i))"
    and "j < length (qu_tasks q) \<Longrightarrow> tk_key (task_at (register i key q) j) = tk_key (task_at q j)"
    and "j < length (qu_tasks q) \<Longrightarrow> tk_id (task_at (register i key q) j) = tk_id (task_at q j)"
    and "j < length (qu_tasks q) \<Longrightarrow> tk_phase (task_at (register i key q) j) = (if i = j then Registered else tk_phase (task_at q j))"
    and "j < length (qu_tasks q) \<Longrightarrow>
      tk_cancelled (task_at (register i key q) j) = (tk_cancelled (task_at q j) \<or> map_option snd (qu_in_flight q key) = Some j)"
  using assms by (auto simp: register_def Let_def split: option.splits)

lemma queue_inv_register:
  assumes inv: "queue_inv q" and i: "i < length (qu_tasks q)" and key: "tk_key (task_at q i) = Some key" and new: "tk_phase (task_at q i) = Spawned"
  shows "queue_inv (register i key q)"
proof (rule queue_invI, goal_cases)
  case (1 j k)
  then show ?case by (intro queue_invD(1) [OF inv, of j k]) (simp_all add: register_simps [OF i])
next
  case (2 j)
  then show ?case using queue_invD(2) [OF inv, of j] by (simp add: register_simps [OF i])
next
  case (3 k n j)
  show ?case
  proof (cases "k = key")
    case True
    then have "j = i" "n = tk_id (task_at q i)" using 3 unfolding register_simps(4) [OF i] by auto
    then show ?thesis using True key i by (simp add: register_simps [OF i])
  next
    case False
    then show ?thesis using 3 queue_invD(3) [OF inv, of k n j] by (simp add: register_simps [OF i])
  qed
next
  case (4 j k)
  then have j: "j < length (qu_tasks q)" "tk_key (task_at q j) = Some k" by (simp_all add: register_simps [OF i])
  show ?case
  proof (cases "j = i")
    case True
    then show ?thesis using key j by (simp add: register_simps [OF i])
  next
    case False
    then have "qu_in_flight q k = Some (tk_id (task_at q j), j)" "map_option snd (qu_in_flight q key) \<noteq> Some j"
      using 4 j queue_invD(4) [OF inv, of j k] by (simp_all add: register_simps [OF i])
    then show ?thesis using j by (auto simp: register_simps [OF i])
  qed
qed

lemma queue_inv_unregister:
  assumes inv: "queue_inv q" and i: "i < length (qu_tasks q)" and run: "tk_phase (task_at q i) = Finishing"
  shows "queue_inv (unregister i q)"
proof -
  define keep where "keep k = (case tk_key (task_at q i) of Some key \<Rightarrow> k \<noteq> key \<or> map_option fst (qu_in_flight q k) \<noteq> Some (tk_id (task_at q i)) | None \<Rightarrow> True)" for k
  have un: "unregister i q = set_phase i Done (q\<lparr>qu_in_flight := (\<lambda>k. if keep k then qu_in_flight q k else None)\<rparr>)"
    by (auto simp: unregister_def keep_def Let_def fun_eq_iff intro!: arg_cong [of _ _ "set_phase i Done"] split: option.splits)
  show ?thesis unfolding un
  proof (rule queue_invI, goal_cases)
    case (1 j k)
    then show ?case using queue_invD(1) [OF inv, of j k] by (auto split: if_splits)
  next
    case (2 j)
    then show ?case using queue_invD(2) [OF inv, of j] by (auto split: if_splits)
  next
    case (3 k n j)
    then show ?case using queue_invD(3) [OF inv, of k n j] by (auto split: if_splits)
  next
    case (4 j k)
    then have j: "j < length (qu_tasks q)" "j \<noteq> i" "tk_key (task_at q j) = Some k" by (auto split: if_splits)
    have entry: "qu_in_flight q k = Some (tk_id (task_at q j), j)" using 4 queue_invD(4) [OF inv, of j k] j by (auto split: if_splits)
    have "keep k" using queue_invD(1) [OF inv, of j i] j i entry by (auto simp: keep_def split: option.splits)
    then show ?case using entry j by simp
  qed
qed

lemma next_phase_spawned [simp]:
  "process_reconcile_result meta c e r n \<noteq> Spawned" "requeue_fetched c n a \<noteq> Spawned" "requeue_reconciled c n r \<noteq> Spawned"
  by (auto simp: process_reconcile_result_def process_action_def process_requeue_def requeue_fetched_def requeue_reconciled_def
      split: sum.splits option.splits)

lemma phase_intro: "p \<noteq> Spawned \<Longrightarrow> \<exists>p'. p' \<noteq> Spawned \<and> set_phase i p q = set_phase i p' q"
  by blast

lemma task_step_cases:
  assumes "task_step meta c act i q = Some q'"
  obtains (register) key where "i < length (qu_tasks q)" "tk_phase (task_at q i) = Spawned" "tk_key (task_at q i) = Some key" "q' = register i key q"
  | (phase) p where "i < length (qu_tasks q)" "tk_phase (task_at q i) \<noteq> Spawned" "tk_phase (task_at q i) \<noteq> Done" "tk_phase (task_at q i) \<noteq> Finishing" "p \<noteq> Spawned" "q' = set_phase i p q"
  | (unregister) "i < length (qu_tasks q)" "tk_phase (task_at q i) = Finishing" "q' = unregister i q"
proof -
  have i: "i < length (qu_tasks q)" using assms by (simp add: task_step_def split: if_splits)
  have step: "\<exists>p. p \<noteq> Spawned \<and> q' = set_phase i p q"
    if "tk_phase (task_at q i) \<noteq> Spawned" "tk_phase (task_at q i) \<noteq> Finishing" "tk_phase (task_at q i) \<noteq> Done"
    using assms i that
    by (cases "tk_phase (task_at q i)"; cases act) (auto simp: task_step_def Let_def split: if_splits intro!: phase_intro)
  consider "tk_phase (task_at q i) = Spawned" | "tk_phase (task_at q i) = Finishing"
    | "tk_phase (task_at q i) \<noteq> Spawned" "tk_phase (task_at q i) \<noteq> Finishing" "tk_phase (task_at q i) \<noteq> Done"
    using assms i by (cases "tk_phase (task_at q i)") (auto simp: task_step_def Let_def)
  then show thesis
  proof cases
    case 1
    then have "\<exists>key. tk_key (task_at q i) = Some key \<and> q' = register i key q" using assms i by (cases act) (auto simp: task_step_def Let_def)
    then show thesis using register [OF i 1] by blast
  next
    case 2
    then have "q' = unregister i q" using assms i by (cases act) (auto simp: task_step_def Let_def)
    then show thesis by (rule unregister [OF i 2])
  next
    case 3
    then show thesis using step [OF 3] phase [OF i 3(1,3,2)] by blast
  qed
qed

lemma queue_inv_step:
  assumes "queue_inv q" and "queue_step meta c act q = Some q'"
  shows "queue_inv q'"
proof (cases "actor act")
  case None
  have "queue_inv (q\<lparr>qu_shutdown := True\<rparr>) \<longleftrightarrow> queue_inv q"
    by (simp add: queue_inv_def own_numbers_def numbers_used_def entries_registered_def live_entries_def)
  then show ?thesis using None assms queue_inv_spawn by (cases act) (auto simp: queue_step_def)
next
  case (Some i)
  then have "task_step meta c act i q = Some q'" using assms(2) by (cases act) (auto simp: queue_step_def)
  then show ?thesis
  proof (cases rule: task_step_cases)
    case (register key)
    show ?thesis unfolding register(4) by (rule queue_inv_register [OF assms(1) register(1,3,2)])
  next
    case (phase p)
    show ?thesis unfolding phase(6) by (rule queue_inv_set_phase [OF assms(1) phase(1,2,3,5)])
  next
    case unregister
    show ?thesis unfolding unregister(3) by (rule queue_inv_unregister [OF assms(1) unregister(1,2)])
  qed
qed

lemma queue_inv_run: "queue_run meta c acts q = Some q' \<Longrightarrow> queue_inv q \<Longrightarrow> queue_inv q'"
  by (induction acts arbitrary: q) (auto simp: bind_eq_Some_conv dest: queue_inv_step)

text \<open>
  C18: In every state that a queue can reach, at most one live task belongs to an object: when a task of
  an object has registered, every other task of the object that has registered has ended or is told to stop.
\<close>

theorem one_live_task_per_object:
  assumes "queue_run meta c acts reconcile_queue_new = Some q"
    and "live q i" and "live q j" and "tk_key (task_at q i) = Some key" and "tk_key (task_at q j) = Some key"
  shows "i = j"
proof -
  have inv: "queue_inv q" using queue_inv_run [OF assms(1) queue_inv_new] .
  have "qu_in_flight q key = Some (tk_id (task_at q i), i)" "qu_in_flight q key = Some (tk_id (task_at q j), j)"
    using assms(2-5) queue_invD(4) [OF inv] by (simp_all add: live_def is_cancelled_def)
  then show ?thesis by simp
qed

section \<open>Cancelled tasks\<close>

text \<open>The actions a cancelled task has left, and the reconciliations among them.\<close>

fun steps_left :: "'a task_phase \<Rightarrow> nat" where
  "steps_left Spawned = 5"
| "steps_left Registered = 1"
| "steps_left Reconciling = 3"
| "steps_left (Waiting d n) = 2"
| "steps_left (Fetching n) = 4"
| "steps_left (Requeued v n) = 3"
| "steps_left Finishing = 1"
| "steps_left Done = 0"

fun reconciles_left :: "'a task_phase \<Rightarrow> nat" where
  "reconciles_left Reconciling = 1"
| "reconciles_left (Fetching n) = 1"
| "reconciles_left (Requeued v n) = 1"
| "reconciles_left p = 0"

definition reconciles :: "('a, 'e) queue_action \<Rightarrow> bool" where
  "reconciles act = (case act of Reconciled _ _ \<Rightarrow> True | _ \<Rightarrow> False)"

lemma unregister_simps:
  assumes "i < length (qu_tasks q)"
  shows "length (qu_tasks (unregister i q)) = length (qu_tasks q)" "qu_shutdown (unregister i q) = qu_shutdown q"
    and "j < length (qu_tasks q) \<Longrightarrow> task_at (unregister i q) j = (if i = j then (task_at q j)\<lparr>tk_phase := Done\<rparr> else task_at q j)"
  using assms by (auto simp: unregister_def Let_def split: option.splits)

lemma task_step_keeps:
  assumes "task_step meta c act j q = Some q'" and "i < length (qu_tasks q)"
  shows "length (qu_tasks q') = length (qu_tasks q)" "is_cancelled q i \<Longrightarrow> is_cancelled q' i"
    and "j \<noteq> i \<Longrightarrow> tk_phase (task_at q' i) = tk_phase (task_at q i)"
proof -
  have "length (qu_tasks q') = length (qu_tasks q) \<and> (is_cancelled q i \<longrightarrow> is_cancelled q' i) \<and>
      (j \<noteq> i \<longrightarrow> tk_phase (task_at q' i) = tk_phase (task_at q i))"
    using assms(1)
  proof (cases rule: task_step_cases)
    case (register key)
    then show ?thesis using assms(2) by (simp add: is_cancelled_def register_simps [OF register(1)])
  next
    case (phase p)
    then show ?thesis using assms(2) by (simp add: is_cancelled_def)
  next
    case unregister
    then show ?thesis using assms(2) by (simp add: is_cancelled_def unregister_simps [OF unregister(1)])
  qed
  then show "length (qu_tasks q') = length (qu_tasks q)" "is_cancelled q i \<Longrightarrow> is_cancelled q' i"
    "j \<noteq> i \<Longrightarrow> tk_phase (task_at q' i) = tk_phase (task_at q i)" by simp_all
qed

lemma next_phase_left:
  "steps_left (process_reconcile_result meta c e r n) < 3" "reconciles_left (process_reconcile_result meta c e r n) = 0"
  "steps_left (requeue_fetched c n a) < 4" "reconciles_left (requeue_fetched c n a) \<le> 1"
  "steps_left (requeue_reconciled c n r) < 3" "reconciles_left (requeue_reconciled c n r) = 0"
  by (auto simp: process_reconcile_result_def process_action_def process_requeue_def requeue_fetched_def requeue_reconciled_def
      split: sum.splits option.splits)

lemma cancelled_step:
  assumes "task_step meta c act i q = Some q'" and "is_cancelled q i" and "tk_phase (task_at q i) \<noteq> Spawned"
  shows "steps_left (tk_phase (task_at q' i)) < steps_left (tk_phase (task_at q i))"
    "(if reconciles act then 1 else 0) + reconciles_left (tk_phase (task_at q' i)) \<le> reconciles_left (tk_phase (task_at q i))"
    "tk_phase (task_at q' i) \<noteq> Spawned"
proof -
  have i: "i < length (qu_tasks q)" using assms(1) by (simp add: task_step_def split: if_splits)
  have "steps_left (tk_phase (task_at q' i)) < steps_left (tk_phase (task_at q i)) \<and>
    (if reconciles act then 1 else 0) + reconciles_left (tk_phase (task_at q' i)) \<le> reconciles_left (tk_phase (task_at q i)) \<and>
    tk_phase (task_at q' i) \<noteq> Spawned"
    using assms i
    by (cases "tk_phase (task_at q i)"; cases act)
      (auto simp: task_step_def Let_def reconciles_def unregister_simps next_phase_left [simplified] split: if_splits)
  then show "steps_left (tk_phase (task_at q' i)) < steps_left (tk_phase (task_at q i))"
    "(if reconciles act then 1 else 0) + reconciles_left (tk_phase (task_at q' i)) \<le> reconciles_left (tk_phase (task_at q i))"
    "tk_phase (task_at q' i) \<noteq> Spawned" by simp_all
qed

lemma cancelled_run:
  assumes "queue_run meta c acts q = Some q'" and "i < length (qu_tasks q)" and "is_cancelled q i" and "tk_phase (task_at q i) \<noteq> Spawned"
  shows "length (filter (\<lambda>act. actor act = Some i) acts) \<le> steps_left (tk_phase (task_at q i)) \<and>
    length (filter (\<lambda>act. actor act = Some i \<and> reconciles act) acts) \<le> reconciles_left (tk_phase (task_at q i))"
  using assms
proof (induction acts arbitrary: q)
  case (Cons act acts)
  obtain q1 where q1: "queue_step meta c act q = Some q1" "queue_run meta c acts q1 = Some q'"
    using Cons.prems(1) by (auto simp: bind_eq_Some_conv)
  show ?case
  proof (cases "actor act")
    case None
    then have "i < length (qu_tasks q1)" "is_cancelled q1 i" "tk_phase (task_at q1 i) = tk_phase (task_at q i)"
      using q1(1) Cons.prems(2,3) by (cases act; auto simp: queue_step_def is_cancelled_def spawn_nth)+
    then show ?thesis using Cons.IH [OF q1(2)] Cons.prems None by simp
  next
    case (Some j)
    then have step: "task_step meta c act j q = Some q1" using q1(1) by (cases act) (auto simp: queue_step_def)
    note keeps = task_step_keeps [OF step Cons.prems(2)]
    have q1': "i < length (qu_tasks q1)" "is_cancelled q1 i" using keeps Cons.prems by simp_all
    show ?thesis
    proof (cases "j = i")
      case True
      note own = cancelled_step [OF step [unfolded True] Cons.prems(3,4)]
      show ?thesis using Cons.IH [OF q1(2) q1' own(3)] own(1,2) Some True by (auto split: if_splits)
    next
      case False
      then show ?thesis using Cons.IH [OF q1(2) q1'] keeps(3) Cons.prems(4) Some by simp
    qed
  qed
qed simp

text \<open>
  C19: However a queue goes on, a registered task whose token has been cancelled does at most four more
  actions, at most one of which is the end of a reconciliation.
\<close>

theorem cancelled_task_stops:
  assumes "queue_run meta c acts q = Some q'" and "i < length (qu_tasks q)" and "is_cancelled q i" and "tk_phase (task_at q i) \<noteq> Spawned"
  shows "length (filter (\<lambda>act. actor act = Some i) acts) \<le> 4 \<and> length (filter (\<lambda>act. actor act = Some i \<and> reconciles act) acts) \<le> 1"
proof -
  have "steps_left p \<le> 4" "reconciles_left p \<le> 1" if "p \<noteq> Spawned" for p :: "'a task_phase" using that by (cases p; simp)+
  then show ?thesis using cancelled_run [OF assms] assms(4) by (meson order_trans)
qed

section \<open>Races\<close>

text \<open>Two versions of an object, and the reconciliations that ended in a run, by their events.\<close>

definition example_version :: "string \<Rightarrow> object_meta" where
  "example_version rv = object_meta_default\<lparr>om_name := Some ''web'', om_namespace := Some ''default'', om_resource_version := Some rv\<rparr>"

fun reconciled_events ::
  "('a \<Rightarrow> object_meta option) \<Rightarrow> backoff_config \<Rightarrow> ('a, 'e) queue_action list \<Rightarrow> 'a reconcile_queue \<Rightarrow> 'a reconcile_event list" where
  "reconciled_events meta c [] q = []"
| "reconciled_events meta c (act # acts) q = (case queue_step meta c act q of
     None \<Rightarrow> []
   | Some q' \<Rightarrow> (case act of
       Reconciled i r \<Rightarrow> [case tk_phase (task_at q i) of Requeued v n \<Rightarrow> Applied v | _ \<Rightarrow> tk_event (task_at q i)]
     | _ \<Rightarrow> []) @ reconciled_events meta c acts q')"

text \<open>The task of the newer event registers first; the task of the older event cancels it.\<close>

definition overtaking_run :: "(object_meta, string) queue_action list" where
  "overtaking_run = [Spawn (Applied (example_version ''1'')), Spawn (Applied (example_version ''2'')), Register 1, Start 1, Register 0,
     Interrupted 1, Start 0, Unregister 1, Reconciled 0 (Inr await_change), Unregister 0]"

text \<open>A task is cancelled while it reconciles an object after a requeue, and its successor starts.\<close>

definition overlapping_run :: "(object_meta, string) queue_action list" where
  "overlapping_run = [Spawn (Applied (example_version ''1'')), Register 0, Start 0, Reconciled 0 (Inr (requeue 5)), Awoken 0,
     Fetched 0 (Inr (Some (example_version ''1''))), Spawn (Applied (example_version ''2'')), Register 1, Start 1]"


lemma reconciliations_overlap:
  "map_option (\<lambda>q. map tk_phase (qu_tasks q)) (queue_run Some backoff_default overlapping_run reconcile_queue_new) =
     Some [Requeued (example_version ''1'') 0, Reconciling]"
  by code_simp

theorem one_live_task_per_object_witness:
  "map_option (\<lambda>q. (live q 0, live q 1, tk_key (task_at q 0) = tk_key (task_at q 1)))
     (queue_run Some backoff_default overlapping_run reconcile_queue_new) = Some (False, True, True)"
proof -
  obtain q where q: "queue_run Some backoff_default overlapping_run reconcile_queue_new = Some q"
    using reconciliations_overlap by (auto simp del: queue_run.simps)
  have keys: "map_option (\<lambda>q. (live q 1, tk_key (task_at q 0), tk_key (task_at q 1)))
      (queue_run Some backoff_default overlapping_run reconcile_queue_new) = Some (True, Some ''default/web'', Some ''default/web'')"
    by code_simp
  then have one: "live q 1" "tk_key (task_at q 0) = Some ''default/web''" "tk_key (task_at q 1) = Some ''default/web''" by (simp_all add: q)
  have "\<not> live q 0" using one_live_task_per_object [OF q _ one] by auto
  then show ?thesis using one by (simp add: q)
qed

theorem cancelled_task_stops_witness:
  "\<exists>q. queue_run Some backoff_default overlapping_run reconcile_queue_new = Some q \<and> is_cancelled q 0 \<and>
     queue_run Some backoff_default [Reconciled 0 (Inr (requeue 5)), Awoken 0, Unregister 0 :: (object_meta, string) queue_action] q \<noteq> None \<and>
     length (filter (\<lambda>act. actor act = Some 0) [Reconciled 0 (Inr (requeue 5)), Awoken 0, Unregister 0 :: (object_meta, string) queue_action]) \<le> 4"
proof -
  let ?acts = "[Reconciled 0 (Inr (requeue 5)), Awoken 0, Unregister 0] :: (object_meta, string) queue_action list"
  obtain q where q: "queue_run Some backoff_default overlapping_run reconcile_queue_new = Some q"
    using reconciliations_overlap by (auto simp del: queue_run.simps)
  have "map_option (\<lambda>q. (length (qu_tasks q), is_cancelled q 0, tk_phase (task_at q 0) = Spawned, queue_run Some backoff_default ?acts q = None))
      (queue_run Some backoff_default overlapping_run reconcile_queue_new) = Some (2, True, False, False)"
    unfolding Option.is_none_def [symmetric] by code_simp
  then have facts: "0 < length (qu_tasks q)" "is_cancelled q 0" "tk_phase (task_at q 0) \<noteq> Spawned" "queue_run Some backoff_default ?acts q \<noteq> None"
    by (simp_all add: q del: queue_run.simps)
  obtain q' where "queue_run Some backoff_default ?acts q = Some q'" using facts(4) by blast
  from cancelled_task_stops [OF this facts(1-3)] show ?thesis using q facts by (intro exI [of _ q] conjI) (simp_all del: queue_run.simps)
qed

end
