(* ===== verification/Crd_Registry.thy ===== *)
theory Crd_Registry
  imports Api_Responses
begin

text \<open>
  Definitions of custom resources: names (\<^verbatim>\<open>tugboat-resources/src/validators/name.rs\<close>), their validation
  (\<^verbatim>\<open>manifests/apiextensions.rs\<close>), and the registry of the API server (\<^verbatim>\<open>tugboat-apiserver/src/crd_registry.rs\<close>),
  which is loaded from the store and then follows its watch events.  The parser of JSON and the
  compiler of schemas are parameters.
\<close>

section \<open>Names\<close>

text \<open>The regular expressions of \<^verbatim>\<open>NameValidator\<close>.\<close>

definition lower_alnum :: "char \<Rightarrow> bool" where
  "lower_alnum c \<longleftrightarrow> c \<in> set ''abcdefghijklmnopqrstuvwxyz0123456789''"

definition upper_letter :: "char \<Rightarrow> bool" where
  "upper_letter c \<longleftrightarrow> c \<in> set ''ABCDEFGHIJKLMNOPQRSTUVWXYZ''"

definition name_label :: "string \<Rightarrow> bool" where
  "name_label s \<longleftrightarrow> s \<noteq> [] \<and> lower_alnum (hd s) \<and> lower_alnum (last s) \<and> list_all (\<lambda>c. lower_alnum c \<or> c = CHR ''-'') s"

definition is_valid_name :: "string \<Rightarrow> bool" where
  "is_valid_name s \<longleftrightarrow> s \<noteq> [] \<and> length s \<le> 253 \<and> name_label s"

definition is_valid_generate_name :: "string \<Rightarrow> bool" where
  "is_valid_generate_name s \<longleftrightarrow> s \<noteq> [] \<and> length s \<le> 248 \<and> lower_alnum (hd s) \<and> list_all (\<lambda>c. lower_alnum c \<or> c = CHR ''-'') s"

definition is_valid_dns_subdomain :: "string \<Rightarrow> bool" where
  "is_valid_dns_subdomain s \<longleftrightarrow> s \<noteq> [] \<and> length s \<le> 253 \<and> list_all name_label (split_char (CHR ''.'') s)"

definition is_valid_kind_name :: "string \<Rightarrow> bool" where
  "is_valid_kind_name s \<longleftrightarrow> s \<noteq> [] \<and> length s \<le> 253 \<and> upper_letter (hd s) \<and>
     list_all (\<lambda>c. upper_letter c \<or> lower_alnum c) s"

definition name_validator :: "object_meta option \<Rightarrow> bool" where
  "name_validator m = (case m of
     None \<Rightarrow> False
   | Some meta \<Rightarrow> (case om_name meta of
       Some n \<Rightarrow> is_valid_name n
     | None \<Rightarrow> (case om_generate_name meta of Some g \<Rightarrow> is_valid_generate_name g | None \<Rightarrow> False)))"

section \<open>Definitions of custom resources\<close>

text \<open>The messages; the status, which no operation here reads, is left out.\<close>

record crd_names =
  cn_plural :: string
  cn_singular :: string
  cn_kind :: string
  cn_list_kind :: string

record crd_version =
  cv_name :: string
  cv_served :: bool
  cv_storage :: bool
  cv_schema :: "string option"
  cv_status_subresource :: "unit option option"

record crd_spec =
  cs_group :: string
  cs_names :: "crd_names option"
  cs_scope :: string
  cs_versions :: "crd_version list"

record crd =
  crd_meta :: "object_meta option"
  crd_spec :: "crd_spec option"

definition reserved_groups :: "string list" where
  "reserved_groups = [''core'', ''apps'', ''authorization'', ''coordination'', ''snapshot'', ''apiextensions'']"

datatype crd_spec_validation_error =
  MissingSpec
| UnsupportedScope string
| InvalidGroup string
| ReservedSpecGroup string
| UnsupportedVersionCount nat
| InvalidVersionName string
| VersionNotServed string
| VersionNotStorage string
| MissingNames
| InvalidPlural string
| InvalidSingular string
| InvalidKind string
| InvalidListKind string
| NameMismatch string string
| InvalidOpenApiSchemaJson string

text \<open>What JSON text the library reads, with its error, and which JSON values are schemas.\<close>

record 'v schema_library =
  sl_parse :: "string \<Rightarrow> string + json"
  sl_compile :: "json \<Rightarrow> string + 'v"

definition crd_full_name :: "crd_names \<Rightarrow> crd_spec \<Rightarrow> string" where
  "crd_full_name names spec = cn_plural names @ ''.'' @ cs_group spec"

definition check_names :: "'v schema_library \<Rightarrow> crd \<Rightarrow> crd_spec \<Rightarrow> crd_version \<Rightarrow> crd_spec_validation_error + unit" where
  "check_names S c spec version = (case cs_names spec of
     None \<Rightarrow> Inl MissingNames
   | Some names \<Rightarrow>
       if \<not> is_valid_name (cn_plural names) then Inl (InvalidPlural (cn_plural names))
       else if \<not> is_valid_name (cn_singular names) then Inl (InvalidSingular (cn_singular names))
       else if \<not> is_valid_kind_name (cn_kind names) then Inl (InvalidKind (cn_kind names))
       else if cn_list_kind names \<noteq> [] \<and> \<not> is_valid_kind_name (cn_list_kind names) then Inl (InvalidListKind (cn_list_kind names))
       else if unwrap_or [] (meta_name (crd_meta c)) \<noteq> crd_full_name names spec
       then Inl (NameMismatch (crd_full_name names spec) (unwrap_or [] (meta_name (crd_meta c))))
       else case cv_schema version of
         None \<Rightarrow> Inr ()
       | Some schema \<Rightarrow> (case sl_parse S schema of Inl e \<Rightarrow> Inl (InvalidOpenApiSchemaJson e) | Inr _ \<Rightarrow> Inr ()))"

definition validate_crd_spec :: "'v schema_library \<Rightarrow> crd \<Rightarrow> crd_spec_validation_error + unit" where
  "validate_crd_spec S c = (case crd_spec c of
     None \<Rightarrow> Inl MissingSpec
   | Some spec \<Rightarrow>
       if cs_scope spec \<noteq> ''Namespaced'' \<and> cs_scope spec \<noteq> ''Cluster'' then Inl (UnsupportedScope (cs_scope spec))
       else if \<not> is_valid_dns_subdomain (cs_group spec) then Inl (InvalidGroup (cs_group spec))
       else if cs_group spec \<in> set reserved_groups then Inl (ReservedSpecGroup (cs_group spec))
       else (case cs_versions spec of
         [version] \<Rightarrow>
           if \<not> is_valid_name (cv_name version) then Inl (InvalidVersionName (cv_name version))
           else if \<not> cv_served version then Inl (VersionNotServed (cv_name version))
           else if \<not> cv_storage version then Inl (VersionNotStorage (cv_name version))
           else check_names S c spec version
       | vs \<Rightarrow> Inl (UnsupportedVersionCount (length vs))))"

fun check_schemas :: "'v schema_library \<Rightarrow> crd_version list \<Rightarrow> string + unit" where
  "check_schemas S [] = Inr ()"
| "check_schemas S (version # vs) = (case cv_schema version of
     None \<Rightarrow> check_schemas S vs
   | Some schema \<Rightarrow>
       if trim schema = [] then check_schemas S vs
       else case sl_parse S schema of
         Inl e \<Rightarrow> Inl e
       | Inr v \<Rightarrow> (case sl_compile S v of Inl e \<Rightarrow> Inl e | Inr _ \<Rightarrow> check_schemas S vs))"

definition validate_crd_schemas :: "'v schema_library \<Rightarrow> crd \<Rightarrow> string + unit" where
  "validate_crd_schemas S c = (case crd_spec c of None \<Rightarrow> Inr () | Some spec \<Rightarrow> check_schemas S (cs_versions spec))"

section \<open>The registry\<close>

record 'v crd_version_info =
  vi_name :: string
  vi_served :: bool
  vi_storage :: bool
  vi_schema_json :: "json option"
  vi_compiled_schema :: "'v option"
  vi_status_subresource :: bool

record 'v crd_entry =
  ce_group :: string
  ce_plural :: string
  ce_singular :: string
  ce_kind :: string
  ce_list_kind :: string
  ce_scope :: resource_scope
  ce_version :: "'v crd_version_info"

type_synonym registry_key = "string \<times> string \<times> string"

type_synonym 'v crd_registry = "registry_key \<Rightarrow> 'v crd_entry option"

datatype crd_registry_error = ReservedGroup string

definition entry_key :: "'v crd_entry \<Rightarrow> registry_key" where
  "entry_key e = (ce_group e, vi_name (ce_version e), ce_plural e)"

definition crd_name :: "'v crd_entry \<Rightarrow> string" where
  "crd_name e = ce_plural e @ ''.'' @ ce_group e"

definition ensure_group_allowed :: "string \<Rightarrow> crd_registry_error + unit" where
  "ensure_group_allowed g = (if g \<in> set reserved_groups then Inl (ReservedGroup g) else Inr ())"

definition lookup_crd :: "'v crd_registry \<Rightarrow> string \<Rightarrow> string \<Rightarrow> string \<Rightarrow> 'v crd_entry option" where
  "lookup_crd reg g version plural = filter_opt (\<lambda>e. vi_served (ce_version e)) (reg (g, version, plural))"

definition upsert :: "'v crd_entry \<Rightarrow> 'v crd_registry \<Rightarrow> (crd_registry_error + unit) \<times> 'v crd_registry" where
  "upsert e reg = (case ensure_group_allowed (ce_group e) of
     Inl err \<Rightarrow> (Inl err, reg)
   | Inr _ \<Rightarrow> (Inr (), reg(entry_key e \<mapsto> e)))"

definition remove_entry :: "string \<Rightarrow> string \<Rightarrow> string \<Rightarrow> 'v crd_registry \<Rightarrow> 'v crd_registry" where
  "remove_entry g version plural reg = reg((g, version, plural) := None)"

definition remove_crd :: "crd \<Rightarrow> 'v crd_registry \<Rightarrow> 'v crd_registry" where
  "remove_crd c reg = (case crd_spec c of
     None \<Rightarrow> reg
   | Some spec \<Rightarrow> (case cs_names spec of
       None \<Rightarrow> reg
     | Some names \<Rightarrow> fold (\<lambda>version. remove_entry (cs_group spec) (cv_name version) (cn_plural names)) (cs_versions spec) reg))"

definition remove_crd_name :: "string \<Rightarrow> 'v crd_registry \<Rightarrow> 'v crd_registry" where
  "remove_crd_name n reg = (\<lambda>k. filter_opt (\<lambda>e. n \<noteq> crd_name e) (reg k))"

fun insert_entries :: "'v crd_entry list \<Rightarrow> 'v crd_registry \<Rightarrow> crd_registry_error + 'v crd_registry" where
  "insert_entries [] reg = Inr reg"
| "insert_entries (e # es) reg = (case ensure_group_allowed (ce_group e) of
     Inl err \<Rightarrow> Inl err
   | Inr _ \<Rightarrow> insert_entries es (reg(entry_key e \<mapsto> e)))"

definition replace_all :: "'v crd_entry list \<Rightarrow> 'v crd_registry \<Rightarrow> (crd_registry_error + unit) \<times> 'v crd_registry" where
  "replace_all es reg = (case insert_entries es (\<lambda>_. None) of
     Inl err \<Rightarrow> (Inl err, reg)
   | Inr reg' \<Rightarrow> (Inr (), reg'))"

definition compiled_schema :: "'v schema_library \<Rightarrow> crd_version \<Rightarrow> (json option \<times> 'v option) option" where
  "compiled_schema S version = (case cv_schema version of
     None \<Rightarrow> Some (None, None)
   | Some schema \<Rightarrow>
       if trim schema = [] then Some (None, None)
       else case sl_parse S schema of
         Inl _ \<Rightarrow> None
       | Inr v \<Rightarrow> (case sl_compile S v of Inl _ \<Rightarrow> None | Inr compiled \<Rightarrow> Some (Some v, Some compiled)))"

definition from_crd :: "'v schema_library \<Rightarrow> crd \<Rightarrow> 'v crd_entry option" where
  "from_crd S c =
     Option.bind (crd_spec c) (\<lambda>spec.
     Option.bind (cs_names spec) (\<lambda>names.
     case cs_versions spec of
       [] \<Rightarrow> None
     | version # _ \<Rightarrow>
         Option.bind (if cs_scope spec = ''Cluster'' then Some Cluster else if cs_scope spec = ''Namespaced'' then Some Namespaced else None) (\<lambda>scope.
         Option.bind (compiled_schema S version) (\<lambda>(schema_json, compiled).
         Some \<lparr>ce_group = cs_group spec, ce_plural = cn_plural names, ce_singular = cn_singular names, ce_kind = cn_kind names,
           ce_list_kind = (if cn_list_kind names = [] then cn_kind names @ ''List'' else cn_list_kind names), ce_scope = scope,
           ce_version = \<lparr>vi_name = cv_name version, vi_served = cv_served version, vi_storage = cv_storage version,
             vi_schema_json = schema_json, vi_compiled_schema = compiled,
             vi_status_subresource = (Option.bind (cv_status_subresource version) id \<noteq> None)\<rparr>\<rparr>))))"

section \<open>Loading and watching\<close>

record stored_value =
  we_key :: string
  we_value :: bytes
  we_revision :: int

datatype store_event = KeyAdded stored_value | KeyModified stored_value | KeyDeleted stored_value

definition last_segment :: "string \<Rightarrow> string option" where
  "last_segment key = (let segment = last (split_char (CHR ''/'') key) in if segment = [] then None else Some segment)"

definition crd_name_from_crd_or_key :: "crd \<Rightarrow> string \<Rightarrow> string option" where
  "crd_name_from_crd_or_key c key = (case meta_name (crd_meta c) of Some n \<Rightarrow> Some n | None \<Rightarrow> last_segment key)"

definition register_crd :: "'v schema_library \<Rightarrow> crd \<Rightarrow> string \<Rightarrow> 'v crd_registry \<Rightarrow> 'v crd_registry" where
  "register_crd S c key reg = (case from_crd S c of
     Some e \<Rightarrow> snd (upsert e (remove_crd_name (unwrap_or (crd_name e) (crd_name_from_crd_or_key c key)) reg))
   | None \<Rightarrow> (case crd_name_from_crd_or_key c key of Some n \<Rightarrow> remove_crd_name n reg | None \<Rightarrow> reg))"

definition apply_watch_event :: "'v schema_library \<Rightarrow> crd resource_type \<Rightarrow> store_event \<Rightarrow> 'v crd_registry \<Rightarrow> 'v crd_registry" where
  "apply_watch_event S T event reg = (case event of
     KeyDeleted kv \<Rightarrow> (case last_segment (we_key kv) of Some n \<Rightarrow> remove_crd_name n reg | None \<Rightarrow> reg)
   | KeyAdded kv \<Rightarrow> (case deserialize T (we_value kv) of Inr c \<Rightarrow> register_crd S c (we_key kv) reg | Inl _ \<Rightarrow> reg)
   | KeyModified kv \<Rightarrow> (case deserialize T (we_value kv) of Inr c \<Rightarrow> register_crd S c (we_key kv) reg | Inl _ \<Rightarrow> reg))"

datatype crd_sync_error = SyncStore store_error | SyncRegistry crd_registry_error

definition load_crds_into_registry ::
  "'s etcd \<Rightarrow> crd resource_type \<Rightarrow> 'v schema_library \<Rightarrow> 'v crd_registry \<Rightarrow> 's \<Rightarrow> (crd_sync_error + int) \<times> 'v crd_registry \<times> 's" where
  "load_crds_into_registry E T S reg s = (case list_with_revision E T None None s of
     (Inl e, s') \<Rightarrow> (Inl (SyncStore e), reg, s')
   | (Inr (crds, revision), s') \<Rightarrow>
       (case replace_all (filter_map (\<lambda>c. from_crd S (cd_data c)) crds) reg of
          (Inl e, reg') \<Rightarrow> (Inl (SyncRegistry e), reg', s')
        | (Inr _, reg') \<Rightarrow> (Inr revision, reg', s')))"

text \<open>One round of the watcher: the load, and the batches of events that the watch delivers until it closes.\<close>

definition crd_watcher_round ::
  "'s etcd \<Rightarrow> crd resource_type \<Rightarrow> 'v schema_library \<Rightarrow> store_event list list \<Rightarrow> 'v crd_registry \<Rightarrow> 's \<Rightarrow> 'v crd_registry \<times> 's" where
  "crd_watcher_round E T S batches reg s = (case load_crds_into_registry E T S reg s of
     (Inl _, reg', s') \<Rightarrow> (reg', s')
   | (Inr _, reg', s') \<Rightarrow> (fold (fold (apply_watch_event S T)) batches reg', s'))"

section \<open>The registry follows the store\<close>

text \<open>
  The registry shows the definitions stored under their names: it has exactly the entries that they
  describe, each under its group, version and plural.
\<close>

definition registry_shows :: "'v schema_library \<Rightarrow> (string \<Rightarrow> crd option) \<Rightarrow> 'v crd_registry \<Rightarrow> bool" where
  "registry_shows S content reg \<longleftrightarrow>
     (\<forall>k e. reg k = Some e \<longleftrightarrow> (\<exists>n c. content n = Some c \<and> from_crd S c = Some e \<and> entry_key e = k))"

definition valid_crd :: "'v schema_library \<Rightarrow> string \<Rightarrow> crd \<Rightarrow> bool" where
  "valid_crd S n c \<longleftrightarrow> validate_crd_spec S c = Inr () \<and> meta_name (crd_meta c) = Some n"

definition valid_content :: "'v schema_library \<Rightarrow> (string \<Rightarrow> crd option) \<Rightarrow> bool" where
  "valid_content S content \<longleftrightarrow> (\<forall>n c. content n = Some c \<longrightarrow> valid_crd S n c)"

text \<open>A change of the stored definitions, which can be read back, and the event with which the store reports it.\<close>

datatype crd_change = CrdCreated string crd | CrdUpdated string crd | CrdErased string

definition crd_key :: "string \<Rightarrow> string" where
  "crd_key n = base_path @ ''/apiextensions/customresourcedefinitions/'' @ n"

fun changed_content :: "crd_change \<Rightarrow> (string \<Rightarrow> crd option) \<Rightarrow> string \<Rightarrow> crd option" where
  "changed_content (CrdCreated n c) content = content(n \<mapsto> c)"
| "changed_content (CrdUpdated n c) content = content(n \<mapsto> c)"
| "changed_content (CrdErased n) content = content(n := None)"

fun change_event :: "crd resource_type \<Rightarrow> crd_change \<times> bytes \<times> int \<Rightarrow> store_event" where
  "change_event T (CrdCreated n c, _, r) = KeyAdded \<lparr>we_key = crd_key n, we_value = rt_encode T c, we_revision = r\<rparr>"
| "change_event T (CrdUpdated n c, _, r) = KeyModified \<lparr>we_key = crd_key n, we_value = rt_encode T c, we_revision = r\<rparr>"
| "change_event T (CrdErased n, prev, r) = KeyDeleted \<lparr>we_key = crd_key n, we_value = prev, we_revision = r\<rparr>"

fun valid_change :: "'v schema_library \<Rightarrow> crd resource_type \<Rightarrow> crd_change \<Rightarrow> bool" where
  "valid_change S T (CrdCreated n c) \<longleftrightarrow> valid_crd S n c \<and> deserialize T (rt_encode T c) = Inr c"
| "valid_change S T (CrdUpdated n c) \<longleftrightarrow> valid_crd S n c \<and> deserialize T (rt_encode T c) = Inr c"
| "valid_change S T (CrdErased n) \<longleftrightarrow> n \<noteq> [] \<and> CHR ''/'' \<notin> set n"

lemma entry_of_valid:
  assumes "valid_crd S n c" and "from_crd S c = Some e"
  shows "crd_name e = n" and "ce_group e \<notin> set reserved_groups" and "vi_served (ce_version e)"
proof -
  obtain spec version where spec: "crd_spec c = Some spec" "cs_versions spec = [version]" "cs_group spec \<notin> set reserved_groups"
      "cv_served version" "check_names S c spec version = Inr ()" and n: "meta_name (crd_meta c) = Some n"
    using assms(1) by (auto simp: valid_crd_def validate_crd_spec_def split: option.splits if_splits list.splits)
  obtain names where names: "cs_names spec = Some names" "crd_full_name names spec = n"
    using spec(5) n by (auto simp: check_names_def split: option.splits if_splits)
  have "ce_group e = cs_group spec" "ce_plural e = cn_plural names" "vi_served (ce_version e) = cv_served version"
    using assms(2) spec names by (auto simp: from_crd_def bind_eq_Some_conv)
  then show "crd_name e = n" "ce_group e \<notin> set reserved_groups" "vi_served (ce_version e)"
    using spec names by (auto simp: crd_name_def crd_full_name_def)
qed

lemma same_key_same_name: "entry_key e = entry_key e' \<Longrightarrow> crd_name e = crd_name e'"
  by (simp add: entry_key_def crd_name_def)

lemma shows_name:
  assumes "registry_shows S content reg" and "valid_content S content" and "reg k = Some e"
  shows "\<exists>c. content (crd_name e) = Some c \<and> from_crd S c = Some e" "entry_key e = k"
  using assms entry_of_valid(1) unfolding registry_shows_def valid_content_def by metis+

lemma shows_remove:
  assumes shows_reg: "registry_shows S content reg" and ok: "valid_content S content"
  shows "registry_shows S (content(n := None)) (remove_crd_name n reg)"
  unfolding registry_shows_def
proof (intro allI iffI, goal_cases)
  case (1 k e)
  then have e: "reg k = Some e" "crd_name e \<noteq> n" by (auto simp: remove_crd_name_def filter_opt_eq_Some)
  then show ?case using shows_name [OF shows_reg ok e(1)] by (metis fun_upd_apply)
next
  case (2 k e)
  then obtain n' c where c: "n' \<noteq> n" "content n' = Some c" "from_crd S c = Some e" "entry_key e = k" by (auto split: if_splits)
  then have "reg k = Some e" "crd_name e = n'" using shows_reg ok entry_of_valid(1) unfolding registry_shows_def valid_content_def by metis+
  then show ?case using c by (simp add: remove_crd_name_def filter_opt_eq_Some)
qed

lemma shows_write:
  assumes shows_reg: "registry_shows S content reg" and ok: "valid_content S content" and new: "valid_crd S n c"
  shows "registry_shows S (content(n \<mapsto> c)) (register_crd S c key reg)"
proof -
  have named: "crd_name_from_crd_or_key c key = Some n" using new by (simp add: valid_crd_def crd_name_from_crd_or_key_def)
  note cleared = shows_remove [OF shows_reg ok, of n]
  show ?thesis
  proof (cases "from_crd S c")
    case None
    have "register_crd S c key reg = remove_crd_name n reg" by (simp add: register_crd_def None named)
    then show ?thesis using cleared None unfolding registry_shows_def by (auto split: if_splits)
  next
    case (Some e)
    note e = entry_of_valid [OF new Some]
    have reg: "register_crd S c key reg = (remove_crd_name n reg)(entry_key e \<mapsto> e)"
      using e(2) by (simp add: register_crd_def Some named upsert_def ensure_group_allowed_def)
    have other: "n' = n" if "(content(n := None)) n' = Some c'" "from_crd S c' = Some e'" "entry_key e' = entry_key e" for n' c' e'
      using that ok e(1) entry_of_valid(1) same_key_same_name unfolding valid_content_def by (metis fun_upd_apply option.distinct(1))
    show ?thesis unfolding registry_shows_def reg
    proof (intro allI)
      fix k e'
      have old: "(remove_crd_name n reg) k = Some e' \<longleftrightarrow> (\<exists>n' c'. (content(n := None)) n' = Some c' \<and> from_crd S c' = Some e' \<and> entry_key e' = k)"
        using cleared unfolding registry_shows_def by blast
      have split_new: "(\<exists>n' c'. (content(n \<mapsto> c)) n' = Some c' \<and> from_crd S c' = Some e' \<and> entry_key e' = k) \<longleftrightarrow>
          (e' = e \<and> entry_key e = k \<or> (\<exists>n' c'. (content(n := None)) n' = Some c' \<and> from_crd S c' = Some e' \<and> entry_key e' = k))"
        using Some by (auto split: if_splits)
      show "((remove_crd_name n reg)(entry_key e \<mapsto> e)) k = Some e' \<longleftrightarrow>
          (\<exists>n' c'. (content(n \<mapsto> c)) n' = Some c' \<and> from_crd S c' = Some e' \<and> entry_key e' = k)"
      proof (cases "k = entry_key e")
        case True
        have "\<not> (\<exists>n' c'. (content(n := None)) n' = Some c' \<and> from_crd S c' = Some e' \<and> entry_key e' = k)"
          using other True by (metis fun_upd_same option.distinct(1))
        then show ?thesis unfolding split_new using True by (simp add: fun_upd_same del: fun_upd_apply) blast
      next
        case False
        then show ?thesis unfolding split_new using old by auto
      qed
    qed
  qed
qed

lemma split_char_plain: "c \<notin> set s \<Longrightarrow> split_char c s = [s]"
  by (induction s) auto

lemma split_char_last: "c \<notin> set n \<Longrightarrow> \<exists>w ws. split_char c (pre @ c # n) = w # ws @ [n]"
  by (induction pre) (auto simp: split_char_plain)

lemma last_segment_key: "n \<noteq> [] \<Longrightarrow> CHR ''/'' \<notin> set n \<Longrightarrow> last_segment (pre @ ''/'' @ n) = Some n"
  using split_char_last [of "CHR ''/''" n pre] by (auto simp: last_segment_def)

lemma split_char_cover: "x \<in> set s \<Longrightarrow> x \<noteq> c \<Longrightarrow> \<exists>w \<in> set (split_char c s). x \<in> set w"
  by (induction s) (auto split: list.splits)

text \<open>The name of a valid definition is a segment of a key.\<close>

lemma valid_crd_segment:
  assumes "valid_crd S n c"
  shows "n \<noteq> []" "CHR ''/'' \<notin> set n"
proof -
  obtain spec names where spec: "is_valid_dns_subdomain (cs_group spec)" "is_valid_name (cn_plural names)" "n = crd_full_name names spec"
    using assms by (auto simp: valid_crd_def validate_crd_spec_def check_names_def split: option.splits if_splits list.splits)
  have slash: "\<not> lower_alnum (CHR ''/'')" by (simp add: lower_alnum_def)
  have plain: "CHR ''/'' \<notin> set s" if "name_label s" for s
    using that slash by (auto simp: name_label_def list_all_iff)
  have "CHR ''/'' \<notin> set (cs_group spec)"
    using spec(1) split_char_cover [of "CHR ''/''" "cs_group spec" "CHR ''.''"] plain by (auto simp: is_valid_dns_subdomain_def list_all_iff)
  moreover have "CHR ''/'' \<notin> set (cn_plural names)" using spec(2) plain by (simp add: is_valid_name_def)
  ultimately show "n \<noteq> []" "CHR ''/'' \<notin> set n" using spec(3) by (auto simp: crd_full_name_def)
qed

lemma shows_change:
  assumes "registry_shows S content reg" and "valid_content S content" and "valid_change S T ch"
  shows "registry_shows S (changed_content ch content) (apply_watch_event S T (change_event T (ch, prev, r)) reg)"
    and "valid_content S (changed_content ch content)"
proof -
  show "registry_shows S (changed_content ch content) (apply_watch_event S T (change_event T (ch, prev, r)) reg)"
  proof (cases ch)
    case (CrdErased n)
    then have "last_segment (crd_key n) = Some n" using assms(3) last_segment_key [of n "base_path @ ''/apiextensions/customresourcedefinitions''"]
      by (simp add: crd_key_def)
    then show ?thesis using CrdErased shows_remove [OF assms(1,2)] by (simp add: apply_watch_event_def)
  qed (use assms shows_write [OF assms(1,2)] in \<open>simp_all add: apply_watch_event_def\<close>)
  show "valid_content S (changed_content ch content)"
    using assms(2,3) by (cases ch) (auto simp: valid_content_def)
qed

lemma shows_changes:
  assumes "registry_shows S content reg" and "valid_content S content" and "list_all (\<lambda>(ch, _). valid_change S T ch) chs"
  shows "registry_shows S (fold (\<lambda>(ch, _). changed_content ch) chs content) (fold (apply_watch_event S T) (map (change_event T) chs) reg) \<and>
    valid_content S (fold (\<lambda>(ch, _). changed_content ch) chs content)"
  using assms(1-3)
proof (induction chs arbitrary: content reg)
  case (Cons x chs)
  obtain ch prev r where x: "x = (ch, prev, r)" by (cases x) auto
  have ch: "valid_change S T ch" using Cons.prems(3) by (simp add: x)
  show ?case
    using Cons.IH [OF shows_change(1) [OF Cons.prems(1,2) ch, of prev r] shows_change(2) [OF Cons.prems(1,2) ch]] Cons.prems(3)
    by (simp add: x)
qed simp

text \<open>The definitions of a listing by their names.\<close>

definition listed_name :: "crd content_data \<Rightarrow> string" where
  "listed_name d = unwrap_or [] (meta_name (crd_meta (cd_data d)))"

definition listed :: "crd content_data list \<Rightarrow> string \<Rightarrow> crd option" where
  "listed ds = (\<lambda>n. map_option cd_data (find (\<lambda>d. listed_name d = n) ds))"

lemma listed_Cons: "listed (d # ds) = (listed ds)(listed_name d \<mapsto> cd_data d)"
  by (simp add: listed_def fun_eq_iff)

lemma listed_None: "n \<notin> listed_name ` set ds \<Longrightarrow> listed ds n = None"
  by (auto simp: listed_def find_None_iff)

lemma remove_absent:
  assumes "registry_shows S content reg" and "valid_content S content" and "content n = None"
  shows "remove_crd_name n reg = reg"
proof (rule ext)
  fix k
  have "crd_name e \<noteq> n" if "reg k = Some e" for e using shows_name(1) [OF assms(1,2) that] assms(3) by auto
  then show "remove_crd_name n reg k = reg k" by (cases "reg k") (auto simp: remove_crd_name_def filter_opt_def)
qed

lemma insert_listed:
  assumes "registry_shows S content reg" and "valid_content S content" and "distinct (map listed_name ds)"
    and "\<forall>d \<in> set ds. valid_crd S (listed_name d) (cd_data d) \<and> content (listed_name d) = None"
  shows "\<exists>reg'. insert_entries (filter_map (\<lambda>d. from_crd S (cd_data d)) ds) reg = Inr reg' \<and>
    registry_shows S (content ++ listed ds) reg' \<and> valid_content S (content ++ listed ds)"
  using assms
proof (induction ds arbitrary: content reg)
  case Nil
  then show ?case by (simp add: listed_def)
next
  case (Cons d ds)
  let ?content = "content(listed_name d \<mapsto> cd_data d)"
  have d: "valid_crd S (listed_name d) (cd_data d)" "content (listed_name d) = None" using Cons.prems(4) by auto
  have more: "content ++ listed (d # ds) = ?content ++ listed ds"
    using listed_None [of "listed_name d" ds] Cons.prems(3) by (auto simp: listed_Cons map_add_def fun_eq_iff split: option.splits)
  have dist: "distinct (map listed_name ds)" using Cons.prems(3) by simp
  have valid': "valid_content S ?content" using Cons.prems(2) d(1) by (auto simp: valid_content_def)
  have rest: "\<forall>x \<in> set ds. valid_crd S (listed_name x) (cd_data x) \<and> ?content (listed_name x) = None"
    using Cons.prems(3,4) by (auto simp: image_iff)
  note same = remove_absent [OF Cons.prems(1,2) d(2)]
  have named: "crd_name_from_crd_or_key (cd_data d) key = Some (listed_name d)" for key
    using d(1) by (simp add: valid_crd_def crd_name_from_crd_or_key_def)
  note written = shows_write [OF Cons.prems(1,2) d(1), of "[]"]
  show ?case
  proof (cases "from_crd S (cd_data d)")
    case None
    then have "registry_shows S ?content reg" using written by (simp add: register_crd_def named same)
    from Cons.IH [OF this valid' dist rest] show ?thesis unfolding more using None by (simp del: fun_upd_apply)
  next
    case (Some e)
    note e = entry_of_valid [OF d(1) Some]
    have "registry_shows S ?content (reg(entry_key e \<mapsto> e))"
      using written e(2) by (simp add: register_crd_def Some named same upsert_def ensure_group_allowed_def)
    from Cons.IH [OF this valid' dist rest] show ?thesis unfolding more using Some e(2) by (simp add: ensure_group_allowed_def del: fun_upd_apply)
  qed
qed

lemma fold_batches: "fold (fold f) (map (map g) chs) = fold f (map g (concat chs))"
  by (induction chs) (simp_all add: fun_eq_iff)

text \<open>
  C20: The registry follows the store.  After the watcher has listed the stored definitions, which are
  valid and have their own names, and has received the events of the valid changes since then, however
  batched, a lookup finds exactly the entries that the definitions then stored describe.
\<close>

theorem registry_follows_store:
  assumes "list_with_revision E T None None s = (Inr (ds, r), s')"
    and "distinct (map listed_name ds)" and "\<forall>d \<in> set ds. valid_crd S (listed_name d) (cd_data d)"
    and "list_all (list_all (\<lambda>(ch, _). valid_change S T ch)) chs"
    and "crd_watcher_round E T S (map (map (change_event T)) chs) reg s = (reg', s'')"
  shows "lookup_crd reg' g version plural = Some e \<longleftrightarrow>
    (\<exists>n c. fold (\<lambda>(ch, _). changed_content ch) (concat chs) (listed ds) n = Some c \<and> from_crd S c = Some e \<and> entry_key e = (g, version, plural))"
proof -
  let ?final = "fold (\<lambda>(ch, _). changed_content ch) (concat chs) (listed ds)"
  have empty: "registry_shows S (\<lambda>_. None) (\<lambda>_. None)" "valid_content S (\<lambda>_. None)" by (simp_all add: registry_shows_def valid_content_def)
  obtain reg0 where reg0: "insert_entries (filter_map (\<lambda>d. from_crd S (cd_data d)) ds) (\<lambda>_. None) = Inr reg0"
      "registry_shows S (listed ds) reg0" "valid_content S (listed ds)"
    using insert_listed [OF empty assms(2)] assms(3) by auto
  have all_valid: "list_all (\<lambda>(ch, _). valid_change S T ch) (concat chs)" using assms(4) by (induction chs) auto
  have reg': "reg' = fold (apply_watch_event S T) (map (change_event T) (concat chs)) reg0"
    using assms(5) by (simp add: crd_watcher_round_def load_crds_into_registry_def assms(1) replace_all_def reg0(1) fold_batches)
  have final: "registry_shows S ?final reg'" and valid: "valid_content S ?final"
    unfolding reg' using shows_changes [OF reg0(2,3) all_valid] by simp_all
  have "vi_served (ce_version e)" if "reg' k = Some e" for k
    using shows_name(1) [OF final valid that] valid entry_of_valid(3) unfolding valid_content_def by metis
  then have "lookup_crd reg' g version plural = Some e \<longleftrightarrow> reg' (g, version, plural) = Some e"
    by (auto simp: lookup_crd_def filter_opt_eq_Some)
  also have "\<dots> \<longleftrightarrow> (\<exists>n c. ?final n = Some c \<and> from_crd S c = Some e \<and> entry_key e = (g, version, plural))"
    using final unfolding registry_shows_def by simp
  finally show ?thesis .
qed

text \<open>An example: nothing is stored, then a definition is created.\<close>

definition example_schemas :: "unit schema_library" where
  "example_schemas = \<lparr>sl_parse = (\<lambda>_. Inr JNull), sl_compile = (\<lambda>_. Inr ())\<rparr>"

definition example_crd :: crd where
  "example_crd = \<lparr>crd_meta = Some (object_meta_default\<lparr>om_name := Some ''widgets.example.com''\<rparr>),
     crd_spec = Some \<lparr>cs_group = ''example.com'',
       cs_names = Some \<lparr>cn_plural = ''widgets'', cn_singular = ''widget'', cn_kind = ''Widget'', cn_list_kind = []\<rparr>,
       cs_scope = ''Namespaced'',
       cs_versions = [\<lparr>cv_name = ''v1'', cv_served = True, cv_storage = True, cv_schema = None, cv_status_subresource = None\<rparr>]\<rparr>\<rparr>"

definition example_crd_type :: "crd resource_type" where
  "example_crd_type = \<lparr>rt_descriptor = custom_resource_definition_descriptor, rt_meta = crd_meta, rt_set_meta = (\<lambda>m c. c\<lparr>crd_meta := m\<rparr>),
     rt_encode = (\<lambda>_. ''widget''), rt_decode = (\<lambda>b. if b = ''widget'' then Some example_crd else None)\<rparr>"

lemma example_crd_valid: "valid_crd example_schemas ''widgets.example.com'' example_crd"
  unfolding valid_crd_def by (rule conjI; code_simp)

lemma example_crd_decodes: "deserialize example_crd_type (rt_encode example_crd_type example_crd) = Inr example_crd"
  by (simp add: deserialize_def example_crd_type_def is_supported_def type_meta_of_def custom_resource_definition_descriptor_def)

theorem registry_follows_store_witness:
  "\<exists>reg'. fst (crd_watcher_round local_etcd example_crd_type example_schemas
      (map (map (change_event example_crd_type)) [[(CrdCreated ''widgets.example.com'' example_crd, [], 2)]]) (\<lambda>_. None) db_empty) = reg' \<and>
    map_option ce_kind (lookup_crd reg' ''example.com'' ''v1'' ''widgets'') = Some ''Widget''"
proof -
  let ?chs = "[[(CrdCreated ''widgets.example.com'' example_crd, [], 2)]] :: (crd_change \<times> bytes \<times> int) list list"
  obtain reg' s'' where round: "crd_watcher_round local_etcd example_crd_type example_schemas (map (map (change_event example_crd_type)) ?chs)
      (\<lambda>_. None) db_empty = (reg', s'')" by (metis surj_pair)
  obtain r where listing: "list_with_revision local_etcd example_crd_type None None db_empty = (Inr ([], r), db_empty)"
    by (simp add: list_with_revision_def local_etcd_def mvcc_get_prefix_def db_empty.rep_eq mv_empty_def)
  have valid: "list_all (list_all (\<lambda>(ch, _). valid_change example_schemas example_crd_type ch)) ?chs"
    using example_crd_valid example_crd_decodes by simp
  have "\<exists>e. from_crd example_schemas example_crd = Some e \<and> entry_key e = (''example.com'', ''v1'', ''widgets'') \<and> ce_kind e = ''Widget''"
    by (simp add: from_crd_def example_crd_def compiled_schema_def entry_key_def)
  then obtain e where e: "from_crd example_schemas example_crd = Some e" "entry_key e = (''example.com'', ''v1'', ''widgets'')" "ce_kind e = ''Widget''"
    by blast
  have "lookup_crd reg' ''example.com'' ''v1'' ''widgets'' = Some e"
    using registry_follows_store [OF listing _ _ valid round, of "''example.com''" "''v1''" "''widgets''" e] e by (auto simp: listed_def)
  then show ?thesis using round e(3) by simp
qed

end
