(* ===== verification/Api_Authorization.thy ===== *)
theory Api_Authorization
  imports Rbac Crd_Registry
begin

text \<open>
  The middlewares of the API server (\<^verbatim>\<open>tugboat-apiserver/src/auth/middleware.rs\<close>): authentication, and
  authorization, which derives from method, path and query what a request asks for and hands it to the
  authorizer.  The authenticator is a parameter.
\<close>

section \<open>Requests\<close>

datatype http_method = GET | POST | PUT | PATCH | DELETE | OtherMethod string

text \<open>The path is the one on the wire; the extension \<^verbatim>\<open>UserInfo\<close> is the user of the request.\<close>

record http_request =
  rq_method :: http_method
  rq_path :: string
  rq_query :: string
  rq_user :: "user_info option"

definition should_bypass_authentication :: "string \<Rightarrow> bool" where
  "should_bypass_authentication path \<longleftrightarrow>
     path \<in> set [''/healthz'', ''/openid/v1/jwks'', ''/.well-known/openid-configuration'']"

definition should_bypass :: "string \<Rightarrow> bool" where
  "should_bypass path \<longleftrightarrow>
     path \<in> set [''/healthz'', ''/apis'', ''/api'', ''/api/v1'', ''/openapi.json'', ''/openid/v1/jwks'', ''/.well-known/openid-configuration''] \<or>
     path = ''/openapi/v3'' \<or> strip_prefix ''/openapi/v3/'' path \<noteq> None"

definition segments :: "string \<Rightarrow> string list" where
  "segments path = filter (\<lambda>segment. segment \<noteq> []) (split_char (CHR ''/'') (dropWhile (\<lambda>c. c = CHR ''/'') path))"

definition resources_for :: "string \<Rightarrow> string \<Rightarrow> resource_descriptor list" where
  "resources_for g version = filter (\<lambda>d. rd_group d = g \<and> rd_version d = version) all_resource_descriptors"

record parsed_resource_path =
  pp_resource :: string
  pp_resource_name :: "string option"
  pp_namespace :: "string option"

text \<open>The resource with its subresource, from the segments after the resource.\<close>

definition with_subresource :: "string \<Rightarrow> string list \<Rightarrow> string" where
  "with_subresource resource after = (if 1 < length after then resource @ ''/'' @ join_char (CHR ''/'') (tl after) else resource)"

definition first_of :: "'a list \<Rightarrow> 'a option" where
  "first_of xs = (case xs of [] \<Rightarrow> None | x # _ \<Rightarrow> Some x)"

definition parse_static_resource_path :: "string \<Rightarrow> string \<Rightarrow> string list \<Rightarrow> parsed_resource_path option" where
  "parse_static_resource_path g version path =
     (let descriptors = resources_for g version;
          (ns, resource_index) = (case path of
            start # ns # resource # _ \<Rightarrow>
              if start = ''namespaces'' then
                (case find (\<lambda>d. rd_plural d = resource) descriptors of
                   Some d \<Rightarrow> (if is_namespaced (rd_scope d) then Some ns else None, 2)
                 | None \<Rightarrow> (None, 0))
              else (None, 0)
          | _ \<Rightarrow> (None, 0))
      in case drop resource_index path of
        [] \<Rightarrow> None
      | resource # after \<Rightarrow>
          (case find (\<lambda>d. rd_plural d = resource) descriptors of
             None \<Rightarrow> None
           | Some d \<Rightarrow> Some \<lparr>pp_resource = with_subresource resource after, pp_resource_name = first_of after,
               pp_namespace = (if is_namespaced (rd_scope d) then ns else None)\<rparr>))"

definition crd_path :: "'v crd_entry \<Rightarrow> string option \<Rightarrow> string list \<Rightarrow> parsed_resource_path" where
  "crd_path e ns after = \<lparr>pp_resource = with_subresource (ce_plural e) after, pp_resource_name = first_of after, pp_namespace = ns\<rparr>"

definition parse_crd_resource_path :: "string \<Rightarrow> string \<Rightarrow> string list \<Rightarrow> 'v crd_registry \<Rightarrow> parsed_resource_path option" where
  "parse_crd_resource_path g version path crds =
     (case path of
        [] \<Rightarrow> None
      | resource # after \<Rightarrow>
          (case after of
             ns # resource' # after' \<Rightarrow>
               if resource = ''namespaces'' then
                 map_option (\<lambda>e. crd_path e (if ce_scope e = Namespaced then Some ns else None) after') (lookup_crd crds g version resource')
               else map_option (\<lambda>e. crd_path e None after) (lookup_crd crds g version resource)
           | _ \<Rightarrow> map_option (\<lambda>e. crd_path e None after) (lookup_crd crds g version resource)))"

definition parse_resource_path :: "string \<Rightarrow> string \<Rightarrow> string list \<Rightarrow> 'v crd_registry \<Rightarrow> parsed_resource_path option" where
  "parse_resource_path g version path crds = (case parse_static_resource_path g version path of
     Some p \<Rightarrow> Some p
   | None \<Rightarrow> parse_crd_resource_path g version path crds)"

definition query_requests_watch :: "string \<Rightarrow> bool" where
  "query_requests_watch query = list_ex (\<lambda>pair. case split_once (CHR ''='') pair of
     None \<Rightarrow> False
   | Some (key, value) \<Rightarrow> key = ''watch'' \<and> value \<in> set [''true'', ''True'', ''ndJson'', ''NdJson'']) (split_char (CHR ''&'') query)"

definition request_verb :: "http_method \<Rightarrow> string \<Rightarrow> bool \<Rightarrow> string option" where
  "request_verb method query resource_name_present = (case method of
     GET \<Rightarrow> Some (if query_requests_watch query then ''watch'' else if resource_name_present then ''get'' else ''list'')
   | POST \<Rightarrow> Some ''create''
   | PUT \<Rightarrow> Some ''update''
   | PATCH \<Rightarrow> Some ''patch''
   | DELETE \<Rightarrow> Some ''delete''
   | OtherMethod _ \<Rightarrow> None)"

text \<open>Group, version and the remaining segments of a path.\<close>

definition split_group :: "string list \<Rightarrow> (string \<times> string \<times> string list) option" where
  "split_group parts = (case parts of
     [] \<Rightarrow> None
   | start # rest \<Rightarrow>
       if start = ''api'' then (case rest of version # remaining \<Rightarrow> Some (''core'', version, remaining) | [] \<Rightarrow> None)
       else if start = ''apis'' then (case rest of g # version # remaining \<Rightarrow> Some (g, version, remaining) | _ \<Rightarrow> None)
       else None)"

definition build_authorization_request :: "http_request \<Rightarrow> user_info \<Rightarrow> 'v crd_registry \<Rightarrow> authorization_request option" where
  "build_authorization_request req user crds =
     Option.bind (split_group (segments (rq_path req))) (\<lambda>(g, version, remaining).
     Option.bind (parse_resource_path g version remaining crds) (\<lambda>parsed.
     Option.bind (request_verb (rq_method req) (rq_query req) (pp_resource_name parsed \<noteq> None)) (\<lambda>verb.
     Some \<lparr>ar_user = user, ar_verb = verb, ar_api_group = g, ar_resource = pp_resource parsed,
       ar_resource_name = pp_resource_name parsed, ar_namespace = pp_namespace parsed\<rparr>)))"

section \<open>Middlewares\<close>

datatype authorization_mode = AlwaysAllow | RbacMode

record 's authenticator =
  au_authenticate :: "http_request \<Rightarrow> 's \<Rightarrow> (string + user_info option) \<times> 's"
  au_anonymous_enabled :: bool

text \<open>A middleware answers itself or passes on the request to the service behind it.\<close>

definition authentication_call :: "'s authenticator \<Rightarrow> http_request \<Rightarrow> 's \<Rightarrow> (status_response + http_request) \<times> 's" where
  "authentication_call A req s =
     (if should_bypass_authentication (rq_path req) then (Inr (req\<lparr>rq_user := Some anonymous\<rparr>), s)
      else case au_authenticate A req s of
        (Inr (Some user), s') \<Rightarrow> (Inr (req\<lparr>rq_user := Some user\<rparr>), s')
      | (Inr None, s') \<Rightarrow>
          if au_anonymous_enabled A then (Inr (req\<lparr>rq_user := Some anonymous\<rparr>), s')
          else (Inl (unauthorized ''Authentication credentials were not provided'' None), s')
      | (Inl e, s') \<Rightarrow> (Inl (unauthorized e None), s'))"

definition authorization_call ::
  "(store_error \<Rightarrow> string) \<Rightarrow> 's etcd \<Rightarrow> rbac_types \<Rightarrow> 'v crd_registry \<Rightarrow> authorization_mode \<Rightarrow> http_request \<Rightarrow> 's \<Rightarrow>
     (status_response + http_request) \<times> 's" where
  "authorization_call show_error E R crds mode req s =
     (if mode = AlwaysAllow \<or> should_bypass (rq_path req) then (Inr req, s)
      else case rq_user req of
        None \<Rightarrow> (Inl (unauthorized ''Authentication context is missing'' None), s)
      | Some user \<Rightarrow> (case build_authorization_request req user crds of
          None \<Rightarrow> (Inr req, s)
        | Some request \<Rightarrow> (case authorize_with_store show_error E R request s of
            (Allowed, s') \<Rightarrow> (Inr req, s')
          | (Denied reason, s') \<Rightarrow> (Inl (forbidden reason None), s'))))"

definition guard_request ::
  "(store_error \<Rightarrow> string) \<Rightarrow> 's etcd \<Rightarrow> rbac_types \<Rightarrow> 'v crd_registry \<Rightarrow> authorization_mode \<Rightarrow> 's authenticator \<Rightarrow> http_request \<Rightarrow> 's \<Rightarrow>
     (status_response + http_request) \<times> 's" where
  "guard_request show_error E R crds mode A req s = (case authentication_call A req s of
     (Inl r, s') \<Rightarrow> (Inl r, s')
   | (Inr req', s') \<Rightarrow> authorization_call show_error E R crds mode req' s')"

section \<open>Paths of resources\<close>

text \<open>The path with given segments.\<close>

definition path_of :: "string list \<Rightarrow> string" where
  "path_of ws = concat (map (\<lambda>w. ''/'' @ w) ws)"

definition segment_ok :: "string \<Rightarrow> bool" where
  "segment_ok w \<longleftrightarrow> w \<noteq> [] \<and> CHR ''/'' \<notin> set w"

lemma split_char_path: "CHR ''/'' \<notin> set w \<Longrightarrow> list_all segment_ok ws \<Longrightarrow> split_char (CHR ''/'') (w @ path_of ws) = w # ws"
proof (induction ws arbitrary: w)
  case Nil
  then show ?case by (simp add: path_of_def split_char_plain)
next
  case (Cons v ws)
  have v: "split_char (CHR ''/'') (v @ path_of ws) = v # ws" using Cons by (simp add: segment_ok_def)
  have "split_char (CHR ''/'') (u @ CHR ''/'' # v @ path_of ws) = u # v # ws" if "CHR ''/'' \<notin> set u" for u
    using that by (induction u) (auto simp: v)
  from this [OF Cons.prems(1)] show ?case by (simp add: path_of_def)
qed

lemma segments_path:
  assumes "list_all segment_ok ws"
  shows "segments (path_of ws) = ws"
proof (cases ws)
  case Nil
  then show ?thesis by (simp add: path_of_def segments_def)
next
  case (Cons w rest)
  have w: "w \<noteq> []" "CHR ''/'' \<notin> set w" "list_all segment_ok rest" using assms Cons by (simp_all add: segment_ok_def)
  have "dropWhile (\<lambda>c. c = CHR ''/'') (path_of ws) = w @ path_of rest"
    using w Cons by (cases w) (auto simp: path_of_def)
  then have "segments (path_of ws) = filter (\<lambda>segment. segment \<noteq> []) ws"
    using split_char_path [OF w(2,3)] Cons by (simp add: segments_def)
  also have "\<dots> = ws" using assms by (simp add: filter_id_conv segment_ok_def list_all_iff)
  finally show ?thesis .
qed

text \<open>The segments of the path of a resource, an object or a subresource.\<close>

definition resource_segments :: "resource_descriptor \<Rightarrow> string option \<Rightarrow> string list \<Rightarrow> string list" where
  "resource_segments d ns after =
     (if rd_group d = ''core'' then [''api'', rd_version d] else [''apis'', rd_group d, rd_version d]) @
     (case ns of Some x \<Rightarrow> [''namespaces'', x] | None \<Rightarrow> []) @ rd_plural d # after"

text \<open>
  Below a namespace the name of a resource is that resource, so the subresources of a namespace must
  have other names.
\<close>

definition unambiguous :: "resource_descriptor \<Rightarrow> string option \<Rightarrow> string list \<Rightarrow> bool" where
  "unambiguous d ns after \<longleftrightarrow> ns \<noteq> None \<or> rd_plural d \<noteq> ''namespaces'' \<or> length after \<le> 1 \<or>
     find (\<lambda>d'. rd_plural d' = after ! 1) (resources_for (rd_group d) (rd_version d)) = None"

lemma descriptor_facts:
  assumes "d \<in> set all_resource_descriptors"
  shows "find (\<lambda>d'. rd_plural d' = rd_plural d) (resources_for (rd_group d) (rd_version d)) = Some d"
    and "segment_ok (rd_group d)" "segment_ok (rd_version d)" "segment_ok (rd_plural d)"
proof -
  have "list_all (\<lambda>d. find (\<lambda>d'. rd_plural d' = rd_plural d) (resources_for (rd_group d) (rd_version d)) = Some d \<and>
      segment_ok (rd_group d) \<and> segment_ok (rd_version d) \<and> segment_ok (rd_plural d)) all_resource_descriptors" by code_simp
  then show "find (\<lambda>d'. rd_plural d' = rd_plural d) (resources_for (rd_group d) (rd_version d)) = Some d"
    "segment_ok (rd_group d)" "segment_ok (rd_version d)" "segment_ok (rd_plural d)"
    using assms by (simp_all add: list_all_iff)
qed

lemma parse_static_path:
  assumes d: "d \<in> set all_resource_descriptors" and ns: "ns \<noteq> None \<longrightarrow> is_namespaced (rd_scope d)" and "unambiguous d ns after"
  shows "parse_static_resource_path (rd_group d) (rd_version d) ((case ns of Some x \<Rightarrow> [''namespaces'', x] | None \<Rightarrow> []) @ rd_plural d # after) =
    Some \<lparr>pp_resource = with_subresource (rd_plural d) after, pp_resource_name = first_of after, pp_namespace = ns\<rparr>"
proof (cases ns)
  case (Some x)
  then show ?thesis using ns by (simp add: parse_static_resource_path_def descriptor_facts(1) [OF d])
next
  case None
  then show ?thesis using assms(3) descriptor_facts(1) [OF d]
    by (cases after; cases "tl after") (auto simp: parse_static_resource_path_def unambiguous_def Let_def)
qed

lemma split_group_resource:
  "split_group (resource_segments d ns after) = Some (rd_group d, rd_version d, (case ns of Some x \<Rightarrow> [''namespaces'', x] | None \<Rightarrow> []) @ rd_plural d # after)"
  by (simp add: split_group_def resource_segments_def)

lemma resource_path_guarded:
  assumes ok: "list_all segment_ok (resource_segments d ns after)"
  shows "\<not> should_bypass (path_of (resource_segments d ns after))" "\<not> should_bypass_authentication (path_of (resource_segments d ns after))"
proof -
  let ?ws = "resource_segments d ns after"
  have long: "3 \<le> length ?ws" by (simp add: resource_segments_def)
  have second: "path_of ?ws ! 1 = CHR ''a''" by (simp add: path_of_def resource_segments_def)
  have short: "list_all (\<lambda>p. length (segments p) < 3 \<or> p ! 1 \<noteq> CHR ''a'')
      [''/healthz'', ''/apis'', ''/api'', ''/api/v1'', ''/openapi.json'', ''/openid/v1/jwks'', ''/.well-known/openid-configuration'', ''/openapi/v3'']"
    by code_simp
  have "path_of ?ws \<notin> set [''/healthz'', ''/apis'', ''/api'', ''/api/v1'', ''/openapi.json'', ''/openid/v1/jwks'', ''/.well-known/openid-configuration'', ''/openapi/v3'']"
    using short segments_path [OF ok] second long unfolding list_all_iff by fastforce
  moreover have "strip_prefix ''/openapi/v3/'' (path_of ?ws) = None"
  proof (rule ccontr)
    assume "strip_prefix ''/openapi/v3/'' (path_of ?ws) \<noteq> None"
    then obtain rest where "path_of ?ws = ''/openapi/v3/'' @ rest" by (auto simp: strip_prefix_eq_Some)
    then show False using second by simp
  qed
  ultimately show "\<not> should_bypass (path_of ?ws)" "\<not> should_bypass_authentication (path_of ?ws)"
    by (auto simp: should_bypass_def should_bypass_authentication_def)
qed

lemma resource_request:
  assumes "d \<in> set all_resource_descriptors" and "ns \<noteq> None \<longrightarrow> is_namespaced (rd_scope d)" and "unambiguous d ns after"
    and "list_all segment_ok (resource_segments d ns after)" and "rq_path req = path_of (resource_segments d ns after)"
    and "request_verb (rq_method req) (rq_query req) (after \<noteq> []) = Some verb"
  shows "build_authorization_request req user crds = Some \<lparr>ar_user = user, ar_verb = verb, ar_api_group = rd_group d,
    ar_resource = with_subresource (rd_plural d) after, ar_resource_name = first_of after, ar_namespace = ns\<rparr>"
proof -
  have "first_of after \<noteq> None \<longleftrightarrow> after \<noteq> []" by (cases after) (simp_all add: first_of_def)
  then show ?thesis using assms(6)
    by (simp add: build_authorization_request_def assms(5) segments_path [OF assms(4)] split_group_resource parse_resource_path_def
        parse_static_path [OF assms(1-3)])
qed


text \<open>An administrator reads a Ship.\<close>

definition example_admin :: user_info where
  "example_admin = x509 ''root'' [''system:masters''] []"

definition example_authenticator :: "mvcc_db authenticator" where
  "example_authenticator = \<lparr>au_authenticate = (\<lambda>_ s. (Inr (Some example_admin), s)), au_anonymous_enabled = False\<rparr>"

definition example_http_request :: http_request where
  "example_http_request = \<lparr>rq_method = GET, rq_path = ''/api/v1/namespaces/default/ships/web'', rq_query = [], rq_user = None\<rparr>"

lemma example_admin_allowed:
  "authorize_with_store show_error E R \<lparr>ar_user = example_admin, ar_verb = v, ar_api_group = g, ar_resource = r, ar_resource_name = n, ar_namespace = ns\<rparr> s = (Allowed, s)"
  by (simp add: authorize_with_store_def authorize_impl_with_store_def is_superuser_def example_admin_def x509_def with_authenticated_def)



end
