(* ===== verification/Spec2Isabelle.thy ===== *)
theory Spec2Isabelle
  imports Scheduler Election_Correct Api_Correct Rbac Replicaset_Correct Rollout Fleet_Correct Ship_Updates Node_Drain Reconcile_Queue Api_Authorization
begin

text \<open>
  A verification library for Tugboat, a Kubernetes-like orchestrator of virtual machines.

  \<^bold>\<open>The program.\<close>  Clients talk to the API server (\<^verbatim>\<open>tugboat-apiserver\<close>), which authenticates and authorizes
  a request and keeps all resources in etcd through the resource store (\<^verbatim>\<open>tugboat-resource-store\<close>).  The
  scheduler (\<^verbatim>\<open>tugboat-scheduler\<close>) assigns Ships, the virtual machines, to Nodes; only the replica that
  holds a lease schedules.  Controllers (\<^verbatim>\<open>tugboat-controller-manager\<close>) derive resources from others on
  the runtime of the client library (\<^verbatim>\<open>tugboat-client\<close>), and an agent on each node runs the machines.

  \<^bold>\<open>Conventions.\<close>  A message of \<^verbatim>\<open>tugboat-resources/proto\<close> or a struct is a record whose fields have a prefix
  of their own, an enum a datatype, an error a value of a sum type.  Strings are lists of characters;
  unsigned 64-bit integers are natural numbers with the saturation the code writes, signed ones
  integers with their wrap-around (\<^verbatim>\<open>wrap_i64\<close>, \<^verbatim>\<open>i32_add\<close>).  Maps are functions, or association lists in
  the order of the keys where the order is seen.  A call of etcd or of the API server takes a state and
  returns an answer with the next state; in between other clients may have done anything.  Code outside
  the repository is a parameter: etcd (\<^verbatim>\<open>etcd\<close>, with the laws of the locale \<^verbatim>\<open>etcd_client\<close>), prost and serde
  (\<^verbatim>\<open>resource_type\<close>, \<^verbatim>\<open>api_type\<close>, \<^verbatim>\<open>schema_library\<close>), SHA-256, the authenticator, random suffixes and clocks.

  \<^bold>\<open>Library.\<close>  \<^verbatim>\<open>Prelude\<close> has the parts of the Rust standard library the code uses (options, strings,
  integers at their width, parsing and printing of numbers) with the lemmas on them, \<^verbatim>\<open>F64\<close> the arithmetic
  of 64-bit floating point numbers.  \<^verbatim>\<open>Resources\<close> and \<^verbatim>\<open>Apps\<close> have the messages, \<^verbatim>\<open>Object_Meta\<close> the operations on
  metadata of \<^verbatim>\<open>tugboat-resources/src/lib.rs\<close>, \<^verbatim>\<open>Resource_Api\<close> the table of resource kinds of \<^verbatim>\<open>resource_api.rs\<close>.

  \<^bold>\<open>Scheduler.\<close>  \<^verbatim>\<open>Selectors\<close>, \<^verbatim>\<open>Memory_Size\<close>, \<^verbatim>\<open>Sched_Context\<close> and \<^verbatim>\<open>Sched_Filters\<close> have the plugins of
  \<^verbatim>\<open>tugboat-scheduler/src/plugins\<close> and what they read of the cluster; \<^verbatim>\<open>Filter_Specs\<close> shows what it means that a
  filter accepts a node.  \<^verbatim>\<open>Sched_Framework\<close> has scores, the framework and the default plugins: the
  selected node is the first best of the accepted ones, has room for the exact sum of demands, and
  scores do not overflow.  \<^verbatim>\<open>Scheduler\<close> has the cache (\<^verbatim>\<open>cache.rs\<close>) and one iteration of the loop
  (\<^verbatim>\<open>scheduler.rs\<close>) against an arbitrary API client that logs its calls: bindings are sent by the leader
  only, for unassigned Ships, to feasible nodes, after the claims were annotated.  \<^verbatim>\<open>Cluster_Examples\<close> has
  the clusters of the witnesses.  \<^verbatim>\<open>Leader_Election\<close> has the elector of \<^verbatim>\<open>leader_election.rs\<close> as a state machine
  cut at its calls, and a step relation in which calls and answers of many electors are delayed, lost
  and reordered; \<^verbatim>\<open>Election_Correct\<close> shows by an invariant that running leases exclude each other, that a
  round ends after at most eleven calls, and that an undisturbed one makes progress.

  \<^bold>\<open>Store.\<close>  \<^verbatim>\<open>Etcd\<close> has the interface of etcd: a locale whose laws say that every call takes effect at
  one moment while other clients write, and its interpretation on a multi-version database (\<^verbatim>\<open>local_etcd\<close>).
  \<^verbatim>\<open>Store\<close> has \<^verbatim>\<open>lib.rs\<close> of the resource store over it, \<^verbatim>\<open>Store_Correct\<close> shows that keys of different objects
  differ, that writes of several objects are atomic, that of two writes of one version one succeeds, and
  that reads return what was written.

  \<^bold>\<open>API server.\<close>  \<^verbatim>\<open>Json\<close> has JSON values and merge patches, \<^verbatim>\<open>Api_Responses\<close> responses, tables and selectors,
  \<^verbatim>\<open>Api_Handlers\<close> the generic handlers of \<^verbatim>\<open>endpoints/resource_handlers.rs\<close>; \<^verbatim>\<open>Api_Effects\<close> and \<^verbatim>\<open>Api_Correct\<close> show that
  PUT and PATCH are atomic updates that keep the identity of an object, that DELETE respects
  finalizers, and that POST uses a free key.  \<^verbatim>\<open>Ship_Endpoints\<close> has the handlers of \<^verbatim>\<open>v1_core/ship.rs\<close>,
  \<^verbatim>\<open>Ship_Updates\<close> what they and the ReplicaSet controller do to each other.  \<^verbatim>\<open>Node_Drain\<close> has the drain of
  \<^verbatim>\<open>v1_core/node.rs\<close>: the planned migrations fit their targets together.  \<^verbatim>\<open>Rbac\<close> has the authorizer, shown
  equal to what the stored policies grant; \<^verbatim>\<open>Api_Authorization\<close> the middlewares of \<^verbatim>\<open>auth/middleware.rs\<close> in front
  of all handlers: requests for resources pass only after the authorizer allowed exactly them.
  \<^verbatim>\<open>Crd_Registry\<close> has the validation of custom resource definitions and the registry of \<^verbatim>\<open>crd_registry.rs\<close>,
  which follows the store.

  \<^bold>\<open>Controllers.\<close>  \<^verbatim>\<open>Client_Api\<close> has the typed API of the client with a recording of its calls, so that
  controllers are analysed for arbitrary answers.  \<^verbatim>\<open>Controller_Runtime\<close> has back-off, watch streams and
  finalizers of \<^verbatim>\<open>tugboat-client/src/runtime\<close>, \<^verbatim>\<open>Reconcile_Queue\<close> its queue as any interleaving of the steps of
  its tasks: one live task per object, and cancelled tasks stop.  \<^verbatim>\<open>Change_Classifier\<close> has
  \<^verbatim>\<open>change_classifier.rs\<close>, \<^verbatim>\<open>Replicaset\<close> and \<^verbatim>\<open>Replicaset_Correct\<close> the ReplicaSet controller (\<^verbatim>\<open>replicaset.rs\<close>,
  \<^verbatim>\<open>replicaset/\<close>): how many Ships it creates, deletes and updates.  \<^verbatim>\<open>Deployment\<close> and \<^verbatim>\<open>Rollout\<close> have the
  Deployment controller (\<^verbatim>\<open>deployment/\<close>): a rolling update stays within its limits and completes.  \<^verbatim>\<open>Fleet\<close>
  and \<^verbatim>\<open>Fleet_Correct\<close> have the Fleet controller (\<^verbatim>\<open>fleet.rs\<close>): the ReplicaSet of an outdated template is
  retired only while the current one is ready.

  \<^bold>\<open>Bounds.\<close>  Definitions are total; loops are recursions on their data.  Fuel appears in
  \<^verbatim>\<open>Leader_Election.quiet_run\<close> and \<^verbatim>\<open>Election_Correct.play\<close> only, where eleven calls are shown to be enough.
  Theorems on rolling updates assume numbers of replicas whose sums stay within 32 bits.

  \<^bold>\<open>Not modelled.\<close>  Authentication itself (cryptography and network of libraries), the audit log, the
  dispatch of custom resources (untyped JSON under schemas of a library), the watch streams of the
  server and the reflector of the client, the storage, snapshot, network, service account and
  role controllers, the node agent, the VM runtimes and the CNI and CSI operators (processes, mounts
  and sockets of a node), the command line and VM images, start-up and configuration.
\<close>

end
